(* ===== verification/Prelude.thy ===== *)
theory Prelude
  imports Main "HOL-Library.Word"
begin

text \<open>
  Shared vocabulary of the library: machine integer types at the widths the firmware
  uses, the error numbers of \<^verbatim>\<open>include/errno.h\<close>, little-endian byte layout
  (\<^verbatim>\<open>arch/arm/include/byteorder.h\<close>), and the generic lemmas on lists, options and words
  that the component theories rely on.
\<close>

unbundle bit_operations_syntax

section \<open>Types\<close>

type_synonym u8 = "8 word"
type_synonym u16 = "16 word"
type_synonym u32 = "32 word"

text \<open>An address of the modelled store; what it points to is a matter of each component.\<close>

type_synonym addr = nat

section \<open>Collections\<close>

named_theorems config_simps \<open>the values of the build configuration\<close>
named_theorems errno_simps \<open>the values of the error numbers\<close>

section \<open>Error numbers\<close>

definition OK :: int where [errno_simps]: "OK = 0"
definition EPERM :: int where [errno_simps]: "EPERM = 1"
definition EINTR :: int where [errno_simps]: "EINTR = 4"
definition EIO :: int where [errno_simps]: "EIO = 5"
definition ENXIO :: int where [errno_simps]: "ENXIO = 6"
definition E2BIG :: int where [errno_simps]: "E2BIG = 7"
definition EAGAIN :: int where [errno_simps]: "EAGAIN = 11"
definition ENOMEM :: int where [errno_simps]: "ENOMEM = 12"
definition EBUSY :: int where [errno_simps]: "EBUSY = 16"
definition EEXIST :: int where [errno_simps]: "EEXIST = 17"
definition ENODEV :: int where [errno_simps]: "ENODEV = 19"
definition EINVAL :: int where [errno_simps]: "EINVAL = 22"
definition EDOM :: int where [errno_simps]: "EDOM = 33"
definition ENOSYS :: int where [errno_simps]: "ENOSYS = 38"
definition EPROTO :: int where [errno_simps]: "EPROTO = 71"
definition EOVERFLOW :: int where [errno_simps]: "EOVERFLOW = 75"
definition EBADFD :: int where [errno_simps]: "EBADFD = 77"
definition EPROTONOSUPPORT :: int where [errno_simps]: "EPROTONOSUPPORT = 93"
definition ENETDOWN :: int where [errno_simps]: "ENETDOWN = 100"
definition ENOTCONN :: int where [errno_simps]: "ENOTCONN = 107"
definition ETIMEDOUT :: int where [errno_simps]: "ETIMEDOUT = 110"

section \<open>Base state\<close>

text \<open>Whether the module sits on a phone (the base), from \<^verbatim>\<open>include/nuttx/greybus/mods.h\<close>.\<close>

datatype base_attached_e = BASE_DETACHED | BASE_ATTACHED | BASE_ATTACHED_OFF | BASE_INVALID

section \<open>Bytes\<close>

text \<open>
  The target is little-endian, so \<^verbatim>\<open>cpu_to_le16\<close> and \<^verbatim>\<open>le16_to_cpu\<close> are casts; what a
  16-bit field looks like in a byte buffer is its low byte followed by its high byte.
\<close>

definition le16_bytes :: "u16 \<Rightarrow> u8 list" where
  "le16_bytes w = [ucast w, ucast (drop_bit 8 w)]"

definition le16_at :: "u8 list \<Rightarrow> nat \<Rightarrow> u16" where
  "le16_at bs i = ucast (bs ! i) OR push_bit 8 (ucast (bs ! Suc i))"

definition put_le16 :: "nat \<Rightarrow> u16 \<Rightarrow> u8 list \<Rightarrow> u8 list" where
  "put_le16 i w bs = bs[i := ucast w, Suc i := ucast (drop_bit 8 w)]"

definition le32_bytes :: "u32 \<Rightarrow> u8 list" where
  "le32_bytes w = [ucast w, ucast (drop_bit 8 w), ucast (drop_bit 16 w), ucast (drop_bit 24 w)]"

lemma length_le32_bytes [simp]: "length (le32_bytes w) = 4"
  by (simp add: le32_bytes_def)

lemma length_le16_bytes [simp]: "length (le16_bytes w) = 2"
  by (simp add: le16_bytes_def)

lemma length_put_le16 [simp]: "length (put_le16 i w bs) = length bs"
  by (simp add: put_le16_def)

lemma le16_join: "ucast (ucast w :: u8) OR push_bit 8 (ucast (ucast (drop_bit 8 w) :: u8)) = (w :: u16)"
proof (rule bit_word_eqI)
  fix n :: nat
  assume "n < LENGTH(16)"
  then show "bit (ucast (ucast w :: u8) OR push_bit 8 (ucast (ucast (drop_bit 8 w) :: u8)) :: u16) n
    = bit w n"
    by (cases "n < 8") (auto simp: bit_or_iff bit_push_bit_iff bit_ucast_iff bit_drop_bit_eq)
qed

lemma le16_at_put_le16 [simp]: "Suc i < length bs \<Longrightarrow> le16_at (put_le16 i w bs) i = w"
  by (simp add: le16_at_def put_le16_def le16_join)

lemma le16_at_put_le16_other [simp]:
  "j \<noteq> i \<Longrightarrow> j \<noteq> Suc i \<Longrightarrow> i \<noteq> Suc j \<Longrightarrow> le16_at (put_le16 i w bs) j = le16_at bs j"
  by (simp add: le16_at_def put_le16_def)

lemma nth_put_le16_other [simp]:
  "j \<noteq> i \<Longrightarrow> j \<noteq> Suc i \<Longrightarrow> put_le16 i w bs ! j = bs ! j"
  by (simp add: put_le16_def)

lemma le16_at_le16_bytes [simp]: "le16_at (le16_bytes w @ bs) 0 = w"
  by (simp add: le16_at_def le16_bytes_def le16_join)

section \<open>Lists\<close>

text \<open>
  Overwriting a block of a buffer, the effect of \<^verbatim>\<open>memcpy(&buf[i], src, n)\<close>. The caller
  states where the block has to fit.
\<close>

definition memcpy_at :: "nat \<Rightarrow> 'a list \<Rightarrow> 'a list \<Rightarrow> 'a list" where
  "memcpy_at i src buf = take i buf @ src @ drop (i + length src) buf"

lemma length_memcpy [simp]: "i + length src \<le> length buf \<Longrightarrow> length (memcpy_at i src buf) = length buf"
  by (simp add: memcpy_at_def)

lemma take_memcpy: "i \<le> length buf \<Longrightarrow> take (i + length src) (memcpy_at i src buf) = take i buf @ src"
  by (simp add: memcpy_at_def)

lemma take_memcpy_before: "j \<le> i \<Longrightarrow> i \<le> length buf \<Longrightarrow> take j (memcpy_at i src buf) = take j buf"
  by (simp add: memcpy_at_def min_def)

lemma drop_take_memcpy:
  "i + length src \<le> length buf \<Longrightarrow> take (length src) (drop i (memcpy_at i src buf)) = src"
  by (simp add: memcpy_at_def)

end
