(* ===== verification/Rtr.thy ===== *)
theory Rtr
  imports Prelude "HOL-Library.Monad_Syntax"
begin

text \<open>
  The cport table, \<^verbatim>\<open>drivers/greybus/rtr.c\<close>: a tree of tables of 16 pointers, one level for
  each hexadecimal digit of a 16-bit number, every table with a pointer to its parent. The tables
  are kept on an explicit store; \<open>None\<close> is an access outside an allocated table. A data
  pointer is a number and 0 is the null pointer. What \<^verbatim>\<open>zalloc\<close> returns is a parameter.
\<close>

section \<open>Data\<close>

definition BITS_PER_LEVEL :: nat where "BITS_PER_LEVEL = 4"
definition LEVEL_MASK :: u16 where "LEVEL_MASK = push_bit BITS_PER_LEVEL 1 - 1"
definition TOTAL_BITS :: nat where "TOTAL_BITS = 16"
definition TABLE_ENTRIES :: nat where "TABLE_ENTRIES = 16"
definition LEVELS :: nat where "LEVELS = TOTAL_BITS div BITS_PER_LEVEL"

lemmas rtr_consts = BITS_PER_LEVEL_def LEVEL_MASK_def TOTAL_BITS_def TABLE_ENTRIES_def LEVELS_def

definition SUB_TABLE :: "u16 \<Rightarrow> nat \<Rightarrow> nat" where
  "SUB_TABLE a lvl = unat (drop_bit (lvl * BITS_PER_LEVEL) a AND LEVEL_MASK)"

record rtr_tbl =
  parent_tbl :: addr
  slots :: "addr list"

type_synonym rtr_mem = "addr \<rightharpoonup> rtr_tbl"

section \<open>Operations\<close>

definition rtr_get_parent :: "rtr_mem \<Rightarrow> addr \<Rightarrow> addr option" where
  "rtr_get_parent H tbl = map_option parent_tbl (H tbl)"

text \<open>The parent pointer is written before the pointer of the allocation is tested by anybody.\<close>

definition rtr_alloc_child :: "(rtr_mem \<Rightarrow> addr) \<Rightarrow> addr \<Rightarrow> rtr_mem \<Rightarrow> (addr \<times> rtr_mem) option" where
  "rtr_alloc_child zalloc parent H =
     (let child = zalloc H in
      if child = 0 then None
      else Some (child, H(child \<mapsto> \<lparr>parent_tbl = parent, slots = replicate TABLE_ENTRIES 0\<rparr>)))"

definition rtr_alloc_table :: "(rtr_mem \<Rightarrow> addr) \<Rightarrow> rtr_mem \<Rightarrow> (addr \<times> rtr_mem) option" where
  "rtr_alloc_table zalloc H = rtr_alloc_child zalloc 0 H"

definition rtr_free_table :: "addr \<Rightarrow> rtr_mem \<Rightarrow> rtr_mem" where
  "rtr_free_table tbl H = H(tbl := None)"

definition set_slot :: "addr \<Rightarrow> nat \<Rightarrow> addr \<Rightarrow> rtr_mem \<Rightarrow> rtr_mem option" where
  "set_slot tbl i p H = map_option (\<lambda>t. H(tbl \<mapsto> t\<lparr>slots := (slots t)[i := p]\<rparr>)) (H tbl)"

fun add_value :: "(rtr_mem \<Rightarrow> addr) \<Rightarrow> addr \<Rightarrow> u16 \<Rightarrow> nat \<Rightarrow> addr \<Rightarrow> rtr_mem \<Rightarrow> rtr_mem option" where
  "add_value zalloc tbl a 0 data H = set_slot tbl (SUB_TABLE a 0) data H"
| "add_value zalloc tbl a (Suc lvl) data H =
     do { t \<leftarrow> H tbl;
          let a3 = SUB_TABLE a (Suc lvl);
          if slots t ! a3 = 0
          then do { (child, H1) \<leftarrow> rtr_alloc_child zalloc tbl H;
                    H2 \<leftarrow> set_slot tbl a3 child H1;
                    add_value zalloc child a lvl data H2 }
          else add_value zalloc (slots t ! a3) a lvl data H }"

definition rtr_add_value :: "(rtr_mem \<Rightarrow> addr) \<Rightarrow> addr \<Rightarrow> u16 \<Rightarrow> addr \<Rightarrow> rtr_mem \<Rightarrow> rtr_mem option" where
  "rtr_add_value zalloc tbl a data H = add_value zalloc tbl a (LEVELS - 1) data H"

text \<open>The slot is cleared whether or not the table behind it was emptied.\<close>

fun remove_value :: "addr \<Rightarrow> u16 \<Rightarrow> nat \<Rightarrow> rtr_mem \<Rightarrow> rtr_mem option" where
  "remove_value tbl a lvl H =
     do { t \<leftarrow> H tbl;
          let a3 = SUB_TABLE a lvl;
          if slots t ! a3 = 0 then Some H
          else do {
            H1 \<leftarrow> (case lvl of 0 \<Rightarrow> Some H | Suc l \<Rightarrow> remove_value (slots t ! a3) a l H);
            H2 \<leftarrow> set_slot tbl a3 0 H1;
            t2 \<leftarrow> H2 tbl;
            Some (if (\<forall>p \<in> set (slots t2). p = 0) \<and> lvl < LEVELS - 1 then rtr_free_table tbl H2 else H2)
          } }"

definition rtr_remove_value :: "addr \<Rightarrow> u16 \<Rightarrow> rtr_mem \<Rightarrow> rtr_mem option" where
  "rtr_remove_value tbl a H = remove_value tbl a (LEVELS - 1) H"

text \<open>The table that holds the value and the index in it, or the null pointer (\<open>None\<close> inside).\<close>

fun get_value :: "rtr_mem \<Rightarrow> addr \<Rightarrow> nat \<Rightarrow> u16 \<Rightarrow> (addr \<times> nat) option option" where
  "get_value H tbl lvl a =
     do { t \<leftarrow> H tbl;
          let a3 = SUB_TABLE a lvl;
          if slots t ! a3 = 0 then Some None
          else case lvl of 0 \<Rightarrow> Some (Some (tbl, a3)) | Suc l \<Rightarrow> get_value H (slots t ! a3) l a }"

definition rtr_get_value :: "rtr_mem \<Rightarrow> addr \<Rightarrow> u16 \<Rightarrow> addr option" where
  "rtr_get_value H tbl a =
     do { r \<leftarrow> get_value H tbl (LEVELS - 1) a;
          case r of None \<Rightarrow> Some 0 | Some (l0_tbl, ndx) \<Rightarrow> map_option (\<lambda>t. slots t ! ndx) (H l0_tbl) }"

text \<open>The loops over a table: the first entry from an index on, and the index of an entry.\<close>

definition rtr_get_first_tbl_entry :: "rtr_tbl \<Rightarrow> nat \<Rightarrow> addr" where
  "rtr_get_first_tbl_entry t ndx =
     (case filter (\<lambda>i. slots t ! i \<noteq> 0) [ndx..<TABLE_ENTRIES] of [] \<Rightarrow> 0 | i # _ \<Rightarrow> slots t ! i)"

definition rtr_find_ndx :: "rtr_tbl \<Rightarrow> addr \<Rightarrow> nat option" where
  "rtr_find_ndx t p =
     (case filter (\<lambda>i. slots t ! i = p) [0..<TABLE_ENTRIES] of [] \<Rightarrow> None | i # _ \<Rightarrow> Some i)"

text \<open>\<open>start\<close> is the index after \<^verbatim>\<open>ndx\<close>; the assertion that the table is in its parent faults where it fails.\<close>

partial_function (option) get_next_value :: "rtr_mem \<Rightarrow> addr \<Rightarrow> nat \<Rightarrow> nat \<Rightarrow> addr option" where
  "get_next_value H tbl lvl start =
     (if tbl = 0 then Some 0
      else do {
        t \<leftarrow> H tbl;
        let rv = rtr_get_first_tbl_entry t start;
        if rv \<noteq> 0
        then (if lvl = 0 then Some rv else get_next_value H rv (lvl - 1) 0)
        else if parent_tbl t = 0 then Some 0
        else do {
          pt \<leftarrow> H (parent_tbl t);
          i \<leftarrow> rtr_find_ndx pt tbl;
          get_next_value H (parent_tbl t) (lvl + 1) (Suc i)
        }
      })"

definition rtr_get_next_value :: "rtr_mem \<Rightarrow> addr \<Rightarrow> u16 \<Rightarrow> addr option" where
  "rtr_get_next_value H tbl last_value =
     do { r \<leftarrow> get_value H tbl (LEVELS - 1) last_value;
          case r of None \<Rightarrow> Some 0 | Some (last_tbl, ndx) \<Rightarrow> get_next_value H last_tbl 0 (Suc ndx) }"

fun get_first_value :: "rtr_mem \<Rightarrow> addr \<Rightarrow> nat \<Rightarrow> addr option" where
  "get_first_value H tbl lvl =
     do { t \<leftarrow> H tbl;
          let rv = rtr_get_first_tbl_entry t 0;
          if rv = 0 then Some 0
          else case lvl of 0 \<Rightarrow> Some rv | Suc l \<Rightarrow> get_first_value H rv l }"

definition rtr_get_first_value :: "rtr_mem \<Rightarrow> addr \<Rightarrow> addr option" where
  "rtr_get_first_value H tbl = get_first_value H tbl (LEVELS - 1)"

section \<open>Digits\<close>

lemma SUB_TABLE_digit: "SUB_TABLE a lvl = unat a div 16 ^ lvl mod 16"
proof -
  have m: "LEVEL_MASK = (mask 4 :: u16)"
    by (simp add: rtr_consts mask_eq_exp_minus_1 push_bit_eq_mult)
  have "unat (drop_bit (lvl * 4) a AND mask 4) = unat a div 2 ^ (lvl * 4) mod 2 ^ 4"
    unfolding take_bit_eq_mask [symmetric] unsigned_take_bit_eq unat_drop_bit_eq
    by (simp add: take_bit_eq_mod drop_bit_eq_div)
  then show ?thesis
    by (simp add: SUB_TABLE_def m BITS_PER_LEVEL_def power_mult mult.commute [of lvl])
qed

lemma unat_u16: "unat (a :: u16) < 65536"
proof -
  have "unat a < 2 ^ LENGTH(16)" by (rule unsigned_less)
  then show ?thesis by simp
qed

lemma SUB_TABLE_less [simp]: "SUB_TABLE a lvl < 16"
  by (simp add: SUB_TABLE_digit)

declare get_value.simps [simp del] remove_value.simps [simp del] get_first_value.simps [simp del]

section \<open>Well-formed trees\<close>

text \<open>The addresses of the tables below a table, and the value the tree holds for a number.\<close>

fun tables :: "rtr_mem \<Rightarrow> nat \<Rightarrow> addr \<Rightarrow> addr set" where
  "tables H 0 p = {p}"
| "tables H (Suc l) p =
     insert p (case H p of None \<Rightarrow> {} | Some t \<Rightarrow> \<Union>i\<in>{i. i < 16 \<and> slots t ! i \<noteq> 0}. tables H l (slots t ! i))"

fun entry :: "rtr_mem \<Rightarrow> nat \<Rightarrow> addr \<Rightarrow> nat \<Rightarrow> addr" where
  "entry H 0 p k = (case H p of None \<Rightarrow> 0 | Some t \<Rightarrow> slots t ! (k mod 16))"
| "entry H (Suc l) p k =
     (case H p of None \<Rightarrow> 0
      | Some t \<Rightarrow> let q = slots t ! (k div 16 ^ Suc l mod 16) in if q = 0 then 0 else entry H l q k)"

text \<open>
  A tree of tables: every table is allocated, has 16 slots and knows its parent, and the tables
  behind different slots are different.
\<close>

fun tree :: "rtr_mem \<Rightarrow> nat \<Rightarrow> addr \<Rightarrow> addr \<Rightarrow> bool" where
  "tree H 0 p par \<longleftrightarrow> p \<noteq> 0 \<and> (\<exists>t. H p = Some t \<and> parent_tbl t = par \<and> length (slots t) = 16)"
| "tree H (Suc l) p par \<longleftrightarrow> p \<noteq> 0 \<and>
     (\<exists>t. H p = Some t \<and> parent_tbl t = par \<and> length (slots t) = 16 \<and>
        (\<forall>i < 16. slots t ! i \<noteq> 0 \<longrightarrow> tree H l (slots t ! i) p \<and> p \<notin> tables H l (slots t ! i)) \<and>
        (\<forall>i < 16. \<forall>j < 16. i \<noteq> j \<longrightarrow> slots t ! i \<noteq> 0 \<longrightarrow> slots t ! j \<noteq> 0 \<longrightarrow>
           tables H l (slots t ! i) \<inter> tables H l (slots t ! j) = {}))"

text \<open>Every table below another one holds something.\<close>

fun full :: "rtr_mem \<Rightarrow> nat \<Rightarrow> addr \<Rightarrow> bool" where
  "full H 0 p \<longleftrightarrow> True"
| "full H (Suc l) p \<longleftrightarrow> (\<forall>t. H p = Some t \<longrightarrow>
     (\<forall>i < 16. slots t ! i \<noteq> 0 \<longrightarrow> full H l (slots t ! i) \<and> (\<exists>k. entry H l (slots t ! i) k \<noteq> 0)))"

lemma self_in_tables [simp]: "p \<in> tables H l p"
  by (cases l) simp_all

lemma tree_some: "tree H l p par \<Longrightarrow> \<exists>t. H p = Some t \<and> length (slots t) = 16 \<and> parent_tbl t = par \<and> p \<noteq> 0"
  by (cases l) auto

lemma tree_SucE:
  assumes "tree H (Suc l) p par"
  obtains t where "H p = Some t" "parent_tbl t = par" "length (slots t) = 16" "p \<noteq> 0"
    and "\<And>i. i < 16 \<Longrightarrow> slots t ! i \<noteq> 0 \<Longrightarrow> tree H l (slots t ! i) p \<and> p \<notin> tables H l (slots t ! i)"
    and "\<And>i j. i < 16 \<Longrightarrow> j < 16 \<Longrightarrow> i \<noteq> j \<Longrightarrow> slots t ! i \<noteq> 0 \<Longrightarrow> slots t ! j \<noteq> 0 \<Longrightarrow>
      tables H l (slots t ! i) \<inter> tables H l (slots t ! j) = {}"
  using assms by auto

lemma child_tables:
  "H p = Some t \<Longrightarrow> i < 16 \<Longrightarrow> slots t ! i \<noteq> 0 \<Longrightarrow> tables H l (slots t ! i) \<subseteq> tables H (Suc l) p"
  by auto

lemma tables_dom: "tree H l p par \<Longrightarrow> tables H l p \<subseteq> dom H"
proof (induction l arbitrary: p par)
  case (Suc l)
  then obtain t where t: "H p = Some t" "\<forall>i < 16. slots t ! i \<noteq> 0 \<longrightarrow> tree H l (slots t ! i) p" by auto
  then show ?case using Suc.IH by fastforce
qed auto

text \<open>A tree depends on its own tables only.\<close>

lemma tables_frame: "(\<forall>x \<in> tables H l p. H' x = H x) \<Longrightarrow> tables H' l p = tables H l p"
proof (induction l arbitrary: p)
  case (Suc l)
  have "tables H' l (slots t ! i) = tables H l (slots t ! i)" if "H p = Some t" "i < 16" "slots t ! i \<noteq> 0" for t i
    using Suc.prems that by (intro Suc.IH) auto
  then show ?case using Suc.prems by (auto split: option.split)
qed simp

lemma entry_frame: "(\<forall>x \<in> tables H l p. H' x = H x) \<Longrightarrow> entry H' l p k = entry H l p k"
proof (induction l arbitrary: p)
  case (Suc l)
  have "entry H' l (slots t ! i) k = entry H l (slots t ! i) k" if "H p = Some t" "i < 16" "slots t ! i \<noteq> 0" for t i
    using Suc.prems that by (intro Suc.IH) auto
  then show ?case using Suc.prems by (auto simp: Let_def split: option.split)
qed simp

lemma tree_frame: "(\<forall>x \<in> tables H l p. H' x = H x) \<Longrightarrow> tree H' l p par = tree H l p par"
proof (induction l arbitrary: p par)
  case (Suc l)
  have sub: "\<forall>x \<in> tables H l (slots t ! i). H' x = H x" if "H p = Some t" "i < 16" "slots t ! i \<noteq> 0" for t i
    using Suc.prems that by auto
  have eq: "H' p = H p" using Suc.prems by simp
  show ?case
  proof (cases "H p")
    case None
    then show ?thesis using eq by simp
  next
    case (Some t)
    have "tree H' l (slots t ! i) p = tree H l (slots t ! i) p" "tables H' l (slots t ! i) = tables H l (slots t ! i)"
      if "i < 16" "slots t ! i \<noteq> 0" for i
      using Suc.IH [OF sub [OF Some that]] tables_frame [OF sub [OF Some that]] by auto
    then show ?thesis using Some eq by (simp cong: imp_cong conj_cong)
  qed
qed simp

lemma full_frame: "(\<forall>x \<in> tables H l p. H' x = H x) \<Longrightarrow> full H' l p = full H l p"
proof (induction l arbitrary: p)
  case (Suc l)
  have sub: "\<forall>x \<in> tables H l (slots t ! i). H' x = H x" if "H p = Some t" "i < 16" "slots t ! i \<noteq> 0" for t i
    using Suc.prems that by auto
  have eq: "H' p = H p" using Suc.prems by simp
  have "full H' l (slots t ! i) = full H l (slots t ! i)" "entry H' l (slots t ! i) k = entry H l (slots t ! i) k"
    if "H p = Some t" "i < 16" "slots t ! i \<noteq> 0" for t i k
    using Suc.IH [OF sub [OF that]] entry_frame [OF sub [OF that]] by auto
  then show ?case using eq by (simp cong: imp_cong conj_cong)
qed simp

section \<open>Looking up\<close>

lemma get_value_entry:
  assumes "tree H l p par"
  shows "\<exists>r. get_value H p l a = Some r \<and>
    (case r of None \<Rightarrow> entry H l p (unat a) = 0
     | Some (q, i) \<Rightarrow> \<exists>t. H q = Some t \<and> slots t ! i = entry H l p (unat a) \<and> slots t ! i \<noteq> 0)"
  using assms
proof (induction l arbitrary: p par)
  case 0
  then show ?case by (auto simp: get_value.simps SUB_TABLE_digit Let_def)
next
  case (Suc l)
  then obtain t where t: "H p = Some t" and ch: "\<And>i. i < 16 \<Longrightarrow> slots t ! i \<noteq> 0 \<Longrightarrow> tree H l (slots t ! i) p" by auto
  let ?i = "SUB_TABLE a (Suc l)"
  show ?case
  proof (cases "slots t ! ?i = 0")
    case True
    then show ?thesis using t by (auto simp: get_value.simps [of H p] SUB_TABLE_digit)
  next
    case False
    then have e: "entry H (Suc l) p (unat a) = entry H l (slots t ! ?i) (unat a)"
      and g: "get_value H p (Suc l) a = get_value H (slots t ! ?i) l a"
      using t by (simp_all add: get_value.simps [of H p] SUB_TABLE_digit)
    show ?thesis unfolding e g by (rule Suc.IH [OF ch [OF _ False]]) simp
  qed
qed

lemma rtr_get_value_entry:
  assumes "tree H (LEVELS - 1) p par"
  shows "rtr_get_value H p a = Some (entry H (LEVELS - 1) p (unat a))"
  using get_value_entry [OF assms, of a] by (auto simp: rtr_get_value_def split: option.splits)

section \<open>Adding\<close>

text \<open>Allocation gives an address that is not in use, and not the null pointer.\<close>

definition zalloc_ok :: "(rtr_mem \<Rightarrow> addr) \<Rightarrow> bool" where
  "zalloc_ok z \<longleftrightarrow> (\<forall>H. finite (dom H) \<longrightarrow> z H \<noteq> 0 \<and> z H \<notin> dom H)"

lemma digits_split:
  fixes k k' :: nat
  shows "k mod 16 ^ Suc (Suc l) = k' mod 16 ^ Suc (Suc l) \<longleftrightarrow>
    k div 16 ^ Suc l mod 16 = k' div 16 ^ Suc l mod 16 \<and> k mod 16 ^ Suc l = k' mod 16 ^ Suc l"
proof -
  have "k mod (b * 16) = k' mod (b * 16) \<longleftrightarrow> k div b mod 16 = k' div b mod 16 \<and> k mod b = k' mod b"
    if "0 < b" for b :: nat
  proof
    assume e: "k mod (b * 16) = k' mod (b * 16)"
    have "x div b mod 16 = x mod (b * 16) div b" "x mod b = x mod (b * 16) mod b" for x :: nat
      using that by (simp_all add: mod_mult2_eq mod_mod_cancel)
    then show "k div b mod 16 = k' div b mod 16 \<and> k mod b = k' mod b" using e by metis
  qed (simp add: mod_mult2_eq)
  from this [of "16 ^ Suc l"] show ?thesis by (simp add: mult.commute)
qed

lemma entry_digits: "k mod 16 ^ Suc l = k' mod 16 ^ Suc l \<Longrightarrow> entry H l p k = entry H l p k'"
proof (induction l arbitrary: p)
  case 0
  then show ?case by (simp split: option.split)
next
  case (Suc l)
  note d = Suc.prems [unfolded digits_split]
  from d have "entry H l q k = entry H l q k'" for q by (blast intro: Suc.IH)
  then show ?case using d by (simp add: Let_def split: option.split)
qed

lemma empty_table:
  assumes "H p = Some \<lparr>parent_tbl = par, slots = replicate 16 0\<rparr>"
  shows "entry H l p k = 0" "tables H l p = {p}" "p \<noteq> 0 \<Longrightarrow> tree H l p par" "full H l p"
  using assms by (cases l; simp)+

text \<open>
  Changing what is behind one slot, the other slots' trees staying as they are: the tree, its
  tables and its entries afterwards.
\<close>

lemma tree_change_child:
  assumes t: "tree H (Suc l) p par" "H p = Some t" and i: "i < 16"
    and p: "H' p = Some (t\<lparr>slots := (slots t)[i := q]\<rparr>)"
    and q: "q \<noteq> 0 \<longrightarrow> tree H' l q p \<and> p \<notin> tables H' l q"
    and out: "\<forall>j < 16. j \<noteq> i \<longrightarrow> slots t ! j \<noteq> 0 \<longrightarrow>
       (\<forall>x \<in> tables H l (slots t ! j). H' x = H x) \<and> (q \<noteq> 0 \<longrightarrow> tables H' l q \<inter> tables H l (slots t ! j) = {})"
  shows "tree H' (Suc l) p par"
    and "tables H' (Suc l) p \<subseteq> tables H (Suc l) p \<union> (if q = 0 then {} else tables H' l q)"
    and "entry H' (Suc l) p k =
      (if k div 16 ^ Suc l mod 16 = i then if q = 0 then 0 else entry H' l q k else entry H (Suc l) p k)"
    and "full H (Suc l) p \<Longrightarrow> (q \<noteq> 0 \<longrightarrow> full H' l q \<and> (\<exists>k. entry H' l q k \<noteq> 0)) \<Longrightarrow> full H' (Suc l) p"
proof -
  let ?s = "(slots t)[i := q]"
  have len: "length (slots t) = 16" and p0: "p \<noteq> 0" "parent_tbl t = par"
    and ch: "\<And>j. j < 16 \<Longrightarrow> slots t ! j \<noteq> 0 \<Longrightarrow> tree H l (slots t ! j) p \<and> p \<notin> tables H l (slots t ! j)"
    and dj: "\<And>j j'. j < 16 \<Longrightarrow> j' < 16 \<Longrightarrow> j \<noteq> j' \<Longrightarrow> slots t ! j \<noteq> 0 \<Longrightarrow> slots t ! j' \<noteq> 0 \<Longrightarrow>
      tables H l (slots t ! j) \<inter> tables H l (slots t ! j') = {}"
    using t by auto
  have s: "?s ! j = (if j = i then q else slots t ! j)" if "j < 16" for j using that len i by auto
  have fr: "tree H' l (slots t ! j) p \<and> tables H' l (slots t ! j) = tables H l (slots t ! j) \<and>
      (\<forall>k. entry H' l (slots t ! j) k = entry H l (slots t ! j) k) \<and> full H' l (slots t ! j) = full H l (slots t ! j)"
    if "j < 16" "j \<noteq> i" "slots t ! j \<noteq> 0" for j
  proof -
    have f: "\<forall>x \<in> tables H l (slots t ! j). H' x = H x" using out that by blast
    show ?thesis using tree_frame [OF f] tables_frame [OF f] entry_frame [OF f] full_frame [OF f] ch that by auto
  qed
  show "full H' (Suc l) p" if "full H (Suc l) p" "q \<noteq> 0 \<longrightarrow> full H' l q \<and> (\<exists>k. entry H' l q k \<noteq> 0)"
    using that p t(2) fr by (auto simp: s)
  show "tree H' (Suc l) p par"
    using p0 p len q fr ch dj out by (auto simp: s)
  show "tables H' (Suc l) p \<subseteq> tables H (Suc l) p \<union> (if q = 0 then {} else tables H' l q)"
    using p t(2) fr len i by (auto simp: nth_list_update split: if_splits)
  show "entry H' (Suc l) p k =
      (if k div 16 ^ Suc l mod 16 = i then if q = 0 then 0 else entry H' l q k else entry H (Suc l) p k)"
    using p t(2) fr [of "k div 16 ^ Suc l mod 16"] s [of "k div 16 ^ Suc l mod 16"]
    by (auto simp: Let_def simp del: power_Suc)
qed

lemma add_value_ok:
  assumes "zalloc_ok z" "finite (dom H)" "tree H l p par"
  shows "\<exists>H'. add_value z p a l d H = Some H' \<and> finite (dom H') \<and> tree H' l p par \<and>
    (\<forall>x \<in> dom H - tables H l p. H' x = H x) \<and> tables H' l p \<subseteq> tables H l p \<union> - dom H \<and>
    (\<forall>k. entry H' l p k = (if k mod 16 ^ Suc l = unat a mod 16 ^ Suc l then d else entry H l p k)) \<and>
    (d \<noteq> 0 \<longrightarrow> full H l p \<longrightarrow> full H' l p)"
  using assms(2,3)
proof (induction l arbitrary: H p par)
  case 0
  then obtain t where "H p = Some t" "parent_tbl t = par" "length (slots t) = 16" by auto
  then show ?case using 0 by (auto simp: set_slot_def SUB_TABLE_digit)
next
  case (Suc l)
  obtain t where t: "H p = Some t"
    and ch: "\<And>i. i < 16 \<Longrightarrow> slots t ! i \<noteq> 0 \<Longrightarrow> tree H l (slots t ! i) p \<and> p \<notin> tables H l (slots t ! i)"
    and dj: "\<And>i j. i < 16 \<Longrightarrow> j < 16 \<Longrightarrow> i \<noteq> j \<Longrightarrow> slots t ! i \<noteq> 0 \<Longrightarrow> slots t ! j \<noteq> 0 \<Longrightarrow>
      tables H l (slots t ! i) \<inter> tables H l (slots t ! j) = {}"
    using Suc.prems(2) by auto
  let ?i = "SUB_TABLE a (Suc l)"
  have dom: "tables H l (slots t ! j) \<subseteq> dom H - {p}" if "j < 16" "slots t ! j \<noteq> 0" for j
    using tables_dom [of H l "slots t ! j" p] ch that by auto
  have sub: "tables H l (slots t ! j) \<subseteq> tables H (Suc l) p" if "j < 16" "slots t ! j \<noteq> 0" for j
    using child_tables [of H p t j l] t that by simp
  have fin: ?case if step: "add_value z p a (Suc l) d H = Some H'" "finite (dom H')"
      "H' p = Some (t\<lparr>slots := (slots t)[?i := q]\<rparr>)" "q \<noteq> 0" "tree H' l q p" "p \<notin> tables H' l q"
    and out: "\<And>x. x \<in> dom H \<Longrightarrow> x \<notin> tables H (Suc l) p \<Longrightarrow> H' x = H x"
      "\<And>j x. j < 16 \<Longrightarrow> j \<noteq> ?i \<Longrightarrow> slots t ! j \<noteq> 0 \<Longrightarrow> x \<in> tables H l (slots t ! j) \<Longrightarrow> H' x = H x \<and> x \<notin> tables H' l q"
      "tables H' l q \<subseteq> tables H (Suc l) p \<union> - dom H"
    and e: "\<And>k. k div 16 ^ Suc l mod 16 = ?i \<Longrightarrow>
      entry H' l q k = (if k mod 16 ^ Suc l = unat a mod 16 ^ Suc l then d else entry H (Suc l) p k)"
    and f: "d \<noteq> 0 \<Longrightarrow> full H (Suc l) p \<Longrightarrow> full H' l q" for H' q
  proof -
    have o: "\<forall>j < 16. j \<noteq> ?i \<longrightarrow> slots t ! j \<noteq> 0 \<longrightarrow>
       (\<forall>x \<in> tables H l (slots t ! j). H' x = H x) \<and> (q \<noteq> 0 \<longrightarrow> tables H' l q \<inter> tables H l (slots t ! j) = {})"
      using out(2) by blast
    note c = tree_change_child [OF Suc.prems(2) t SUB_TABLE_less step(3) impI [OF conjI [OF step(5,6)]] o]
    have "entry H' (Suc l) p k =
        (if k mod 16 ^ Suc (Suc l) = unat a mod 16 ^ Suc (Suc l) then d else entry H (Suc l) p k)" for k
    proof (cases "k div 16 ^ Suc l mod 16 = unat a div 16 ^ Suc l mod 16")
      case True
      then have "entry H' (Suc l) p k = entry H' l q k" using c(3) [of k] step(4) by (simp add: SUB_TABLE_digit del: power_Suc entry.simps)
      then show ?thesis using True e [of k] unfolding digits_split by (simp add: SUB_TABLE_digit del: power_Suc entry.simps)
    next
      case False
      then show ?thesis using c(3) [of k] unfolding digits_split by (simp add: SUB_TABLE_digit del: power_Suc entry.simps)
    qed
    moreover have "tables H' (Suc l) p \<subseteq> tables H (Suc l) p \<union> - dom H"
      using c(2) step(4) out(3) by (auto simp del: tables.simps)
    moreover have "full H' (Suc l) p" if "d \<noteq> 0" "full H (Suc l) p"
      using c(4) [OF that(2)] f [OF that] e [of "unat a"] that(1) by (auto simp: SUB_TABLE_digit simp del: full.simps power_Suc)
    ultimately show ?thesis using step(1,2) c(1) out(1) by blast
  qed
  show ?case
  proof (cases "slots t ! ?i = 0")
    case False
    let ?q = "slots t ! ?i"
    have q: "tree H l ?q p" "p \<notin> tables H l ?q" using ch [OF SUB_TABLE_less False] by auto
    from Suc.IH [OF Suc.prems(1) q(1)] obtain H' where H': "add_value z ?q a l d H = Some H'" "finite (dom H')"
      "tree H' l ?q p" "\<And>x. x \<in> dom H \<Longrightarrow> x \<notin> tables H l ?q \<Longrightarrow> H' x = H x"
      "tables H' l ?q \<subseteq> tables H l ?q \<union> - dom H"
      "\<And>k. entry H' l ?q k = (if k mod 16 ^ Suc l = unat a mod 16 ^ Suc l then d else entry H l ?q k)"
      "d \<noteq> 0 \<Longrightarrow> full H l ?q \<Longrightarrow> full H' l ?q"
      by blast
    have e: "entry H (Suc l) p k = entry H l ?q k" if "k div 16 ^ Suc l mod 16 = ?i" for k
      using that t False by simp
    show ?thesis
    proof (rule fin [of H' ?q])
      show "H' p = Some (t\<lparr>slots := (slots t)[?i := ?q]\<rparr>)" using H'(4) [of p] t q(2) by auto
      show "p \<notin> tables H' l ?q" using H'(5) q(2) t by auto
      show "H' x = H x \<and> x \<notin> tables H' l ?q"
        if "j < 16" "j \<noteq> ?i" "slots t ! j \<noteq> 0" "x \<in> tables H l (slots t ! j)" for j x
        using H'(4) [of x] H'(5) dj [OF that(1) SUB_TABLE_less that(2,3) False] dom [OF that(1,3)] that(4) by blast
      show "H' x = H x" if "x \<in> dom H" "x \<notin> tables H (Suc l) p" for x
        using H'(4) that sub [OF SUB_TABLE_less False] by blast
      show "tables H' l ?q \<subseteq> tables H (Suc l) p \<union> - dom H" using H'(5) sub [OF SUB_TABLE_less False] by blast
      show "entry H' l ?q k = (if k mod 16 ^ Suc l = unat a mod 16 ^ Suc l then d else entry H (Suc l) p k)"
        if "k div 16 ^ Suc l mod 16 = ?i" for k
        using H'(6) [of k] e [OF that] by (simp del: power_Suc entry.simps)
      show "full H' l ?q" if "d \<noteq> 0" "full H (Suc l) p"
        using H'(7) that t False by simp
    qed (use H' t False in simp_all)
  next
    case True
    let ?c = "z H" and ?H1 = "H(z H \<mapsto> \<lparr>parent_tbl = p, slots = replicate 16 0\<rparr>)"
    let ?H2 = "?H1(p \<mapsto> t\<lparr>slots := (slots t)[?i := z H]\<rparr>)"
    have c: "?c \<noteq> 0" "?c \<notin> dom H" "?c \<noteq> p" using assms(1) Suc.prems(1) t by (auto simp: zalloc_ok_def)
    have e2: "?H2 ?c = Some \<lparr>parent_tbl = p, slots = replicate 16 0\<rparr>" using c(3) by simp
    have "finite (dom ?H2)" using Suc.prems(1) by simp
    from Suc.IH [OF this empty_table(3) [of ?H2 ?c p, OF e2 c(1)]] obtain H' where H': "add_value z ?c a l d ?H2 = Some H'"
      "finite (dom H')" "tree H' l ?c p" "\<And>x. x \<in> dom ?H2 \<Longrightarrow> x \<noteq> ?c \<Longrightarrow> H' x = ?H2 x"
      "tables H' l ?c \<subseteq> {?c} \<union> - dom ?H2" "\<And>k. entry H' l ?c k = (if k mod 16 ^ Suc l = unat a mod 16 ^ Suc l then d else 0)"
      "d \<noteq> 0 \<Longrightarrow> full ?H2 l ?c \<Longrightarrow> full H' l ?c"
      unfolding empty_table(1,2) [of ?H2 ?c p, OF e2] by blast
    have add: "add_value z p a (Suc l) d H = Some H'"
      using t True c H'(1) by (simp add: rtr_alloc_child_def set_slot_def TABLE_ENTRIES_def Let_def)
    have old: "H' x = H x \<and> x \<notin> tables H' l ?c" if "x \<in> dom H" "x \<noteq> p" for x
      using H'(4) [of x] H'(5) that c(2) by (cases "x = ?c") auto
    show ?thesis
    proof (rule fin [of H' ?c])
      show "H' p = Some (t\<lparr>slots := (slots t)[?i := ?c]\<rparr>)" using H'(4) [of p] c(3) by auto
      show "p \<notin> tables H' l ?c" using H'(5) c(3) by auto
      show "H' x = H x \<and> x \<notin> tables H' l ?c" if "j < 16" "j \<noteq> ?i" "slots t ! j \<noteq> 0" "x \<in> tables H l (slots t ! j)" for j x
        using old dom [OF that(1,3)] that(4) by blast
      show "H' x = H x" if "x \<in> dom H" "x \<notin> tables H (Suc l) p" for x
        using old [OF that(1)] that(2) by auto
      show "tables H' l ?c \<subseteq> tables H (Suc l) p \<union> - dom H" using H'(5) c(2) by auto
      show "entry H' l ?c k = (if k mod 16 ^ Suc l = unat a mod 16 ^ Suc l then d else entry H (Suc l) p k)"
        if "k div 16 ^ Suc l mod 16 = ?i" for k
        using H'(6) [of k] t True that by (simp del: power_Suc)
      show "full H' l ?c" if "d \<noteq> 0" using H'(7) [OF that] empty_table(4) [of ?H2 ?c p, OF e2] by simp
    qed (use add c H' in simp_all)
  qed
qed

section \<open>Removing\<close>

lemma remove_value_frame:
  assumes "tree H l p par"
  shows "\<exists>H'. remove_value p a l H = Some H' \<and> (\<forall>x. x \<notin> tables H l p \<longrightarrow> H' x = H x) \<and> dom H' \<subseteq> dom H"
  using assms
proof (induction l arbitrary: p par)
  case 0
  then show ?case
    by (auto simp: remove_value.simps set_slot_def rtr_free_table_def Let_def)
next
  case (Suc l)
  then obtain t where t: "H p = Some t"
    and ch: "\<And>i. i < 16 \<Longrightarrow> slots t ! i \<noteq> 0 \<Longrightarrow> tree H l (slots t ! i) p \<and> p \<notin> tables H l (slots t ! i)" by auto
  let ?i = "SUB_TABLE a (Suc l)"
  show ?case
  proof (cases "slots t ! ?i = 0")
    case True
    then show ?thesis using t by (simp add: remove_value.simps [of p])
  next
    case False
    let ?q = "slots t ! ?i"
    note q = ch [OF SUB_TABLE_less False]
    obtain H' where H': "remove_value ?q a l H = Some H'" "\<And>x. x \<notin> tables H l ?q \<Longrightarrow> H' x = H x" "dom H' \<subseteq> dom H"
      using Suc.IH q by blast
    have "H' p = Some t" using H'(2) q t by simp
    moreover have "tables H l ?q \<subseteq> tables H (Suc l) p" using child_tables [of H p t ?i l] t False by simp
    ultimately show ?thesis
      using t False H' by (auto simp: remove_value.simps [of p] set_slot_def rtr_free_table_def Let_def simp del: tables.simps)
  qed
qed

text \<open>Removing at the root: one slot is cleared, with everything behind it.\<close>

lemma rtr_remove_root:
  assumes "tree H (LEVELS - 1) p par"
  shows "\<exists>H'. rtr_remove_value p a H = Some H' \<and> tree H' (LEVELS - 1) p par \<and>
    (\<forall>k. entry H' (LEVELS - 1) p k = (if k div 4096 mod 16 = unat a div 4096 then 0 else entry H (LEVELS - 1) p k)) \<and>
    (full H (LEVELS - 1) p \<longrightarrow> full H' (LEVELS - 1) p) \<and> (finite (dom H) \<longrightarrow> finite (dom H'))"
proof -
  have l: "LEVELS - 1 = Suc 2" by (simp add: rtr_consts)
  obtain t where t: "H p = Some t"
    and ch: "\<And>i. i < 16 \<Longrightarrow> slots t ! i \<noteq> 0 \<Longrightarrow> tree H 2 (slots t ! i) p \<and> p \<notin> tables H 2 (slots t ! i)"
    and dj: "\<And>i j. i < 16 \<Longrightarrow> j < 16 \<Longrightarrow> i \<noteq> j \<Longrightarrow> slots t ! i \<noteq> 0 \<Longrightarrow> slots t ! j \<noteq> 0 \<Longrightarrow>
      tables H 2 (slots t ! i) \<inter> tables H 2 (slots t ! j) = {}"
    using assms unfolding l by (rule tree_SucE) blast
  let ?i = "SUB_TABLE a (Suc 2)"
  have i: "?i = unat a div 4096" using unat_u16 [of a] by (simp add: SUB_TABLE_digit)
  show ?thesis
  proof (cases "slots t ! ?i = 0")
    case True
    then have "rtr_remove_value p a H = Some H" using t unfolding rtr_remove_value_def l by (simp add: remove_value.simps)
    moreover have "entry H (Suc 2) p k = 0" if "k div 4096 mod 16 = unat a div 4096" for k
      using that t True i unfolding entry.simps by simp
    ultimately show ?thesis using assms unfolding l by auto
  next
    case False
    let ?q = "slots t ! ?i"
    note q = ch [OF SUB_TABLE_less False]
    obtain H1 where H1: "remove_value ?q a 2 H = Some H1" "\<And>x. x \<notin> tables H 2 ?q \<Longrightarrow> H1 x = H x" "dom H1 \<subseteq> dom H"
      using remove_value_frame q by blast
    define H' where "H' = H1(p \<mapsto> t\<lparr>slots := (slots t)[?i := 0]\<rparr>)"
    have "H1 p = Some t" using H1(2) q t by simp
    then have r: "rtr_remove_value p a H = Some H'"
      using t False H1(1) unfolding rtr_remove_value_def l H'_def
      by (simp add: remove_value.simps [of p] set_slot_def Let_def LEVELS_def TOTAL_BITS_def BITS_PER_LEVEL_def)
    have o: "\<forall>j < 16. j \<noteq> ?i \<longrightarrow> slots t ! j \<noteq> 0 \<longrightarrow>
        (\<forall>x \<in> tables H 2 (slots t ! j). H' x = H x) \<and> (0 \<noteq> (0 :: addr) \<longrightarrow> tables H' 2 0 \<inter> tables H 2 (slots t ! j) = {})"
      using H1(2) ch dj [OF _ SUB_TABLE_less _ _ False] unfolding H'_def by (metis disjoint_iff fun_upd_other)
    have h: "H' p = Some (t\<lparr>slots := (slots t)[?i := 0]\<rparr>)" by (simp add: H'_def)
    note c = tree_change_child [OF assms [unfolded l] t SUB_TABLE_less h _ o]
    have "finite (dom H')" if "finite (dom H)" using H1(3) that by (simp add: H'_def finite_subset)
    moreover have "entry H' (Suc 2) p k = (if k div 4096 mod 16 = unat a div 4096 then 0 else entry H (Suc 2) p k)" for k
      using c(3) [of k] i by (simp del: entry.simps)
    ultimately show ?thesis
      using r c(1,4) unfolding l by simp
  qed
qed

section \<open>Walking through the table\<close>

lemma first_tbl_entry:
  "rtr_get_first_tbl_entry t s = 0 \<longleftrightarrow> (\<forall>i. s \<le> i \<longrightarrow> i < 16 \<longrightarrow> slots t ! i = 0)"
  "rtr_get_first_tbl_entry t s \<noteq> 0 \<Longrightarrow> \<exists>i. s \<le> i \<and> i < 16 \<and> slots t ! i = rtr_get_first_tbl_entry t s \<and>
     (\<forall>j. s \<le> j \<longrightarrow> j < i \<longrightarrow> slots t ! j = 0)"
proof -
  let ?f = "filter (\<lambda>i. slots t ! i \<noteq> 0) [s..<TABLE_ENTRIES]"
  show "rtr_get_first_tbl_entry t s = 0 \<longleftrightarrow> (\<forall>i. s \<le> i \<longrightarrow> i < 16 \<longrightarrow> slots t ! i = 0)"
  proof (cases ?f)
    case Nil
    then show ?thesis by (auto simp: rtr_get_first_tbl_entry_def filter_empty_conv TABLE_ENTRIES_def)
  next
    case (Cons i js)
    then have "i \<in> set ?f" by simp
    then show ?thesis using Cons by (auto simp: rtr_get_first_tbl_entry_def TABLE_ENTRIES_def)
  qed
  assume nz: "rtr_get_first_tbl_entry t s \<noteq> 0"
  then obtain i js where c: "?f = i # js" by (cases ?f) (auto simp: rtr_get_first_tbl_entry_def)
  then obtain us vs where u: "[s..<TABLE_ENTRIES] = us @ i # vs" "\<forall>u \<in> set us. slots t ! u = 0" "slots t ! i \<noteq> 0"
    by (auto simp: filter_eq_Cons_iff)
  have i: "i \<in> set [s..<TABLE_ENTRIES]" "sorted [s..<TABLE_ENTRIES]" by (simp only: u(1), simp) simp
  have "j \<in> set us" if "s \<le> j" "j < i" for j
  proof -
    from i have "j \<in> set (us @ i # vs)" "sorted (us @ i # vs)" using that unfolding u(1) [symmetric] by simp_all
    then show ?thesis using that by (auto simp: sorted_append)
  qed
  then show "\<exists>i. s \<le> i \<and> i < 16 \<and> slots t ! i = rtr_get_first_tbl_entry t s \<and> (\<forall>j. s \<le> j \<longrightarrow> j < i \<longrightarrow> slots t ! j = 0)"
    using c u(2,3) i(1) by (intro exI [of _ i]) (auto simp: rtr_get_first_tbl_entry_def TABLE_ENTRIES_def)
qed

lemma find_ndx_unique:
  assumes "i < 16" "slots t ! i = p" "\<And>j. j < 16 \<Longrightarrow> slots t ! j = p \<Longrightarrow> j = i"
  shows "rtr_find_ndx t p = Some i"
proof -
  have m: "i \<in> set (filter (\<lambda>j. slots t ! j = p) [0..<TABLE_ENTRIES])" using assms(1,2) by (simp add: TABLE_ENTRIES_def)
  then obtain j js where j: "filter (\<lambda>j. slots t ! j = p) [0..<TABLE_ENTRIES] = j # js"
    by (cases "filter (\<lambda>j. slots t ! j = p) [0..<TABLE_ENTRIES]") auto
  then have "j \<in> set (filter (\<lambda>j. slots t ! j = p) [0..<TABLE_ENTRIES])" by simp
  then show ?thesis using j assms(3) by (simp add: rtr_find_ndx_def TABLE_ENTRIES_def)
qed

text \<open>Entries of a table by slot and rest.\<close>

lemma entry_slot:
  assumes "H p = Some t" "i < 16" "k < 16 ^ Suc l"
  shows "entry H (Suc l) p (i * 16 ^ Suc l + k) = (if slots t ! i = 0 then 0 else entry H l (slots t ! i) k)"
proof -
  have "(i * 16 ^ Suc l + k) div 16 ^ Suc l = i" using assms(3) by simp
  moreover have "entry H l q (i * 16 ^ Suc l + k) = entry H l q k" for q by (rule entry_digits) simp
  ultimately show ?thesis using assms(1,2) unfolding entry.simps by (simp del: power_Suc)
qed

text \<open>
  The first entry from a position on, as a specification: \<open>f\<close> is the content of the table, \<open>n\<close> the
  number of positions.
\<close>

definition first_from :: "(nat \<Rightarrow> addr) \<Rightarrow> nat \<Rightarrow> nat \<Rightarrow> addr \<Rightarrow> bool" where
  "first_from f n b r \<longleftrightarrow>
     (if r = 0 then \<forall>k. b \<le> k \<longrightarrow> k < n \<longrightarrow> f k = 0
      else \<exists>k. b \<le> k \<and> k < n \<and> f k = r \<and> (\<forall>j. b \<le> j \<longrightarrow> j < k \<longrightarrow> f j = 0))"

lemma entry_nonzero_less:
  assumes "entry H l p k \<noteq> 0"
  shows "\<exists>k' < 16 ^ Suc l. entry H l p k' \<noteq> 0"
proof -
  have "entry H l p k = entry H l p (k mod 16 ^ Suc l)" by (rule entry_digits) simp
  then show ?thesis using assms by (intro exI [of _ "k mod 16 ^ Suc l"]) simp
qed

lemma entry_nonzero_slot: "entry H l p k \<noteq> 0 \<Longrightarrow> H p = Some t \<Longrightarrow> slots t ! (k div 16 ^ l mod 16) \<noteq> 0"
  by (cases l) (auto simp: Let_def split: if_splits)

lemma table_rest_empty:
  assumes "H p = Some t" "rtr_get_first_tbl_entry t s = 0" "k < 16 ^ Suc l" "s * 16 ^ l \<le> k"
  shows "entry H l p k = 0"
proof (rule ccontr)
  assume "entry H l p k \<noteq> 0"
  moreover have "s \<le> k div 16 ^ l" using div_le_mono [OF assms(4), of "16 ^ l"] by simp
  moreover have "k div 16 ^ l < 16" using assms(3) by (simp add: less_mult_imp_div_less)
  ultimately show False using entry_nonzero_slot [of H l p k t] assms(1,2) by (simp add: first_tbl_entry(1))
qed

lemma next_down:
  assumes "tree H l p par" "full H l p" "H p = Some t" "rtr_get_first_tbl_entry t s \<noteq> 0"
  shows "\<exists>r. r \<noteq> 0 \<and> get_next_value H p l s = Some r \<and> first_from (entry H l p) (16 ^ Suc l) (s * 16 ^ l) r"
  using assms
proof (induction l arbitrary: p par t s)
  case 0
  then obtain i where i: "s \<le> i" "i < 16" "slots t ! i = rtr_get_first_tbl_entry t s"
    "\<forall>j. s \<le> j \<longrightarrow> j < i \<longrightarrow> slots t ! j = 0" using first_tbl_entry(2) by blast
  have "get_next_value H p 0 s = Some (slots t ! i)"
    using 0 i(3) by (subst get_next_value.simps) auto
  moreover have "first_from (entry H 0 p) (16 ^ Suc 0) (s * 16 ^ 0) (slots t ! i)"
    using 0 i unfolding first_from_def by (auto intro!: exI [of _ i])
  ultimately show ?case using 0(4) i(3) by metis
next
  case (Suc l)
  obtain i where i: "s \<le> i" "i < 16" "slots t ! i = rtr_get_first_tbl_entry t s"
    "\<And>j. s \<le> j \<Longrightarrow> j < i \<Longrightarrow> slots t ! j = 0" using first_tbl_entry(2) [OF Suc.prems(4)] by blast
  let ?q = "slots t ! i"
  have q0: "?q \<noteq> 0" using Suc.prems(4) i(3) by simp
  have q: "tree H l ?q p" "full H l ?q" "\<exists>k. entry H l ?q k \<noteq> 0" using Suc.prems(1-3) i(2) q0 by auto
  obtain tq where tq: "H ?q = Some tq" using tree_some [OF q(1)] by blast
  have "\<exists>j < 16. slots tq ! j \<noteq> 0" using q(3) entry_nonzero_slot [of H l ?q _ tq] tq
    by (meson mod_less_divisor zero_less_numeral)
  then have "rtr_get_first_tbl_entry tq 0 \<noteq> 0" by (auto simp: first_tbl_entry(1))
  from Suc.IH [OF q(1,2) tq this] obtain r k where r: "r \<noteq> 0" "get_next_value H ?q l 0 = Some r"
    "k < 16 ^ Suc l" "entry H l ?q k = r" "\<And>j. j < k \<Longrightarrow> entry H l ?q j = 0"
    unfolding first_from_def by auto
  have "get_next_value H p (Suc l) s = get_next_value H ?q l 0"
    using Suc.prems(3,4) tree_some [OF Suc.prems(1)] i(3) by (subst get_next_value.simps) auto
  moreover have "first_from (entry H (Suc l) p) (16 ^ Suc (Suc l)) (s * 16 ^ Suc l) r"
  proof -
    have z: "entry H (Suc l) p j = 0" if "s * 16 ^ Suc l \<le> j" "j < i * 16 ^ Suc l + k" for j
    proof -
      let ?d = "j div 16 ^ Suc l" and ?m = "j mod 16 ^ Suc l"
      have "j < Suc i * 16 ^ Suc l" using that(2) r(3) by simp
      then have d: "s \<le> ?d" "?d \<le> i"
        using div_le_mono [OF that(1), of "16 ^ Suc l"] less_mult_imp_div_less [of j "Suc i" "16 ^ Suc l"]
        by (simp_all del: power_Suc)
      have m: "?m < 16 ^ Suc l" and j: "?d * 16 ^ Suc l + ?m = j" by (simp del: power_Suc) (rule div_mult_mod_eq)
      have e: "entry H (Suc l) p j = (if slots t ! ?d = 0 then 0 else entry H l (slots t ! ?d) ?m)"
        using entry_slot [of H p t ?d ?m l] Suc.prems(3) d(2) i(2) m unfolding j by simp
      show ?thesis
      proof (cases "?d = i")
        case True
        then have "?m < k" using that(2) j by (metis add_less_cancel_left)
        then show ?thesis using e True r(5) by simp
      qed (use e d i(4) in simp)
    qed
    have "entry H (Suc l) p (i * 16 ^ Suc l + k) = r" using entry_slot [of H p t i k l] Suc.prems(3) i(2) r(3) q0 r(4) by simp
    moreover have "i * 16 ^ Suc l + k < 16 ^ Suc (Suc l)"
    proof -
      have "i * 16 ^ Suc l + k < Suc i * 16 ^ Suc l" using r(3) by simp
      also have "\<dots> \<le> 16 * 16 ^ Suc l" using i(2) by (intro mult_le_mono1) simp
      finally show ?thesis by simp
    qed
    moreover have "s * 16 ^ Suc l \<le> i * 16 ^ Suc l + k" using i(1) by (simp add: trans_le_add1)
    ultimately show ?thesis using z r(1) unfolding first_from_def by auto
  qed
  ultimately show ?case using r(1,2) by metis
qed

text \<open>The tables of a tree with their levels and the digits that lead to them.\<close>

inductive node :: "rtr_mem \<Rightarrow> addr \<Rightarrow> nat \<Rightarrow> addr \<Rightarrow> nat \<Rightarrow> bool" for H root where
  top: "node H root (LEVELS - 1) root 0"
| child: "node H root (Suc l) p pre \<Longrightarrow> H p = Some t \<Longrightarrow> i < 16 \<Longrightarrow> slots t ! i \<noteq> 0 \<Longrightarrow>
    node H root l (slots t ! i) (pre * 16 + i)"

text \<open>The whole table: a tree without a parent, with nothing empty below the root.\<close>

definition rtr_ok :: "rtr_mem \<Rightarrow> addr \<Rightarrow> bool" where
  "rtr_ok H root \<longleftrightarrow> finite (dom H) \<and> tree H (LEVELS - 1) root 0 \<and> full H (LEVELS - 1) root"

abbreviation content :: "rtr_mem \<Rightarrow> addr \<Rightarrow> nat \<Rightarrow> addr" where
  "content H root \<equiv> entry H (LEVELS - 1) root"

lemma node_tree:
  assumes "node H root l q pre" "rtr_ok H root"
  shows "(\<exists>par. tree H l q par) \<and> full H l q \<and> (\<forall>k < 16 ^ Suc l. content H root (pre * 16 ^ Suc l + k) = entry H l q k) \<and>
    Suc pre * 16 ^ Suc l \<le> 65536"
  using assms(1)
proof induction
  case top
  have "(16 :: nat) ^ Suc (LEVELS - 1) = 65536" by (simp add: rtr_consts)
  then show ?case using assms(2) by (auto simp: rtr_ok_def simp del: power_Suc)
next
  case (child l p pre t i)
  then obtain par where p: "tree H (Suc l) p par" "full H (Suc l) p"
    "\<And>k. k < 16 ^ Suc (Suc l) \<Longrightarrow> content H root (pre * 16 ^ Suc (Suc l) + k) = entry H (Suc l) p k"
    "Suc pre * 16 ^ Suc (Suc l) \<le> 65536" by auto
  have "tree H l (slots t ! i) p" "full H l (slots t ! i)" using p(1,2) child.hyps(2-4) by auto
  moreover have "content H root ((pre * 16 + i) * 16 ^ Suc l + k) = entry H l (slots t ! i) k" if k: "k < 16 ^ Suc l" for k
  proof -
    have "i * 16 ^ Suc l + k < Suc i * 16 ^ Suc l" using k by simp
    also have "\<dots> \<le> 16 ^ Suc (Suc l)" using child.hyps(3) by simp
    finally have "content H root (pre * 16 ^ Suc (Suc l) + (i * 16 ^ Suc l + k)) = entry H (Suc l) p (i * 16 ^ Suc l + k)"
      by (rule p(3))
    moreover have "(pre * 16 + i) * 16 ^ Suc l + k = pre * 16 ^ Suc (Suc l) + (i * 16 ^ Suc l + k)"
      by (simp add: algebra_simps)
    ultimately show ?thesis using entry_slot [of H p t i k l] child.hyps(2-4) k by presburger
  qed
  moreover have "Suc (pre * 16 + i) * 16 ^ Suc l \<le> Suc pre * 16 ^ Suc (Suc l)"
    using child.hyps(3) mult_le_mono1 [of "Suc (pre * 16 + i)" "Suc pre * 16" "16 ^ Suc l"] by (simp add: algebra_simps)
  ultimately show ?case using p(4) by (auto intro: order_trans simp del: power_Suc)
qed

lemma content_nonzero:
  "node H root l q pre \<Longrightarrow> rtr_ok H root \<Longrightarrow> first_from (entry H l q) (16 ^ Suc l) b r \<Longrightarrow> r \<noteq> 0 \<Longrightarrow>
   first_from (content H root) 65536 (pre * 16 ^ Suc l + b) r"
proof -
  assume n: "node H root l q pre" "rtr_ok H root" and f: "first_from (entry H l q) (16 ^ Suc l) b r" "r \<noteq> 0"
  obtain k where k: "b \<le> k" "k < 16 ^ Suc l" "entry H l q k = r" "\<And>j. b \<le> j \<Longrightarrow> j < k \<Longrightarrow> entry H l q j = 0"
    using f unfolding first_from_def by auto
  note t = node_tree [OF n]
  have "content H root j = 0" if "pre * 16 ^ Suc l + b \<le> j" "j < pre * 16 ^ Suc l + k" for j
  proof -
    have "j - pre * 16 ^ Suc l < 16 ^ Suc l" "b \<le> j - pre * 16 ^ Suc l" "j - pre * 16 ^ Suc l < k"
      and j: "pre * 16 ^ Suc l + (j - pre * 16 ^ Suc l) = j"
      using that k(2) by (simp_all del: power_Suc)
    then show ?thesis using t k(4) by (metis j)
  qed
  moreover have "pre * 16 ^ Suc l + k < 65536" using t k(2) by (simp del: power_Suc)
  ultimately show ?thesis
    using t k f(2) unfolding first_from_def by (auto intro!: exI [of _ "pre * 16 ^ Suc l + k"] simp del: power_Suc)
qed

lemma first_from_extend:
  assumes "first_from f n c r" "b \<le> c" "\<And>j. b \<le> j \<Longrightarrow> j < c \<Longrightarrow> f j = 0"
  shows "first_from f n b r"
proof (cases "r = 0")
  case True
  then show ?thesis using assms unfolding first_from_def by (metis not_le)
next
  case False
  then obtain k where "c \<le> k" "k < n" "f k = r" "\<forall>j. c \<le> j \<longrightarrow> j < k \<longrightarrow> f j = 0"
    using assms(1) unfolding first_from_def by auto
  then show ?thesis using False assms(2,3) unfolding first_from_def by (auto intro!: exI [of _ k]) (metis not_le)
qed

text \<open>From any table of the tree the walk ends, with the first entry from the position on.\<close>

lemma get_next_node:
  assumes "node H root l q pre" "rtr_ok H root" "s \<le> 16"
  shows "\<exists>r. get_next_value H q l s = Some r \<and> first_from (content H root) 65536 (pre * 16 ^ Suc l + s * 16 ^ l) r"
  using assms(1,3)
proof (induction arbitrary: s)
  case top
  have l: "tree H (LEVELS - 1) root 0" "full H (LEVELS - 1) root" using assms(2) by (auto simp: rtr_ok_def)
  obtain t where t: "H root = Some t" "parent_tbl t = 0" "root \<noteq> 0" using tree_some [OF l(1)] by auto
  show ?case
  proof (cases "rtr_get_first_tbl_entry t s = 0")
    case True
    have "content H root k = 0" if "s * 16 ^ (LEVELS - 1) \<le> k" "k < 65536" for k
      using table_rest_empty [of H root t s k "LEVELS - 1"] t(1) True that by (simp add: rtr_consts)
    moreover have "get_next_value H root (LEVELS - 1) s = Some 0"
      using True t by (subst get_next_value.simps) simp
    ultimately show ?thesis unfolding first_from_def by simp
  next
    case False
    from next_down [OF l t(1) False] obtain r where r: "r \<noteq> 0" "get_next_value H root (LEVELS - 1) s = Some r"
      "first_from (entry H (LEVELS - 1) root) (16 ^ Suc (LEVELS - 1)) (s * 16 ^ (LEVELS - 1)) r" by blast
    from content_nonzero [OF node.top assms(2) r(3,1)] r(2) show ?thesis by blast
  qed
next
  case (child l p pre t i)
  let ?q = "slots t ! i" and ?pre = "pre * 16 + i"
  note n = node.child [OF child.hyps]
  obtain par where q: "tree H l ?q par" "full H l ?q" using node_tree [OF n assms(2)] by auto
  obtain par' where p: "tree H (Suc l) p par'" using node_tree [OF child.hyps(1) assms(2)] by auto
  obtain tq where tq: "H ?q = Some tq" "parent_tbl tq = p" "?q \<noteq> 0" "p \<noteq> 0"
    using p child.hyps(2-4) tree_some [of H l ?q p] by auto
  show ?case
  proof (cases "rtr_get_first_tbl_entry tq s = 0")
    case False
    from next_down [OF q tq(1) False] obtain r where r: "r \<noteq> 0" "get_next_value H ?q l s = Some r"
      "first_from (entry H l ?q) (16 ^ Suc l) (s * 16 ^ l) r" by blast
    from content_nonzero [OF n assms(2) r(3,1)] r(2) show ?thesis by blast
  next
    case True
    have "j = i" if "j < 16" "slots t ! j = ?q" for j
    proof (rule ccontr)
      assume "j \<noteq> i"
      obtain t' where "H p = Some t'" and dj: "\<And>i j. i < 16 \<Longrightarrow> j < 16 \<Longrightarrow> i \<noteq> j \<Longrightarrow> slots t' ! i \<noteq> 0 \<Longrightarrow>
          slots t' ! j \<noteq> 0 \<Longrightarrow> tables H l (slots t' ! i) \<inter> tables H l (slots t' ! j) = {}"
        using p by (rule tree_SucE) blast
      then have "slots t' ! j = slots t' ! i" "slots t' ! i \<noteq> 0" using child.hyps(2,4) that(2) by simp_all
      moreover from this have "tables H l (slots t' ! i) \<inter> tables H l (slots t' ! j) = {}"
        using child.hyps(3) that(1) \<open>j \<noteq> i\<close> by (intro dj) auto
      ultimately show False using self_in_tables [of "slots t' ! i" H l] by auto
    qed
    then have "rtr_find_ndx t ?q = Some i" using child.hyps(3) by (intro find_ndx_unique) auto
    then have up: "get_next_value H ?q l s = get_next_value H p (Suc l) (Suc i)"
      using True tq child.hyps(2) by (subst get_next_value.simps) simp
    obtain r where r: "get_next_value H p (Suc l) (Suc i) = Some r"
      "first_from (content H root) 65536 (pre * 16 ^ Suc (Suc l) + Suc i * 16 ^ Suc l) r"
      using child.IH [of "Suc i"] child.hyps(3) by auto
    have e: "pre * 16 ^ Suc (Suc l) + Suc i * 16 ^ Suc l = Suc ?pre * 16 ^ Suc l" by (simp add: algebra_simps)
    have "first_from (content H root) 65536 (?pre * 16 ^ Suc l + s * 16 ^ l) r"
    proof (rule first_from_extend [OF r(2) [unfolded e]])
      show "?pre * 16 ^ Suc l + s * 16 ^ l \<le> Suc ?pre * 16 ^ Suc l" using child.prems by simp
      fix j
      assume j: "?pre * 16 ^ Suc l + s * 16 ^ l \<le> j" "j < Suc ?pre * 16 ^ Suc l"
      let ?k = "j - ?pre * 16 ^ Suc l"
      have k: "?k < 16 ^ Suc l" "s * 16 ^ l \<le> ?k" and jk: "?pre * 16 ^ Suc l + ?k = j" using j by (auto simp del: power_Suc)
      have "entry H l ?q ?k = 0" using table_rest_empty [of H ?q tq s ?k l] tq(1) True k by simp
      then show "content H root j = 0" using node_tree [OF n assms(2)] k(1) jk by metis
    qed
    then show ?thesis using up r(1) by auto
  qed
qed

lemma get_value_node:
  assumes "node H root l p pre" "rtr_ok H root" "get_value H p l a = Some (Some (q, i))"
  shows "node H root 0 q (pre * 16 ^ l + unat a mod 16 ^ Suc l div 16) \<and> i = unat a mod 16"
  using assms(1,3)
proof (induction l arbitrary: p pre)
  case 0
  then show ?case by (auto simp: get_value.simps SUB_TABLE_digit Let_def split: bind_splits if_splits)
next
  case (Suc l)
  obtain par where "tree H (Suc l) p par" using node_tree [OF Suc.prems(1) assms(2)] by auto
  then obtain t where t: "H p = Some t" by auto
  let ?i = "SUB_TABLE a (Suc l)"
  have nz: "slots t ! ?i \<noteq> 0" and g: "get_value H (slots t ! ?i) l a = Some (Some (q, i))"
    using Suc.prems(2) t by (auto simp: get_value.simps [of H p] Let_def split: if_splits)
  have "node H root l (slots t ! ?i) (pre * 16 + ?i)"
    using Suc.prems(1) t nz by (intro node.child) auto
  from Suc.IH [OF this g]
  have n: "node H root 0 q ((pre * 16 + ?i) * 16 ^ l + unat a mod 16 ^ Suc l div 16)" "i = unat a mod 16" by auto
  have "unat a mod 16 ^ Suc (Suc l) = 16 ^ Suc l * ?i + unat a mod 16 ^ Suc l"
    using mod_mult2_eq [of "unat a" "16 ^ Suc l" 16] by (simp add: SUB_TABLE_digit mult.commute)
  then have "unat a mod 16 ^ Suc (Suc l) div 16 = ?i * 16 ^ l + unat a mod 16 ^ Suc l div 16"
    by (simp add: mult.assoc)
  then show ?case using n by (simp add: algebra_simps del: power_Suc) (simp add: algebra_simps)
qed

section \<open>Properties\<close>

lemma alloc_ok:
  assumes "zalloc_ok z" "finite (dom H)"
  shows "\<exists>root H'. rtr_alloc_table z H = Some (root, H') \<and> rtr_ok H' root \<and> (\<forall>k. content H' root k = 0)"
proof -
  let ?H = "H(z H \<mapsto> \<lparr>parent_tbl = 0, slots = replicate 16 0\<rparr>)"
  have z: "z H \<noteq> 0" "finite (dom ?H)" using assms by (auto simp: zalloc_ok_def)
  have e: "?H (z H) = Some \<lparr>parent_tbl = 0, slots = replicate 16 0\<rparr>" by simp
  note t = empty_table [of ?H "z H" 0, OF e]
  show ?thesis
    using z t by (auto simp: rtr_alloc_table_def rtr_alloc_child_def rtr_ok_def TABLE_ENTRIES_def Let_def)
qed

lemma add_ok:
  assumes "zalloc_ok z" "rtr_ok H root" "d \<noteq> 0"
  shows "\<exists>H'. rtr_add_value z root a d H = Some H' \<and> rtr_ok H' root \<and>
    (\<forall>k < 65536. content H' root k = (if k = unat a then d else content H root k))"
proof -
  note u = unat_u16 [of a]
  have p: "(16 :: nat) ^ Suc (LEVELS - 1) = 65536" by (simp add: rtr_consts)
  obtain H' where "add_value z root a (LEVELS - 1) d H = Some H'" "finite (dom H')" "tree H' (LEVELS - 1) root 0"
    "\<forall>k. content H' root k = (if k mod 65536 = unat a mod 65536 then d else content H root k)"
    "full H' (LEVELS - 1) root"
    using add_value_ok [OF assms(1), of H "LEVELS - 1" root 0 a d] assms(2,3) unfolding rtr_ok_def p by blast
  then show ?thesis using u by (auto simp: rtr_ok_def rtr_add_value_def)
qed

lemma add_get:
  assumes "zalloc_ok z" "rtr_ok H root" "d \<noteq> 0"
  shows "\<exists>H'. rtr_add_value z root a d H = Some H' \<and> rtr_ok H' root \<and>
    (\<forall>b. rtr_get_value H' root b = (if b = a then Some d else rtr_get_value H root b)) \<and>
    (\<forall>b. \<exists>v. rtr_get_value H root b = Some v)"
proof -
  obtain H' where H': "rtr_add_value z root a d H = Some H'" "rtr_ok H' root"
    "\<And>k. k < 65536 \<Longrightarrow> content H' root k = (if k = unat a then d else content H root k)"
    using add_ok [OF assms] by blast
  have "rtr_get_value H root b = Some (content H root (unat b))" "rtr_get_value H' root b = Some (content H' root (unat b))"
    and "unat b < 65536" for b
    using rtr_get_value_entry [of H root 0] rtr_get_value_entry [of H' root 0] assms(2) H'(2) unat_u16 [of b]
    by (auto simp: rtr_ok_def)
  then show ?thesis using H' by (auto simp: word_unat_eq_iff)
qed

text \<open>
  What the greybus core relies on: a table answers every lookup, and adding a value changes the answer
  for its number only. A client that keeps the values of the table in a set finds them there again.
\<close>

locale cport_index =
  fixes ok :: "rtr_mem \<Rightarrow> addr \<Rightarrow> bool"
    and get :: "rtr_mem \<Rightarrow> addr \<Rightarrow> u16 \<Rightarrow> addr option"
    and add :: "(rtr_mem \<Rightarrow> addr) \<Rightarrow> addr \<Rightarrow> u16 \<Rightarrow> addr \<Rightarrow> rtr_mem \<Rightarrow> rtr_mem option"
  assumes total: "ok H r \<Longrightarrow> \<exists>v. get H r a = Some v"
    and add_law: "zalloc_ok z \<Longrightarrow> ok H r \<Longrightarrow> d \<noteq> 0 \<Longrightarrow>
      \<exists>H'. add z r a d H = Some H' \<and> ok H' r \<and> (\<forall>b. get H' r b = (if b = a then Some d else get H r b))"
begin

definition values_in :: "rtr_mem \<Rightarrow> addr \<Rightarrow> addr set \<Rightarrow> bool" where
  "values_in H r A \<longleftrightarrow> (\<forall>a v. get H r a = Some v \<longrightarrow> v \<noteq> 0 \<longrightarrow> v \<in> A)"

lemma lookup_in:
  assumes "ok H r" "values_in H r A"
  obtains v where "get H r a = Some v" "v \<noteq> 0 \<Longrightarrow> v \<in> A"
  using total [OF assms(1), of a] assms(2) by (auto simp: values_in_def)

lemma add_in:
  assumes "zalloc_ok z" "ok H r" "d \<noteq> 0" "values_in H r A"
  obtains H' where "add z r a d H = Some H'" "ok H' r" "get H' r a = Some d" "values_in H' r (insert d A)"
proof -
  obtain H' where H': "add z r a d H = Some H'" "ok H' r" "\<And>b. get H' r b = (if b = a then Some d else get H r b)"
    using add_law [OF assms(1-3)] by blast
  then have "values_in H' r (insert d A)" using assms(4) by (auto simp: values_in_def split: if_splits)
  then show thesis using H' that by simp
qed

end

interpretation rt: cport_index rtr_ok rtr_get_value rtr_add_value
proof
  fix H :: rtr_mem and r :: addr and a :: u16
  show "rtr_ok H r \<Longrightarrow> \<exists>v. rtr_get_value H r a = Some v"
    using rtr_get_value_entry [of H r 0 a] by (simp add: rtr_ok_def)
next
  fix z :: "rtr_mem \<Rightarrow> addr" and H :: rtr_mem and r d :: addr and a :: u16
  assume "zalloc_ok z" "rtr_ok H r" "d \<noteq> 0"
  from add_get [OF this, of a] show "\<exists>H'. rtr_add_value z r a d H = Some H' \<and> rtr_ok H' r \<and>
      (\<forall>b. rtr_get_value H' r b = (if b = a then Some d else rtr_get_value H r b))" by blast
qed

text \<open>
  C11. The cport table is a map from 16-bit numbers to data pointers: a new table is empty, and
  after adding a value for a number the table is well formed, looking up that number gives the
  value and looking up any other number gives what it gave before; no lookup ever leaves the tables.
\<close>

theorem table_is_a_map:
  assumes "zalloc_ok z" "rtr_ok H root" "d \<noteq> 0"
  shows "\<exists>H'. rtr_add_value z root a d H = Some H' \<and> rtr_ok H' root \<and>
    (\<forall>b. rtr_get_value H' root b = (if b = a then Some d else rtr_get_value H root b)) \<and>
    (\<forall>b. \<exists>v. rtr_get_value H root b = Some v)"
  by (rule add_get [OF assms])

text \<open>
  C12. Walking through the table ends and visits the numbers in ascending order: for a number that
  has an entry, the successor operation returns, with the entry of the smallest greater number that
  has one, or with the null pointer if there is none.
\<close>

theorem walk_terminates_in_order:
  assumes "rtr_ok H root" "rtr_get_value H root a = Some v" "v \<noteq> 0"
  shows "\<exists>r. rtr_get_next_value H root a = Some r \<and> first_from (content H root) 65536 (Suc (unat a)) r"
proof -
  have t: "tree H (LEVELS - 1) root 0" using assms(1) by (simp add: rtr_ok_def)
  obtain q i where g: "get_value H root (LEVELS - 1) a = Some (Some (q, i))"
    using get_value_entry [OF t, of a] rtr_get_value_entry [OF t, of a] assms(2,3) by (auto split: option.splits)
  have l: "16 ^ Suc (LEVELS - 1) = (65536 :: nat)" by (simp add: rtr_consts)
  have n: "node H root 0 q (unat a div 16)" "i = unat a mod 16"
    using get_value_node [OF node.top assms(1) g] unat_u16 [of a] unfolding l by simp_all
  from get_next_node [OF n(1) assms(1), of "Suc i"] n(2) g show ?thesis
    by (auto simp: rtr_get_next_value_def Suc_le_eq algebra_simps)
qed

text \<open>
  C33. Removing one number removes up to 4096: the slot of the root is cleared even when the table
  behind it still holds other numbers. After removing \<open>a\<close>, every number with the same upper four
  bits looks up to the null pointer, so that for the cports of a module, all of which are below
  4096, removing any one of them empties the table.
\<close>

theorem remove_drops_the_branch:
  assumes "rtr_ok H root"
  shows "\<exists>H'. rtr_remove_value root a H = Some H' \<and> rtr_ok H' root \<and>
    (\<forall>b. rtr_get_value H' root b = (if unat b div 4096 = unat a div 4096 then Some 0 else rtr_get_value H root b))"
proof -
  obtain H' where H': "rtr_remove_value root a H = Some H'" "rtr_ok H' root"
    "\<And>k. content H' root k = (if k div 4096 mod 16 = unat a div 4096 then 0 else content H root k)"
    using rtr_remove_root [of H root 0 a] assms by (auto simp: rtr_ok_def)
  have "unat b div 4096 mod 16 = unat b div 4096" for b :: u16
    using unat_u16 [of b] by (simp add: less_mult_imp_div_less)
  then show ?thesis
    using H' rtr_get_value_entry [of H root 0] rtr_get_value_entry [of H' root 0] assms by (auto simp: rtr_ok_def)
qed

section \<open>Samples\<close>

definition next_free :: "rtr_mem \<Rightarrow> addr" where
  "next_free H = Suc (Max (insert 0 (dom H)))"

lemma next_free_ok: "zalloc_ok next_free"
  unfolding zalloc_ok_def next_free_def
proof (intro allI impI conjI)
  fix H :: rtr_mem
  assume "finite (dom H)"
  then have "x \<le> Max (insert 0 (dom H))" if "x \<in> dom H" for x using that by simp
  then show "Suc (Max (insert 0 (dom H))) \<notin> dom H" by (meson not_less_eq_eq order_refl)
qed simp

text \<open>A table with entries for the numbers 1 and 2.\<close>

lemma some_table:
  "\<exists>H root. rtr_ok H root \<and> rtr_get_value H root 1 = Some 7 \<and> rtr_get_value H root 2 = Some 8 \<and>
     (\<forall>k < 65536. k \<noteq> 1 \<longrightarrow> k \<noteq> 2 \<longrightarrow> content H root k = 0)"
proof -
  obtain root H where r: "rtr_ok H root" "\<And>k. content H root k = 0"
    using alloc_ok [OF next_free_ok, of Map.empty] by auto
  obtain H1 where H1: "rtr_ok H1 root" "\<And>k. k < 65536 \<Longrightarrow> content H1 root k = (if k = 1 then 7 else 0)"
    using add_ok [OF next_free_ok r(1), of 7 1] r(2) by auto
  obtain H2 where H2: "rtr_ok H2 root" "\<And>k. k < 65536 \<Longrightarrow> content H2 root k = (if k = 2 then 8 else content H1 root k)"
    using add_ok [OF next_free_ok H1(1), of 8 2] by auto
  then show ?thesis
    using H1(2) rtr_get_value_entry [of H2 root 0] by (intro exI [of _ H2] exI [of _ root]) (auto simp: rtr_ok_def)
qed

theorem table_is_a_map_witness:
  "\<exists>H root H'. rtr_add_value next_free root 3 9 H = Some H' \<and> rtr_get_value H' root 3 = Some 9 \<and> rtr_get_value H' root 1 = Some 7"
proof -
  obtain H root where r: "rtr_ok H root" "rtr_get_value H root 1 = Some 7" using some_table by blast
  from table_is_a_map [OF next_free_ok r(1), of 9 3] r(2) show ?thesis by fastforce
qed

theorem walk_terminates_in_order_witness:
  "\<exists>H root. rtr_get_next_value H root 1 = Some 8"
proof -
  obtain H root where r: "rtr_ok H root" "rtr_get_value H root 1 = Some 7" "rtr_get_value H root 2 = Some 8"
    using some_table by blast
  have c: "content H root 2 = 8" using r(3) rtr_get_value_entry [of H root 0 2] r(1) by (simp add: rtr_ok_def)
  obtain v where v: "rtr_get_next_value H root 1 = Some v" "first_from (content H root) 65536 (Suc (unat (1 :: u16))) v"
    using walk_terminates_in_order [OF r(1,2)] by auto
  have f: "first_from (content H root) 65536 2 v" using v(2) by (simp add: numeral_2_eq_2)
  have nz: "v \<noteq> 0" using f c unfolding first_from_def by (auto split: if_splits)
  then obtain k where k: "2 \<le> k" "content H root k = v" "\<forall>j. 2 \<le> j \<longrightarrow> j < k \<longrightarrow> content H root j = 0"
    using f unfolding first_from_def by auto
  have "k = 2" using k(1,3) c by (metis le_neq_implies_less order_refl zero_neq_numeral)
  then have "v = 8" using k(2) c by simp
  then show ?thesis using v(1) by blast
qed

theorem remove_drops_the_branch_witness:
  "\<exists>H root H'. rtr_get_value H root 2 = Some 8 \<and> rtr_remove_value root 1 H = Some H' \<and> rtr_get_value H' root 2 = Some 0"
proof -
  obtain H root where r: "rtr_ok H root" "rtr_get_value H root 2 = Some 8" using some_table by blast
  from remove_drops_the_branch [OF r(1), of 1] r(2) show ?thesis by fastforce
qed

end
