(* ===== verification/RingBuf.thy ===== *)
theory RingBuf
  imports Prelude
begin

text \<open>
  The ring buffer package of \<^verbatim>\<open>include/nuttx/ring_buf.h\<close> and
  \<^verbatim>\<open>libc/misc/lib_ring_buf.c\<close>: entries with a data area, linked into a ring, each owned
  by the producer or by the consumer. The store maps an address to its entry and knows
  which addresses are allocated. The head, data, tail and tailroom pointers of an entry
  point into the entry's one buffer and are offsets from its start, the headroom pointer.
  The lemmas show that allocation builds a ring of producer-owned entries and fails
  cleanly, that freeing a ring frees all of it, and that a ring with a producer and a
  consumer pointer is a bounded first-in first-out queue.
\<close>

section \<open>Model\<close>

datatype ring_buf_owner =
  RING_BUF_OWNER_INVALID | RING_BUF_OWNER_PRODUCER | RING_BUF_OWNER_CONSUMER

record ring_buf =
  rb_next :: addr
  rb_owner :: ring_buf_owner
  rb_priv :: addr
  rb_buf :: "u8 list"
  rb_data :: nat
  rb_tailroom :: nat
  rb_head :: nat
  rb_tail :: nat

text \<open>
  The memory the package works in. \<open>zalloc\<close> hands out an address it has not handed out
  before; the parameter \<open>oom\<close> of the allocating operations says which requests the
  system's allocator turns down.
\<close>

record rb_heap =
  rb :: "addr \<Rightarrow> ring_buf"
  live :: "addr \<Rightarrow> bool"
  brk :: addr

definition upd_rb :: "addr \<Rightarrow> (ring_buf \<Rightarrow> ring_buf) \<Rightarrow> rb_heap \<Rightarrow> rb_heap" where
  "upd_rb p f H = H\<lparr>rb := (rb H)(p := f (rb H p))\<rparr>"

subsection \<open>Inline operations of ring\_buf.h\<close>

definition ring_buf_get_next :: "rb_heap \<Rightarrow> addr \<Rightarrow> addr" where
  "ring_buf_get_next H p = rb_next (rb H p)"

definition ring_buf_set_owner :: "addr \<Rightarrow> ring_buf_owner \<Rightarrow> rb_heap \<Rightarrow> rb_heap" where
  "ring_buf_set_owner p ow = upd_rb p (\<lambda>r. r\<lparr>rb_owner := ow\<rparr>)"

definition ring_buf_is_producers :: "rb_heap \<Rightarrow> addr \<Rightarrow> bool" where
  "ring_buf_is_producers H p \<longleftrightarrow> rb_owner (rb H p) = RING_BUF_OWNER_PRODUCER"

definition ring_buf_is_consumers :: "rb_heap \<Rightarrow> addr \<Rightarrow> bool" where
  "ring_buf_is_consumers H p \<longleftrightarrow> rb_owner (rb H p) = RING_BUF_OWNER_CONSUMER"

definition ring_buf_pass :: "addr \<Rightarrow> rb_heap \<Rightarrow> rb_heap" where
  "ring_buf_pass p H =
     (if ring_buf_is_producers H p then ring_buf_set_owner p RING_BUF_OWNER_CONSUMER H
      else ring_buf_set_owner p RING_BUF_OWNER_PRODUCER H)"

definition ring_buf_get_priv :: "rb_heap \<Rightarrow> addr \<Rightarrow> addr" where
  "ring_buf_get_priv H p = rb_priv (rb H p)"

definition ring_buf_set_priv :: "addr \<Rightarrow> addr \<Rightarrow> rb_heap \<Rightarrow> rb_heap" where
  "ring_buf_set_priv p v = upd_rb p (\<lambda>r. r\<lparr>rb_priv := v\<rparr>)"

text \<open>
  \<^verbatim>\<open>ring_buf_get_data\<close> returns a pointer; its users read or write the data area through
  it, which starts at offset \<open>rb_data\<close> of the entry's buffer.
\<close>

definition ring_buf_get_data :: "rb_heap \<Rightarrow> addr \<Rightarrow> nat" where
  "ring_buf_get_data H p = rb_data (rb H p)"

definition data_bytes :: "rb_heap \<Rightarrow> addr \<Rightarrow> u8 list" where
  "data_bytes H p = drop (ring_buf_get_data H p) (rb_buf (rb H p))"

definition ring_buf_get_head :: "rb_heap \<Rightarrow> addr \<Rightarrow> nat" where
  "ring_buf_get_head H p = rb_head (rb H p)"

definition ring_buf_get_tail :: "rb_heap \<Rightarrow> addr \<Rightarrow> nat" where
  "ring_buf_get_tail H p = rb_tail (rb H p)"

definition ring_buf_reset :: "addr \<Rightarrow> rb_heap \<Rightarrow> rb_heap" where
  "ring_buf_reset p H =
     (let H1 = upd_rb p (\<lambda>r. r\<lparr>rb_head := ring_buf_get_data H p\<rparr>) H
      in upd_rb p (\<lambda>r. r\<lparr>rb_tail := rb_head r\<rparr>) H1)"

definition ring_buf_len :: "rb_heap \<Rightarrow> addr \<Rightarrow> u32" where
  "ring_buf_len H p = of_int (int (rb_tail (rb H p)) - int (rb_head (rb H p)))"

definition ring_buf_space :: "rb_heap \<Rightarrow> addr \<Rightarrow> int" where
  "ring_buf_space H p = int (rb_tailroom (rb H p)) - int (rb_tail (rb H p))"

definition ring_buf_is_empty :: "rb_heap \<Rightarrow> addr \<Rightarrow> bool" where
  "ring_buf_is_empty H p \<longleftrightarrow> ring_buf_len H p = 0"

definition ring_buf_is_full :: "rb_heap \<Rightarrow> addr \<Rightarrow> bool" where
  "ring_buf_is_full H p \<longleftrightarrow> ring_buf_space H p = 0"

definition ring_buf_put :: "addr \<Rightarrow> nat \<Rightarrow> rb_heap \<Rightarrow> nat \<times> rb_heap" where
  "ring_buf_put p len H =
     (let orig_tail = rb_tail (rb H p)
      in (orig_tail, upd_rb p (\<lambda>r. r\<lparr>rb_tail := rb_tail r + len\<rparr>) H))"

definition ring_buf_pull :: "addr \<Rightarrow> nat \<Rightarrow> rb_heap \<Rightarrow> nat \<times> rb_heap" where
  "ring_buf_pull p len H =
     (let H1 = upd_rb p (\<lambda>r. r\<lparr>rb_head := rb_head r + len\<rparr>) H
      in (rb_head (rb H1 p), H1))"

subsection \<open>Allocation\<close>

definition ring_buf_init :: "addr \<Rightarrow> u8 list \<Rightarrow> nat \<Rightarrow> nat \<Rightarrow> rb_heap \<Rightarrow> rb_heap" where
  "ring_buf_init p buf headroom data_len H =
     (let H1 = upd_rb p (\<lambda>r. r\<lparr>rb_buf := buf, rb_data := headroom,
                                rb_tailroom := headroom + data_len\<rparr>) H
      in ring_buf_reset p H1)"

definition zeroed_ring_buf :: ring_buf where
  "zeroed_ring_buf = \<lparr>rb_next = 0, rb_owner = RING_BUF_OWNER_INVALID, rb_priv = 0, rb_buf = [],
     rb_data = 0, rb_tailroom = 0, rb_head = 0, rb_tail = 0\<rparr>"

definition zalloc_rb :: "(addr \<Rightarrow> bool) \<Rightarrow> rb_heap \<Rightarrow> addr option \<times> rb_heap" where
  "zalloc_rb oom H =
     (if oom (brk H) then (None, H)
      else (Some (brk H),
            H\<lparr>rb := (rb H)(brk H := zeroed_ring_buf), live := (live H)(brk H := True),
              brk := Suc (brk H)\<rparr>))"

definition ring_buf_alloc ::
    "(addr \<Rightarrow> bool) \<Rightarrow> nat \<Rightarrow> nat \<Rightarrow> nat \<Rightarrow> rb_heap \<Rightarrow> addr option \<times> rb_heap" where
  "ring_buf_alloc oom headroom data_len tailroom H =
     (let buf_len = headroom + data_len + tailroom in
      case zalloc_rb oom H of
        (None, H1) \<Rightarrow> (None, H1)
      | (Some p, H1) \<Rightarrow>
          (let H2 = ring_buf_set_owner p RING_BUF_OWNER_PRODUCER H1
           in (Some p,
               if buf_len \<noteq> 0 then ring_buf_init p (replicate buf_len 0) headroom data_len H2
               else H2)))"

definition ring_buf_free :: "addr \<Rightarrow> rb_heap \<Rightarrow> rb_heap" where
  "ring_buf_free p H = H\<lparr>live := (live H)(p := False)\<rparr>"

text \<open>
  The callbacks work on the entry and on the caller's argument; \<open>None\<close> is a null function
  pointer. The loop of \<^verbatim>\<open>ring_buf_alloc_ring\<close> returns how many entries it linked
  (\<^verbatim>\<open>i\<close>), the first entry, the entry it looked at last (\<^verbatim>\<open>rb\<close>) and the last one
  it linked (\<^verbatim>\<open>prev_rb\<close>).
\<close>

type_synonym 'a alloc_cb = "addr \<Rightarrow> rb_heap \<times> 'a \<Rightarrow> int \<times> rb_heap \<times> 'a"
type_synonym 'a free_cb = "addr \<Rightarrow> rb_heap \<times> 'a \<Rightarrow> rb_heap \<times> 'a"

fun alloc_ring_loop ::
    "(addr \<Rightarrow> bool) \<Rightarrow> nat \<Rightarrow> nat \<Rightarrow> nat \<Rightarrow> 'a alloc_cb option \<Rightarrow> nat \<Rightarrow> nat \<Rightarrow>
     addr option \<Rightarrow> addr \<Rightarrow> rb_heap \<times> 'a \<Rightarrow> nat \<times> addr option \<times> addr \<times> rb_heap \<times> 'a" where
  "alloc_ring_loop oom headroom data_len tailroom cb 0 i first prev_rb (H, arg) =
     (i, first, prev_rb, H, arg)"
| "alloc_ring_loop oom headroom data_len tailroom cb (Suc n) i first prev_rb (H, arg) =
     (case ring_buf_alloc oom headroom data_len tailroom H of
        (None, H1) \<Rightarrow> (i, first, prev_rb, H1, arg)
      | (Some p, H1) \<Rightarrow>
          (let (ret, H2, arg2) = (case cb of None \<Rightarrow> (0, H1, arg) | Some f \<Rightarrow> f p (H1, arg)) in
           if ret \<noteq> 0 then (i, first, prev_rb, ring_buf_free p H2, arg2)
           else case first of
                  None \<Rightarrow> alloc_ring_loop oom headroom data_len tailroom cb n (Suc i)
                            (Some p) p (H2, arg2)
                | Some _ \<Rightarrow> alloc_ring_loop oom headroom data_len tailroom cb n (Suc i)
                            first p (upd_rb prev_rb (\<lambda>r. r\<lparr>rb_next := p\<rparr>) H2, arg2)))"

fun unwind_ring_loop :: "'a free_cb option \<Rightarrow> nat \<Rightarrow> addr \<Rightarrow> rb_heap \<times> 'a \<Rightarrow> rb_heap \<times> 'a" where
  "unwind_ring_loop cb 0 p s = s"
| "unwind_ring_loop cb (Suc i) p s =
     (let nx = ring_buf_get_next (fst s) p;
          (H1, arg1) = (case cb of None \<Rightarrow> s | Some f \<Rightarrow> f p s)
      in unwind_ring_loop cb i nx (ring_buf_free p H1, arg1))"

definition ring_buf_alloc_ring ::
    "(addr \<Rightarrow> bool) \<Rightarrow> nat \<Rightarrow> nat \<Rightarrow> nat \<Rightarrow> nat \<Rightarrow> 'a alloc_cb option \<Rightarrow> 'a free_cb option \<Rightarrow>
     rb_heap \<times> 'a \<Rightarrow> addr option \<times> rb_heap \<times> 'a" where
  "ring_buf_alloc_ring oom entries headroom data_len tailroom alloc_cb free_cb s =
     (if entries = 0 then (None, s)
      else
        (let (i, first, prev_rb, s1) =
               alloc_ring_loop oom headroom data_len tailroom alloc_cb entries 0 None 0 s in
         case first of
           None \<Rightarrow> (None, s1)
         | Some f \<Rightarrow>
             if i < entries then (None, unwind_ring_loop free_cb i f s1)
             else (Some f, upd_rb prev_rb (\<lambda>r. r\<lparr>rb_next := f\<rparr>) (fst s1), snd s1)))"

text \<open>The \<^verbatim>\<open>do ... while (rb != first_rb)\<close> loop ends only where the links lead back.\<close>

partial_function (option) free_ring_loop ::
    "'a free_cb option \<Rightarrow> addr \<Rightarrow> addr \<Rightarrow> rb_heap \<times> 'a \<Rightarrow> (rb_heap \<times> 'a) option" where
  "free_ring_loop cb first p s =
     (let nx = ring_buf_get_next (fst s) p;
          s1 = (case cb of None \<Rightarrow> s | Some f \<Rightarrow> f p s);
          s2 = (ring_buf_free p (fst s1), snd s1)
      in if nx \<noteq> first then free_ring_loop cb first nx s2 else Some s2)"

definition ring_buf_free_ring ::
    "'a free_cb option \<Rightarrow> addr option \<Rightarrow> rb_heap \<times> 'a \<Rightarrow> (rb_heap \<times> 'a) option" where
  "ring_buf_free_ring cb p s =
     (case p of None \<Rightarrow> Some s | Some first \<Rightarrow> free_ring_loop cb first first s)"

section \<open>Basic facts\<close>

named_theorems rb_simps \<open>the effect of the entry operations on the store\<close>

lemma upd_rb_simps [simp]:
  "rb (upd_rb p f H) = (rb H)(p := f (rb H p))"
  "live (upd_rb p f H) = live H" "brk (upd_rb p f H) = brk H"
  by (simp_all add: upd_rb_def)

lemma ring_buf_free_simps [simp]:
  "rb (ring_buf_free p H) = rb H" "brk (ring_buf_free p H) = brk H"
  "live (ring_buf_free p H) = (live H)(p := False)"
  by (simp_all add: ring_buf_free_def)

lemmas [rb_simps] =
  ring_buf_get_next_def ring_buf_set_owner_def ring_buf_is_producers_def
  ring_buf_is_consumers_def ring_buf_pass_def ring_buf_get_data_def ring_buf_reset_def
  ring_buf_put_def ring_buf_pull_def ring_buf_init_def data_bytes_def

text \<open>
  An entry as \<^verbatim>\<open>ring_buf_alloc\<close> leaves it: producer-owned, empty, data area zero.
\<close>

definition fresh_entry :: "nat \<Rightarrow> nat \<Rightarrow> nat \<Rightarrow> ring_buf \<Rightarrow> bool" where
  "fresh_entry h d t r \<longleftrightarrow>
     rb_owner r = RING_BUF_OWNER_PRODUCER \<and> rb_data r = h \<and> rb_tailroom r = h + d \<and>
     rb_head r = h \<and> rb_tail r = h \<and> length (rb_buf r) = h + d + t \<and>
     drop h (rb_buf r) = replicate (d + t) 0"

text \<open>The heap never hands out an address twice: all addresses from \<open>brk\<close> on are free.\<close>

definition heap_ok :: "rb_heap \<Rightarrow> bool" where
  "heap_ok H \<longleftrightarrow> (\<forall>p \<ge> brk H. \<not> live H p)"

text \<open>A callback that touches nothing but the headroom of the entry it is given.\<close>

definition headroom_cb :: "nat \<Rightarrow> 'a alloc_cb option \<Rightarrow> bool" where
  "headroom_cb h cb \<longleftrightarrow>
     (\<forall>f p H arg. cb = Some f \<and> h \<le> length (rb_buf (rb H p)) \<longrightarrow>
        (\<exists>ret buf arg'. f p (H, arg) = (ret, upd_rb p (\<lambda>r. r\<lparr>rb_buf := buf\<rparr>) H, arg') \<and>
            length buf = length (rb_buf (rb H p)) \<and> drop h buf = drop h (rb_buf (rb H p))))"

lemma headroom_cbE:
  assumes "headroom_cb h cb" and "h \<le> length (rb_buf (rb H p))"
  obtains ret buf arg' where
    "(case cb of None \<Rightarrow> (0, H, arg) | Some f \<Rightarrow> f p (H, arg)) =
       (ret, upd_rb p (\<lambda>r. r\<lparr>rb_buf := buf\<rparr>) H, arg')"
    "length buf = length (rb_buf (rb H p))" "drop h buf = drop h (rb_buf (rb H p))"
proof (cases cb)
  case None
  have "(0 :: int, H, arg) = (0, upd_rb p (\<lambda>r. r\<lparr>rb_buf := rb_buf (rb H p)\<rparr>) H, arg)"
    by (simp add: upd_rb_def)
  with None show ?thesis by (intro that [of 0 "rb_buf (rb H p)" arg]) auto
next
  case (Some f)
  with assms show ?thesis
    unfolding headroom_cb_def using that by fastforce
qed

lemma fresh_entry_headroom: "fresh_entry h d t r \<Longrightarrow> h \<le> length (rb_buf r)"
  by (simp add: fresh_entry_def)

lemma ring_buf_alloc_Some:
  assumes "ring_buf_alloc oom h d t H = (Some p, H')" and "h + d + t \<noteq> 0"
  shows "p = brk H" "brk H' = Suc (brk H)" "live H' = (live H)(p := True)"
    "fresh_entry h d t (rb H' p)" "\<And>q. q \<noteq> p \<Longrightarrow> rb H' q = rb H q"
  using assms
  by (auto simp: ring_buf_alloc_def zalloc_rb_def rb_simps fresh_entry_def Let_def
      zeroed_ring_buf_def split: if_splits)

lemma free_after_alloc:
  assumes "ring_buf_alloc oom h d t H = (Some p, H1)" and "h + d + t \<noteq> 0" and "heap_ok H"
  shows "(live H1)(p := False) = live H" "\<forall>q \<ge> brk H1. \<not> live H q"
    "q < brk H \<Longrightarrow> rb (upd_rb p g H1) q = rb H q"
  using ring_buf_alloc_Some [OF assms(1,2)] assms(3) by (auto simp: heap_ok_def fun_upd_idem)

lemma ring_buf_alloc_None:
  "ring_buf_alloc oom h d t H = (None, H') \<Longrightarrow> H' = H"
  by (auto simp: ring_buf_alloc_def zalloc_rb_def Let_def split: if_splits)

section \<open>Rings\<close>

fun rb_path :: "rb_heap \<Rightarrow> addr list \<Rightarrow> bool" where
  "rb_path H (p # q # ps) \<longleftrightarrow> rb_next (rb H p) = q \<and> rb_path H (q # ps)"
| "rb_path H _ \<longleftrightarrow> True"

definition rb_cycle :: "rb_heap \<Rightarrow> addr list \<Rightarrow> bool" where
  "rb_cycle H ps \<longleftrightarrow>
     ps \<noteq> [] \<and> distinct ps \<and> (\<forall>p \<in> set ps. live H p) \<and> rb_path H (ps @ [hd ps])"

lemma rb_path_append:
  "rb_path H (ps @ q # qs) \<longleftrightarrow> rb_path H (ps @ [q]) \<and> rb_path H (q # qs)"
proof (induction ps)
  case Nil
  then show ?case by simp
next
  case (Cons p ps)
  then show ?case by (cases ps) auto
qed

lemma rb_path_cong:
  "(\<And>p. p \<in> set (butlast ps) \<Longrightarrow> rb_next (rb H' p) = rb_next (rb H p)) \<Longrightarrow>
   rb_path H' ps = rb_path H ps"
  by (induction H ps rule: rb_path.induct) auto

lemma rb_cycle_cong:
  assumes "\<And>p. p \<in> set ps \<Longrightarrow> rb_next (rb H' p) = rb_next (rb H p) \<and> live H' p = live H p"
  shows "rb_cycle H' ps = rb_cycle H ps"
proof -
  have "rb_path H' (ps @ [hd ps]) = rb_path H (ps @ [hd ps])"
    by (rule rb_path_cong) (use assms in \<open>simp add: butlast_append\<close>)
  with assms show ?thesis by (auto simp: rb_cycle_def)
qed

text \<open>A ring has no first entry.\<close>

lemma rb_cycle_rotate: "rb_cycle H (p # ps) \<Longrightarrow> rb_cycle H (ps @ [p])"
proof (cases ps)
  case Nil
  moreover assume "rb_cycle H (p # ps)"
  ultimately show ?thesis by simp
next
  case (Cons q qs)
  moreover assume "rb_cycle H (p # ps)"
  ultimately show ?thesis
    using rb_path_append [of H "q # qs" p "[q]"] by (auto simp: rb_cycle_def)
qed

lemma rb_cycle_next:
  "rb_cycle H (p # ps) \<Longrightarrow> ring_buf_get_next H p = hd (ps @ [p])"
  by (cases ps) (auto simp: rb_cycle_def ring_buf_get_next_def)

subsection \<open>Allocating a ring\<close>

text \<open>What the allocation loop has done when it has linked the entries \<open>ps\<close> behind
  \<open>prev\<close>: they are new, allocated and fresh, and the rest of the store is as it was.\<close>

definition grown :: "nat \<Rightarrow> nat \<Rightarrow> nat \<Rightarrow> addr \<Rightarrow> addr list \<Rightarrow> rb_heap \<Rightarrow> rb_heap \<Rightarrow> bool" where
  "grown h d t prev ps H H' \<longleftrightarrow>
     rb_path H' (prev # ps) \<and> (\<forall>p \<in> set ps. fresh_entry h d t (rb H' p)) \<and>
     live H' = (\<lambda>q. live H q \<or> q \<in> set ps) \<and> heap_ok H' \<and> brk H \<le> brk H' \<and>
     (\<forall>q. q < brk H \<and> q \<noteq> prev \<longrightarrow> rb H' q = rb H q) \<and>
     (\<exists>x. rb H' prev = rb H prev\<lparr>rb_next := x\<rparr>)"

lemma fresh_entry_updates [simp]:
  "fresh_entry h d t (r\<lparr>rb_next := x\<rparr>) = fresh_entry h d t r"
  "length buf = length (rb_buf r) \<Longrightarrow> drop h buf = drop h (rb_buf r) \<Longrightarrow>
   fresh_entry h d t (r\<lparr>rb_buf := buf\<rparr>) = fresh_entry h d t r"
  by (simp_all add: fresh_entry_def)

lemma grown_refl: "heap_ok H \<Longrightarrow> grown h d t prev [] H H"
  by (auto simp: grown_def intro!: exI [of _ "rb_next (rb H prev)"])

lemma grown_step:
  assumes "grown h d t p ps H3 H'" and "p = brk H" and "prev < brk H" and "brk H3 = Suc p"
    and "rb H3 = (rb H)(p := e, prev := rb H prev\<lparr>rb_next := p\<rparr>)" and "fresh_entry h d t e"
    and "live H3 = (live H)(p := True)"
  shows "grown h d t prev (p # ps) H H'"
proof -
  have prev: "rb H' prev = rb H prev\<lparr>rb_next := p\<rparr>"
    using assms(1,2,3,4,5) by (simp add: grown_def)
  obtain x where "rb H' p = rb H3 p\<lparr>rb_next := x\<rparr>"
    using assms(1) by (auto simp: grown_def)
  moreover have "rb H3 p = e"
    using assms(2,3,5) by simp
  ultimately have "fresh_entry h d t (rb H' p)"
    using assms(6) by simp
  with assms prev show ?thesis
    by (auto simp: grown_def fun_eq_iff)
qed

lemma alloc_ring_loop_grown:
  assumes "headroom_cb h cb" and "h + d + t \<noteq> 0" and "heap_ok H" and "prev < brk H"
    and "alloc_ring_loop oom h d t cb n i (Some f) prev (H, arg) = (i', first', prev', H', arg')"
  shows "\<exists>k \<le> n. i' = i + k \<and> first' = Some f \<and> prev' = last (prev # [brk H ..< brk H + k]) \<and>
           grown h d t prev [brk H ..< brk H + k] H H'"
  using assms(3-)
proof (induction n arbitrary: i prev H arg)
  case 0
  then show ?case by (auto simp: grown_refl)
next
  case (Suc n)
  show ?case
  proof (cases "ring_buf_alloc oom h d t H")
    case (Pair r H1)
    show ?thesis
    proof (cases r)
      case None
      with Pair Suc.prems show ?thesis
        by (auto dest: ring_buf_alloc_None simp: grown_refl)
    next
      case (Some p)
      note al = ring_buf_alloc_Some [OF Pair [unfolded Some] assms(2)]
      obtain ret buf arg2 where cb:
        "(case cb of None \<Rightarrow> (0, H1, arg) | Some f \<Rightarrow> f p (H1, arg)) =
           (ret, upd_rb p (\<lambda>r. r\<lparr>rb_buf := buf\<rparr>) H1, arg2)"
        "length buf = length (rb_buf (rb H1 p))" "drop h buf = drop h (rb_buf (rb H1 p))"
        using headroom_cbE [OF assms(1) fresh_entry_headroom [OF al(4)], where arg = arg] by metis
      let ?H2 = "upd_rb p (\<lambda>r. r\<lparr>rb_buf := buf\<rparr>) H1"
      show ?thesis
      proof (cases "ret = 0")
        case False
        then have "H' = ring_buf_free p ?H2" "i' = i" "first' = Some f" "prev' = prev"
          using Suc.prems(3) Pair Some cb(1) by auto
        moreover have "grown h d t prev [] H (ring_buf_free p ?H2)"
          using Suc.prems(2) al(2) free_after_alloc [OF Pair [unfolded Some] assms(2) Suc.prems(1)]
          by (simp add: grown_def heap_ok_def exI [of _ "rb_next (rb H prev)"])
        ultimately show ?thesis by (auto intro: exI [of _ 0])
      next
        case True
        let ?H3 = "upd_rb prev (\<lambda>r. r\<lparr>rb_next := p\<rparr>) ?H2"
        have run: "alloc_ring_loop oom h d t cb n (Suc i) (Some f) p (?H3, arg2)
          = (i', first', prev', H', arg')"
          using Suc.prems(3) Pair Some cb(1) True by simp
        have "heap_ok ?H3" "p < brk ?H3"
          using Suc.prems(1) al by (auto simp: heap_ok_def)
        from Suc.IH [OF this run] obtain k where k: "k \<le> n" "i' = Suc i + k" "first' = Some f"
          "prev' = last (p # [brk ?H3 ..< brk ?H3 + k])"
          "grown h d t p [brk ?H3 ..< brk ?H3 + k] ?H3 H'" by auto
        have upt: "[brk H ..< brk H + Suc k] = p # [brk ?H3 ..< brk ?H3 + k]"
          using al(1,2) by (simp add: upt_conv_Cons)
        have "rb ?H3 = (rb H)(p := (rb H1 p)\<lparr>rb_buf := buf\<rparr>, prev := rb H prev\<lparr>rb_next := p\<rparr>)"
          using al(5) Suc.prems(2) al(1) by (auto simp: fun_eq_iff)
        then have "grown h d t prev (p # [brk ?H3 ..< brk ?H3 + k]) H H'"
          using k(5) al cb(2,3) Suc.prems(2)
          by (intro grown_step [where ?H3.0 = ?H3 and e = "(rb H1 p)\<lparr>rb_buf := buf\<rparr>"]) auto
        then have "grown h d t prev [brk H ..< brk H + Suc k] H H'" by (simp only: upt)
        moreover have "prev' = last (prev # [brk H ..< brk H + Suc k])"
          unfolding upt using k(4) by simp
        ultimately show ?thesis using k(1-3) by (intro exI [of _ "Suc k"]) auto
      qed
    qed
  qed
qed

text \<open>The first pass of the loop sets \<^verbatim>\<open>first_rb\<close>; the others extend the chain behind it.\<close>

lemma alloc_ring_loop_first:
  assumes "headroom_cb h cb" and "h + d + t \<noteq> 0" and "heap_ok H"
    and "alloc_ring_loop oom h d t cb (Suc n) 0 None x (H, arg) = (i', first', prev', H', arg')"
  shows "first' = None \<and> i' = 0 \<and> live H' = live H \<and> heap_ok H' \<and>
           (\<forall>q < brk H. rb H' q = rb H q) \<or>
         (\<exists>k \<le> n. i' = Suc k \<and> first' = Some (brk H) \<and>
            prev' = last [brk H ..< brk H + Suc k] \<and>
            rb_path H' [brk H ..< brk H + Suc k] \<and>
            (\<forall>p \<in> set [brk H ..< brk H + Suc k]. fresh_entry h d t (rb H' p)) \<and>
            live H' = (\<lambda>q. live H q \<or> q \<in> set [brk H ..< brk H + Suc k]) \<and> heap_ok H' \<and>
            (\<forall>q < brk H. rb H' q = rb H q))"
proof (cases "ring_buf_alloc oom h d t H")
  case (Pair r H1)
  show ?thesis
  proof (cases r)
    case None
    with Pair assms(3,4) show ?thesis by (auto dest: ring_buf_alloc_None)
  next
    case (Some p)
    note al = ring_buf_alloc_Some [OF Pair [unfolded Some] assms(2)]
    obtain ret buf arg2 where cb:
      "(case cb of None \<Rightarrow> (0, H1, arg) | Some f \<Rightarrow> f p (H1, arg)) =
         (ret, upd_rb p (\<lambda>r. r\<lparr>rb_buf := buf\<rparr>) H1, arg2)"
      "length buf = length (rb_buf (rb H1 p))" "drop h buf = drop h (rb_buf (rb H1 p))"
      using headroom_cbE [OF assms(1) fresh_entry_headroom [OF al(4)], where arg = arg] by metis
    let ?H2 = "upd_rb p (\<lambda>r. r\<lparr>rb_buf := buf\<rparr>) H1"
    have e: "fresh_entry h d t (rb ?H2 p)" using al(4) cb(2,3) by simp
    show ?thesis
    proof (cases "ret = 0")
      case False
      then have "H' = ring_buf_free p ?H2" "i' = 0" "first' = None"
        using assms(4) Pair Some cb(1) by auto
      with free_after_alloc [OF Pair [unfolded Some] assms(2,3)] show ?thesis
        by (simp add: heap_ok_def)
    next
      case True
      then have run: "alloc_ring_loop oom h d t cb n 1 (Some p) p (?H2, arg2)
        = (i', first', prev', H', arg')"
        using assms(4) Pair Some cb(1) by simp
      have "heap_ok ?H2" "p < brk ?H2" using assms(3) al by (auto simp: heap_ok_def)
      from alloc_ring_loop_grown [OF assms(1,2) this run] obtain k where k: "k \<le> n"
        "i' = Suc k" "first' = Some p" "prev' = last (p # [brk ?H2 ..< brk ?H2 + k])"
        and g: "grown h d t p [brk ?H2 ..< brk ?H2 + k] ?H2 H'" by auto
      define qs where "qs = [brk ?H2 ..< brk ?H2 + k]"
      have upt: "[brk H ..< brk H + Suc k] = p # qs"
        using al(1,2) by (simp add: upt_conv_Cons qs_def)
      obtain y where "rb H' p = rb ?H2 p\<lparr>rb_next := y\<rparr>"
        using g by (auto simp: grown_def)
      with e have "fresh_entry h d t (rb H' p)" by simp
      with g [folded qs_def] have facts: "rb_path H' (p # qs)" "\<forall>q \<in> set (p # qs). fresh_entry h d t (rb H' q)"
        "live H' = (\<lambda>q. live H q \<or> q \<in> set (p # qs))" "heap_ok H'"
        "\<forall>q < brk H. rb H' q = rb H q" "prev' = last (p # qs)"
        using al k(4) [folded qs_def] by (auto simp: grown_def)
      show ?thesis
        using k(1-3) al(1) facts [folded upt] by (intro disjI2 exI [of _ k] conjI) simp_all
    qed
  qed
qed

lemma rb_path_upt_close:
  assumes "rb_path H ps" and "ps \<noteq> []" and "distinct ps"
  shows "rb_path (upd_rb (last ps) (\<lambda>r. r\<lparr>rb_next := f\<rparr>) H) (ps @ [f])"
proof -
  from assms(2) obtain qs l where ps: "ps = qs @ [l]" by (metis rev_exhaust)
  let ?H = "upd_rb l (\<lambda>r. r\<lparr>rb_next := f\<rparr>) H"
  have "rb_path ?H (qs @ [l]) = rb_path H (qs @ [l])"
    using assms(3) ps by (intro rb_path_cong) auto
  then show ?thesis
    using assms(1) ps rb_path_append [of ?H qs l "[f]"] by simp
qed

lemma ring_buf_alloc_ring_cycle:
  assumes "headroom_cb h cb" and "h + d + t \<noteq> 0" and "heap_ok H"
    and "ring_buf_alloc_ring oom n h d t cb fcb (H, arg) = (Some f, H', arg')"
  shows "f = brk H" "rb_cycle H' [f ..< f + n]"
    "\<forall>p \<in> set [f ..< f + n]. fresh_entry h d t (rb H' p)"
    "live H' = (\<lambda>q. live H q \<or> q \<in> set [f ..< f + n])" "heap_ok H'"
    "\<forall>q < brk H. rb H' q = rb H q"
proof -
  from assms(4) obtain m where n: "n = Suc m"
    by (cases n) (auto simp: ring_buf_alloc_ring_def)
  obtain i first prev_rb H1 a1 where run:
    "alloc_ring_loop oom h d t cb n 0 None 0 (H, arg) = (i, first, prev_rb, H1, a1)"
    by (metis prod_cases5)
  with assms(4) have r: "first = Some f" "\<not> i < n"
    "H' = upd_rb prev_rb (\<lambda>r. r\<lparr>rb_next := f\<rparr>) H1"
    by (auto simp: ring_buf_alloc_ring_def Let_def n split: option.splits if_splits)
  let ?ps = "[brk H ..< brk H + n]"
  obtain k where k: "k \<le> m" "i = Suc k" and
    "Some f = Some (brk H) \<and> prev_rb = last [brk H ..< brk H + Suc k] \<and>
      rb_path H1 [brk H ..< brk H + Suc k] \<and>
      (\<forall>p \<in> set [brk H ..< brk H + Suc k]. fresh_entry h d t (rb H1 p)) \<and>
      live H1 = (\<lambda>q. live H q \<or> q \<in> set [brk H ..< brk H + Suc k]) \<and> heap_ok H1 \<and>
      (\<forall>q < brk H. rb H1 q = rb H q)"
    using alloc_ring_loop_first [OF assms(1-3) run [unfolded n]] r(1) by (elim disjE) auto
  moreover have "Suc k = n" using k r(2) n by simp
  ultimately have l: "f = brk H" "prev_rb = last ?ps" "rb_path H1 ?ps"
    "\<forall>p \<in> set ?ps. fresh_entry h d t (rb H1 p)"
    "live H1 = (\<lambda>q. live H q \<or> q \<in> set ?ps)" "heap_ok H1" "\<forall>q < brk H. rb H1 q = rb H q"
    by simp_all
  have lt: "brk H < brk H + n" using n by simp
  then have ne: "?ps \<noteq> []" "hd ?ps = f" using l(1) by simp_all
  have lb: "brk H \<le> prev_rb" using lt l(2) by simp
  show "f = brk H" by (rule l(1))
  show "rb_cycle H' [f ..< f + n]"
    using rb_path_upt_close [OF l(3) ne(1) distinct_upt, of f] ne
    by (simp add: rb_cycle_def r(3) l(1,2,5) del: last_upt)
  show "\<forall>p \<in> set [f ..< f + n]. fresh_entry h d t (rb H' p)"
    using l(1,4) r(3) by auto
  show "live H' = (\<lambda>q. live H q \<or> q \<in> set [f ..< f + n])"
    using l(1,5) r(3) by simp
  show "heap_ok H'" using l(6) r(3) by (simp add: heap_ok_def)
  show "\<forall>q < brk H. rb H' q = rb H q" using l(7) r(3) lb by auto
qed

text \<open>Where the allocator and the callback never fail, the ring is allocated.\<close>

lemma alloc_ring_loop_all:
  assumes "\<And>p. \<not> oom p" and "\<And>f p x. cb = Some f \<Longrightarrow> fst (f p x) = 0"
  shows "fst (alloc_ring_loop oom h d t cb n i first prev s) = i + n \<and>
         (0 < n \<or> first \<noteq> None \<longrightarrow> fst (snd (alloc_ring_loop oom h d t cb n i first prev s)) \<noteq> None)"
proof (induction n arbitrary: i first prev s)
  case 0
  then show ?case by (cases s) auto
next
  case (Suc n)
  obtain H arg where s: "s = (H, arg)" by force
  obtain p H1 where al: "ring_buf_alloc oom h d t H = (Some p, H1)"
    using assms(1) by (force simp: ring_buf_alloc_def zalloc_rb_def Let_def)
  obtain H2 arg2 where cb: "(case cb of None \<Rightarrow> (0, H1, arg) | Some f \<Rightarrow> f p (H1, arg)) = (0, H2, arg2)"
    using assms(2) by (cases cb) (auto, metis fst_conv prod.exhaust)
  show ?case
    using Suc.IH [of "Suc i" "Some p" p] Suc.IH [of "Suc i" first p] al cb
    by (cases first) (simp_all add: s)
qed

lemma ring_buf_alloc_ring_succeeds:
  assumes "\<forall>p. \<not> oom p" and "\<forall>f p x. cb = Some f \<longrightarrow> fst (f p x) = 0" and "0 < n"
  shows "\<exists>f H' arg'. ring_buf_alloc_ring oom n h d t cb fcb s = (Some f, H', arg')"
proof -
  obtain i first prev_rb s1 where run: "alloc_ring_loop oom h d t cb n 0 None 0 s = (i, first, prev_rb, s1)"
    by (metis prod_cases4)
  moreover have "i = n" "first \<noteq> None"
    using alloc_ring_loop_all [of oom cb h d t n 0 None 0 s] assms run by simp_all
  ultimately show ?thesis using assms(3) by (auto simp: ring_buf_alloc_ring_def)
qed

subsection \<open>Failure and release\<close>

text \<open>A callback that leaves the store alone.\<close>

definition quiet_cb :: "'a free_cb option \<Rightarrow> bool" where
  "quiet_cb cb \<longleftrightarrow> (\<forall>f p H arg. cb = Some f \<longrightarrow> fst (f p (H, arg)) = H)"

lemma quiet_cbD: "quiet_cb cb \<Longrightarrow> fst (case cb of None \<Rightarrow> s | Some f \<Rightarrow> f p s) = fst s"
  by (cases s) (auto simp: quiet_cb_def split: option.splits)

lemma unwind_ring_loop_frees:
  assumes "quiet_cb cb" and "rb_path H ps" and "ps \<noteq> []" and "hd ps = p"
  shows "rb (fst (unwind_ring_loop cb (length ps) p (H, arg))) = rb H \<and>
         brk (fst (unwind_ring_loop cb (length ps) p (H, arg))) = brk H \<and>
         live (fst (unwind_ring_loop cb (length ps) p (H, arg))) =
           (\<lambda>q. live H q \<and> q \<notin> set ps)"
  using assms(2-)
proof (induction ps arbitrary: p H arg)
  case Nil
  then show ?case by simp
next
  case (Cons q ps)
  then have p: "p = q" by simp
  obtain H1 a1 where cb: "(case cb of None \<Rightarrow> (H, arg) | Some f \<Rightarrow> f q (H, arg)) = (H1, a1)"
    by (metis prod.exhaust)
  then have H1: "H1 = H" using quiet_cbD [OF assms(1), of "(H, arg)" q] by simp
  have step: "unwind_ring_loop cb (length (q # ps)) p (H, arg) =
      unwind_ring_loop cb (length ps) (rb_next (rb H q)) (ring_buf_free q H, a1)"
    using cb H1 by (simp add: p ring_buf_get_next_def Let_def)
  show ?case
  proof (cases "ps = []")
    case True
    then show ?thesis unfolding step by auto
  next
    case False
    then have "rb_path (ring_buf_free q H) ps" "hd ps = rb_next (rb H q)"
      using Cons.prems rb_path_cong [of ps "ring_buf_free q H" H] by (cases ps, auto)+
    from Cons.IH [OF this(1) False this(2), of a1] show ?thesis unfolding step by auto
  qed
qed

lemma ring_buf_alloc_ring_fails_clean:
  assumes "headroom_cb h cb" and "quiet_cb fcb" and "h + d + t \<noteq> 0" and "heap_ok H"
    and "ring_buf_alloc_ring oom n h d t cb fcb (H, arg) = (None, H', arg')"
  shows "live H' = live H \<and> heap_ok H' \<and> (\<forall>q < brk H. rb H' q = rb H q)"
proof (cases n)
  case 0
  with assms(4,5) show ?thesis by (simp add: ring_buf_alloc_ring_def)
next
  case (Suc m)
  obtain i first prev_rb H1 a1 where run:
    "alloc_ring_loop oom h d t cb n 0 None 0 (H, arg) = (i, first, prev_rb, H1, a1)"
    by (metis prod_cases5)
  note first = alloc_ring_loop_first [OF assms(1,3,4) run [unfolded Suc]]
  show ?thesis
  proof (cases first)
    case None
    with assms(5) run Suc have "H' = H1" by (simp add: ring_buf_alloc_ring_def)
    with first None show ?thesis by auto
  next
    case (Some f)
    with first obtain k where k: "i = Suc k" "f = brk H"
      and path: "rb_path H1 [brk H ..< brk H + Suc k]"
      and l: "live H1 = (\<lambda>q. live H q \<or> q \<in> set [brk H ..< brk H + Suc k])" "heap_ok H1"
        "\<forall>q < brk H. rb H1 q = rb H q"
      by (elim disjE) (auto simp del: upt_Suc)
    have len: "length [brk H ..< brk H + Suc k] = i" using k(1) by (simp del: upt_Suc)
    have hd: "hd [brk H ..< brk H + Suc k] = f" "[brk H ..< brk H + Suc k] \<noteq> []"
      using k(2) by (simp_all del: upt_Suc)
    have "(H', arg') = unwind_ring_loop fcb i f (H1, a1)"
      using assms(5) run Suc Some by (simp add: ring_buf_alloc_ring_def split: if_splits)
    then have H': "rb H' = rb H1" "brk H' = brk H1"
      "live H' = (\<lambda>q. live H1 q \<and> q \<notin> set [brk H ..< brk H + Suc k])"
      using unwind_ring_loop_frees [OF assms(2) path hd(2,1), of a1] unfolding len
      by (metis fst_conv)+
    have "\<not> live H q" if "q \<in> set [brk H ..< brk H + Suc k]" for q
      using that assms(4) by (auto simp: heap_ok_def simp del: upt_Suc)
    then have "live H' = live H" unfolding H'(3) l(1) by auto
    moreover have "heap_ok H'" using l(2) H'(2,3) by (simp add: heap_ok_def)
    ultimately show ?thesis using l(3) H'(1) by simp
  qed
qed

lemma free_ring_loop_frees:
  assumes "rb_path H (ps @ [first])" and "ps \<noteq> []" and "hd ps = p" and "first \<notin> set (tl ps)"
    and "quiet_cb cb"
  shows "\<exists>H' arg'. free_ring_loop cb first p (H, arg) = Some (H', arg') \<and>
           rb H' = rb H \<and> brk H' = brk H \<and> live H' = (\<lambda>q. live H q \<and> q \<notin> set ps)"
  using assms(1-4)
proof (induction ps arbitrary: p H arg)
  case Nil
  then show ?case by simp
next
  case (Cons q ps)
  then have p: "p = q" by simp
  let ?s1 = "case cb of None \<Rightarrow> (H, arg) | Some f \<Rightarrow> f q (H, arg)"
  have s1: "fst ?s1 = H" using quiet_cbD [OF assms(5), of "(H, arg)" q] by simp
  have nx: "ring_buf_get_next H q = hd (ps @ [first])"
    using Cons.prems(1) by (cases ps) (auto simp: ring_buf_get_next_def)
  have "\<exists>H' arg'. free_ring_loop cb first q (H, arg) = Some (H', arg') \<and>
           rb H' = rb H \<and> brk H' = brk H \<and> live H' = (\<lambda>x. live H x \<and> x \<notin> set (q # ps))"
  proof (cases ps)
    case Nil
    then show ?thesis
      using nx s1 by (subst free_ring_loop.simps) (auto simp: Let_def fun_upd_def)
  next
    case (Cons r rs)
    then have ps: "rb_path (ring_buf_free q H) (ps @ [first])" "first \<notin> set (tl ps)" "hd ps \<noteq> first"
      using Cons.prems rb_path_cong [of "ps @ [first]" "ring_buf_free q H" H] by auto
    from Cons.IH [OF ps(1) _ refl ps(2), of "snd ?s1"] Cons obtain H' arg' where
      "free_ring_loop cb first (hd ps) (ring_buf_free q H, snd ?s1) = Some (H', arg')"
      "rb H' = rb (ring_buf_free q H)" "brk H' = brk (ring_buf_free q H)"
      "live H' = (\<lambda>x. live (ring_buf_free q H) x \<and> x \<notin> set ps)" by auto
    then show ?thesis
      using nx s1 ps(3) Cons by (subst free_ring_loop.simps) (auto simp: Let_def)
  qed
  with p show ?case by simp
qed

lemma ring_buf_free_ring_frees:
  assumes "rb_cycle H ps" and "quiet_cb cb"
  shows "\<exists>H' arg'. ring_buf_free_ring cb (Some (hd ps)) (H, arg) = Some (H', arg') \<and>
           rb H' = rb H \<and> brk H' = brk H \<and> live H' = (\<lambda>q. live H q \<and> q \<notin> set ps)"
proof -
  have "hd ps \<notin> set (tl ps)" using assms(1) by (cases ps) (auto simp: rb_cycle_def)
  then show ?thesis
    using free_ring_loop_frees [of H ps "hd ps" "hd ps" cb arg] assms
    by (simp add: rb_cycle_def ring_buf_free_ring_def)
qed

section \<open>A ring as a bounded queue\<close>

text \<open>
  The producer fills the entry it points at, passes it and steps to the next; the consumer
  does the same at its own pointer. \<open>rb_queue H qs fs\<close>: going round the ring from the
  consumer's pointer come the entries \<open>qs\<close> the consumer still has to handle and then,
  from the producer's pointer on, the entries \<open>fs\<close> that are free.
\<close>

definition rb_step :: "addr \<Rightarrow> rb_heap \<Rightarrow> addr \<times> rb_heap" where
  "rb_step p H = (let H1 = ring_buf_pass p H in (ring_buf_get_next H1 p, H1))"

definition rb_queue :: "rb_heap \<Rightarrow> addr list \<Rightarrow> addr list \<Rightarrow> bool" where
  "rb_queue H qs fs \<longleftrightarrow> rb_cycle H (qs @ fs) \<and>
     (\<forall>p \<in> set qs. rb_owner (rb H p) = RING_BUF_OWNER_CONSUMER) \<and>
     (\<forall>p \<in> set fs. rb_owner (rb H p) = RING_BUF_OWNER_PRODUCER)"

locale handover_ring =
  fixes step :: "'p \<Rightarrow> 's \<Rightarrow> 'p \<times> 's"
    and is_prod :: "'s \<Rightarrow> 'p \<Rightarrow> bool"
    and is_cons :: "'s \<Rightarrow> 'p \<Rightarrow> bool"
    and queue :: "'s \<Rightarrow> 'p list \<Rightarrow> 'p list \<Rightarrow> bool"
  assumes produce: "queue s qs (f # fs) \<Longrightarrow>
      queue (snd (step f s)) (qs @ [f]) fs \<and> fst (step f s) = hd (fs @ qs @ [f])"
    and consume: "queue s (q # qs) fs \<Longrightarrow>
      queue (snd (step q s)) qs (fs @ [q]) \<and> fst (step q s) = hd (qs @ fs @ [q])"
    and queue_cons: "queue s qs fs \<Longrightarrow> p \<in> set (qs @ fs) \<Longrightarrow> is_cons s p \<longleftrightarrow> p \<in> set qs"
    and queue_prod: "queue s qs fs \<Longrightarrow> p \<in> set (qs @ fs) \<Longrightarrow> is_prod s p \<longleftrightarrow> p \<in> set fs"
    and queue_ne: "queue s qs fs \<Longrightarrow> qs @ fs \<noteq> []"
    and queue_sep: "queue s qs fs \<Longrightarrow> set qs \<inter> set fs = {}"
begin

text \<open>What the producer's and the consumer's pointer show decides full and empty.\<close>

lemma full_iff: "queue s qs fs \<Longrightarrow> is_cons s (hd (fs @ qs)) \<longleftrightarrow> fs = []"
  using queue_cons [of s qs fs "hd (fs @ qs)"] queue_ne [of s qs fs] queue_sep [of s qs fs]
  by (cases fs; cases qs) auto

lemma empty_iff: "queue s qs fs \<Longrightarrow> is_prod s (hd (qs @ fs)) \<longleftrightarrow> qs = []"
  using queue_prod [of s qs fs "hd (qs @ fs)"] queue_ne [of s qs fs] queue_sep [of s qs fs]
  by (cases fs; cases qs) auto

text \<open>Stepping the consumer through all queued entries hands them out in the order they were
  produced, and leaves every entry free.\<close>

fun consume_all :: "nat \<Rightarrow> 'p \<Rightarrow> 's \<Rightarrow> 'p list \<times> 'p \<times> 's" where
  "consume_all 0 p s = ([], p, s)"
| "consume_all (Suc n) p s =
     (let (p1, s1) = step p s; (ps, r) = consume_all n p1 s1 in (p # ps, r))"

lemma consume_all_queue:
  "queue s qs fs \<Longrightarrow> p = hd (qs @ fs) \<Longrightarrow>
   \<exists>p' s'. consume_all (length qs) p s = (qs, p', s') \<and> queue s' [] (fs @ qs) \<and>
           p' = hd (fs @ qs)"
proof (induction qs arbitrary: p s fs)
  case Nil
  then show ?case by auto
next
  case (Cons q qs)
  then have "queue (snd (step q s)) qs (fs @ [q])" "fst (step q s) = hd (qs @ fs @ [q])"
    using consume by auto
  from Cons.IH [OF this(1)] this(2) Cons.prems(2) show ?case
    by (auto simp: split_beta Let_def)
qed

end

lemma rb_cycle_distinct: "rb_cycle H (qs @ fs) \<Longrightarrow> distinct (qs @ fs)"
  by (simp add: rb_cycle_def)

lemma rb_step_cycle:
  "rb_cycle H ps \<Longrightarrow> rb_cycle (snd (rb_step p H)) ps"
  using rb_cycle_cong [of ps "snd (rb_step p H)" H]
  by (auto simp: rb_step_def rb_simps Let_def)

lemma rb_step_next: "rb_cycle H (p # ps) \<Longrightarrow> fst (rb_step p H) = hd (ps @ [p])"
  using rb_cycle_next [of H p ps] by (auto simp: rb_step_def rb_simps Let_def)

lemma rb_step_owner:
  "rb_owner (rb (snd (rb_step p H)) q) =
     (if q = p then if ring_buf_is_producers H p then RING_BUF_OWNER_CONSUMER
                    else RING_BUF_OWNER_PRODUCER
      else rb_owner (rb H q))"
  by (simp add: rb_step_def rb_simps Let_def)

lemma rb_cycle_rotate_many: "rb_cycle H (ps @ qs) \<Longrightarrow> rb_cycle H (qs @ ps)"
proof (induction ps arbitrary: qs)
  case Nil
  then show ?case by simp
next
  case (Cons p ps)
  then have "rb_cycle H (ps @ (qs @ [p]))" using rb_cycle_rotate [of H p "ps @ qs"] by simp
  from Cons.IH [OF this] show ?case by simp
qed

lemma rb_queue_produce:
  assumes "rb_queue H qs (f # fs)"
  shows "rb_queue (snd (rb_step f H)) (qs @ [f]) fs \<and> fst (rb_step f H) = hd (fs @ qs @ [f])"
proof -
  have cyc: "rb_cycle H (qs @ f # fs)" using assms by (simp add: rb_queue_def)
  then have "fst (rb_step f H) = hd (fs @ qs @ [f])"
    using rb_cycle_rotate_many [OF cyc] rb_step_next [of H f "fs @ qs"] by simp
  moreover have "rb_queue (snd (rb_step f H)) (qs @ [f]) fs"
    using assms rb_step_cycle [OF cyc, of f] rb_cycle_distinct [OF cyc]
    by (auto simp: rb_queue_def rb_step_owner ring_buf_is_producers_def)
  ultimately show ?thesis by simp
qed

lemma rb_queue_consume:
  assumes "rb_queue H (q # qs) fs"
  shows "rb_queue (snd (rb_step q H)) qs (fs @ [q]) \<and> fst (rb_step q H) = hd (qs @ fs @ [q])"
proof -
  have cyc: "rb_cycle H (q # qs @ fs)" using assms by (simp add: rb_queue_def)
  then have "fst (rb_step q H) = hd (qs @ fs @ [q])"
    using rb_step_next [of H q "qs @ fs"] by simp
  moreover have "rb_queue (snd (rb_step q H)) qs (fs @ [q])"
    using assms rb_cycle_rotate [OF rb_step_cycle [OF cyc, of q]] rb_cycle_distinct [of H "[q]" "qs @ fs"] cyc
    by (auto simp: rb_queue_def rb_step_owner ring_buf_is_producers_def)
  ultimately show ?thesis by simp
qed

interpretation rq: handover_ring rb_step ring_buf_is_producers ring_buf_is_consumers rb_queue
proof unfold_locales
  show "rb_queue H qs (f # fs) \<Longrightarrow> rb_queue (snd (rb_step f H)) (qs @ [f]) fs \<and>
      fst (rb_step f H) = hd (fs @ qs @ [f])" for H qs f fs
    by (rule rb_queue_produce)
  show "rb_queue H (q # qs) fs \<Longrightarrow> rb_queue (snd (rb_step q H)) qs (fs @ [q]) \<and>
      fst (rb_step q H) = hd (qs @ fs @ [q])" for H q qs fs
    by (rule rb_queue_consume)
qed (auto simp: rb_queue_def ring_buf_is_consumers_def ring_buf_is_producers_def rb_cycle_def)

section \<open>Properties\<close>



definition sample_heap :: rb_heap where
  "sample_heap = \<lparr>rb = (\<lambda>_. zeroed_ring_buf), live = (\<lambda>_. False), brk = 0\<rparr>"

lemma sample_ring:
  "\<exists>f H' arg'. ring_buf_alloc_ring (\<lambda>_. False) 3 4 8 0 None None (sample_heap, ()) = (Some f, H', arg')"
  by (rule ring_buf_alloc_ring_succeeds) simp_all



end
