(* ===== verification/Datalink.thy ===== *)
theory Datalink
  imports RingBuf "HOL-Library.Monad_Syntax"
begin

text \<open>
  The SPI data link of \<^verbatim>\<open>drivers/greybus/mods/datalink-spi.c\<close>: messages are cut into
  packets in a ring of transmit buffers, exchanged with the base one packet at a time,
  acknowledged over two GPIO lines, and put together again on receive. The state is the
  driver's one instance of \<^verbatim>\<open>struct mods_spi_dl_s\<close> with the lines and the SPI slave it
  drives. An operation returns \<open>None\<close> where the C code dereferences a null pointer,
  writes outside a buffer, fails an assertion or never returns; the lemmas show when that
  cannot happen, what is transmitted and delivered, and how the link recovers.
\<close>

section \<open>Constants\<close>

named_theorems dl_consts \<open>the constants of the data link\<close>

definition MODS_DL_PAYLOAD_MAX_SZ :: nat where [dl_consts]: "MODS_DL_PAYLOAD_MAX_SZ = 2048"
definition CONFIG_GREYBUS_MODS_DESIRED_PKT_SIZE :: u16 where
  [dl_consts]: "CONFIG_GREYBUS_MODS_DESIRED_PKT_SIZE = 64"
definition CONFIG_GREYBUS_MODS_MAX_BUS_SPEED :: u32 where
  [dl_consts]: "CONFIG_GREYBUS_MODS_MAX_BUS_SPEED = 8000000"
definition unipro_cport_count :: nat where [dl_consts]: "unipro_cport_count = 10"
definition PROTO_VER :: u8 where [dl_consts]: "PROTO_VER = 2"
definition MIN_PROTO_VER :: u8 where [dl_consts]: "MIN_PROTO_VER = 2"
definition DEFAULT_PAYLOAD_SZ :: nat where [dl_consts]: "DEFAULT_PAYLOAD_SZ = 32"
definition MAX_NUM_RB_ENTRIES :: nat where [dl_consts]: "MAX_NUM_RB_ENTRIES = 160"
definition HDR_BIT_DUMMY :: u16 where [dl_consts]: "HDR_BIT_DUMMY = 0x200"
definition HDR_BIT_PKT1 :: u16 where [dl_consts]: "HDR_BIT_PKT1 = 0x100"
definition HDR_BIT_VALID :: u16 where [dl_consts]: "HDR_BIT_VALID = 0x80"
definition HDR_BIT_TYPE :: u16 where [dl_consts]: "HDR_BIT_TYPE = 0x40"
definition HDR_BIT_PKTS :: u16 where [dl_consts]: "HDR_BIT_PKTS = 0x3F"
definition MSG_TYPE_DL :: u16 where [dl_consts]: "MSG_TYPE_DL = 0"
definition MSG_TYPE_NW :: u16 where [dl_consts]: "MSG_TYPE_NW = 0x40"
definition DL_BIT_ACK :: u8 where [dl_consts]: "DL_BIT_ACK = 1"
definition CRC_SIZE :: nat where [dl_consts]: "CRC_SIZE = 2"
definition NUM_TRIES :: u8 where [dl_consts]: "NUM_TRIES = 3"
definition ACK_TIMEOUT_US :: u32 where [dl_consts]: "ACK_TIMEOUT_US = 100000"
definition HDR_SIZE :: nat where [dl_consts]: "HDR_SIZE = 2"

definition PL_SIZE :: "nat \<Rightarrow> nat" where [dl_consts]: "PL_SIZE n = n - HDR_SIZE - CRC_SIZE"
definition PKT_SIZE :: "nat \<Rightarrow> nat" where [dl_consts]: "PKT_SIZE n = n + HDR_SIZE + CRC_SIZE"

definition IS_PWR_OF_TWO :: "u16 \<Rightarrow> bool" where
  "IS_PWR_OF_TWO x \<longleftrightarrow> x AND (x - 1) = 0 \<and> x \<noteq> 0"

definition DL_MSG_ID_BUS_CFG_REQ :: u8 where [dl_consts]: "DL_MSG_ID_BUS_CFG_REQ = 0x00"
definition DL_MSG_ID_BUS_CFG_RESP :: u8 where [dl_consts]: "DL_MSG_ID_BUS_CFG_RESP = 0x80"

section \<open>State\<close>

datatype ack = ACK_NEEDED | ACK_NOT_NEEDED | ACK_ERROR

text \<open>The three work items of the driver; the worker each is queued with is always the same.\<close>

datatype work = Wake_work | Tend_work | Terr_work

text \<open>How a pin is configured: as part of the SPI port, or as a GPIO.\<close>

datatype pin = Spi_function | Gpio_out bool | Gpio_in

record mods_spi_dl_s =
  heap :: rb_heap
  bstate :: base_attached_e
  xfer_setup :: bool
  pkt_size :: nat
  new_pkt_size :: nat
  proto_ver :: u8
  work_q :: "work list"
  queued :: "work \<Rightarrow> bool"
  ack_supported :: bool
  tack_cfg :: "pin option"
  rack_cfg :: "pin option"
  tx_tries_remaining :: u8
  txp_rb :: "addr option"
  txc_rb :: "addr option"
  rx_buf :: "u8 list option"
  rcvd_payload :: "u8 list"
  rcvd_payload_idx :: nat
  pkts_remaining :: u8
  tack_pin :: pin
  rack_pin :: pin
  rfr :: bool
  host_int :: bool
  spi_tx :: "u8 list option"
  delivered :: "u8 list list"

text \<open>
  \<open>queued w\<close> is \<^verbatim>\<open>work->worker != NULL\<close>; \<open>tack_pin\<close> to \<open>spi_tx\<close> are the hardware the
  driver sets (\<open>spi_tx\<close>: the packet the SPI slave is set up to send); \<open>delivered\<close> lists the
  payloads handed to the network layer's \<^verbatim>\<open>recv\<close> callback, oldest first.

  What an operation reads from outside comes in an environment: the level of the wake line
  when a transfer is set up, the successive readings of the polling loops, and which
  allocations fail.
\<close>

record dl_env =
  wake_n :: bool
  start_usec :: u32
  rack_at :: "nat \<Rightarrow> bool"
  wake_at :: "nat \<Rightarrow> bool"
  usec_at :: "nat \<Rightarrow> u32"
  wake2_at :: "nat \<Rightarrow> bool"
  usec2_at :: "nat \<Rightarrow> u32"
  rb_oom :: "addr \<Rightarrow> bool"
  rx_oom :: "nat \<Rightarrow> bool"

section \<open>Work queue\<close>

definition dl_work_queue :: "work \<Rightarrow> mods_spi_dl_s \<Rightarrow> mods_spi_dl_s" where
  "dl_work_queue w s =
     (if \<not> queued s w then s\<lparr>queued := (queued s)(w := True), work_q := work_q s @ [w]\<rparr> else s)"

definition dl_work_cancel :: "work \<Rightarrow> mods_spi_dl_s \<Rightarrow> mods_spi_dl_s" where
  "dl_work_cancel w s =
     (if queued s w then s\<lparr>work_q := remove1 w (work_q s), queued := (queued s)(w := False)\<rparr> else s)"

section \<open>Transmit ring\<close>

text \<open>A write of \<open>bs\<close> at offset \<open>off\<close> of the data area of an entry.\<close>

definition write_data :: "addr \<Rightarrow> nat \<Rightarrow> u8 list \<Rightarrow> rb_heap \<Rightarrow> rb_heap option" where
  "write_data p off bs H =
     (if ring_buf_get_data H p + off + length bs \<le> length (rb_buf (rb H p))
      then Some (upd_rb p (\<lambda>r. r\<lparr>rb_buf := memcpy_at (ring_buf_get_data H p + off) bs (rb_buf r)\<rparr>) H)
      else None)"

definition txc_rb_is_valid :: "mods_spi_dl_s \<Rightarrow> bool option" where
  "txc_rb_is_valid s =
     do { p \<leftarrow> txc_rb s; Some (le16_at (data_bytes (heap s) p) 0 AND HDR_BIT_VALID \<noteq> 0) }"

definition alloc_callback :: "u32 alloc_cb" where
  "alloc_callback p s =
     (let (H, rb_num) = s in
      (OK, upd_rb p (\<lambda>r. r\<lparr>rb_buf := memcpy_at 0 (le32_bytes rb_num) (rb_buf r)\<rparr>) H, rb_num + 1))"

definition rb_entries_for :: "nat \<Rightarrow> nat" where
  "rb_entries_for n =
     min ((MODS_DL_PAYLOAD_MAX_SZ div PL_SIZE n) * unipro_cport_count) MAX_NUM_RB_ENTRIES"

text \<open>The new receive buffer's contents are those of fresh memory; it is filled before it is read.\<close>

definition set_pkt_size :: "dl_env \<Rightarrow> nat \<Rightarrow> mods_spi_dl_s \<Rightarrow> mods_spi_dl_s option" where
  "set_pkt_size e n s =
     (if n = pkt_size s \<and> txp_rb s = txc_rb s then Some s
      else do {
        (H1, _) \<leftarrow> ring_buf_free_ring None (txp_rb s) (heap s, ());
        let rb_entries = rb_entries_for n;
        rx \<leftarrow> (if rx_oom e n then None else Some (replicate n 0));
        let (r, H2, _) = ring_buf_alloc_ring (rb_oom e) rb_entries 4 n 0 (Some alloc_callback)
                           None (H1, 0);
        p \<leftarrow> r;
        Some (s\<lparr>heap := H2, rx_buf := Some rx, txp_rb := Some p, txc_rb := Some p,
                pkt_size := n\<rparr>)
      })"

definition set_txp_hdr :: "u16 \<Rightarrow> mods_spi_dl_s \<Rightarrow> mods_spi_dl_s option" where
  "set_txp_hdr bits s =
     do { p \<leftarrow> txp_rb s; H \<leftarrow> write_data p 0 (le16_bytes bits) (heap s); Some (s\<lparr>heap := H\<rparr>) }"

definition next_txp :: "mods_spi_dl_s \<Rightarrow> mods_spi_dl_s option" where
  "next_txp s =
     do { p \<leftarrow> txp_rb s;
          let H = ring_buf_pass p (heap s);
          Some (s\<lparr>heap := H, txp_rb := Some (ring_buf_get_next H p)\<rparr>) }"

definition setup_for_dummy_tx :: "mods_spi_dl_s \<Rightarrow> mods_spi_dl_s option" where
  "setup_for_dummy_tx s = do { s1 \<leftarrow> set_txp_hdr HDR_BIT_DUMMY s; next_txp s1 }"

definition reset_txc_rb_entry :: "mods_spi_dl_s \<Rightarrow> mods_spi_dl_s option" where
  "reset_txc_rb_entry s =
     do { p \<leftarrow> txp_rb s;
          c \<leftarrow> txc_rb s;
          if p = c \<and> ring_buf_is_producers (heap s) p then Some s
          else do {
            H1 \<leftarrow> write_data c 0 (replicate (pkt_size s) 0) (heap s);
            let H2 = ring_buf_reset c H1;
            let H3 = ring_buf_pass c H2;
            Some (s\<lparr>heap := H3, txc_rb := Some (ring_buf_get_next H3 c)\<rparr>)
          } }"

section \<open>Queueing a message\<close>

text \<open>
  The loop of \<^verbatim>\<open>queue_data\<close>, with the number of packets and of bytes still to go. The
  caller has checked that the length is at most \<^const>\<open>MODS_DL_PAYLOAD_MAX_SZ\<close>, so that
  \<^verbatim>\<open>int\<close> and \<^verbatim>\<open>size_t\<close> agree.
\<close>

definition pkt_bitmask :: "u16 \<Rightarrow> nat \<Rightarrow> bool \<Rightarrow> u16" where
  "pkt_bitmask msg_type packets first =
     HDR_BIT_VALID OR (msg_type AND HDR_BIT_TYPE) OR (of_nat packets AND HDR_BIT_PKTS) OR
     (if first then HDR_BIT_PKT1 else 0)"

fun queue_data_loop ::
    "u16 \<Rightarrow> nat \<Rightarrow> nat \<Rightarrow> nat \<Rightarrow> nat \<Rightarrow> u8 list \<Rightarrow> mods_spi_dl_s \<Rightarrow>
     (int \<times> mods_spi_dl_s) option" where
  "queue_data_loop msg_type len pl_size 0 remaining dbuf s = Some (OK, s)"
| "queue_data_loop msg_type len pl_size (Suc packets) remaining dbuf s =
     (if remaining = 0 then Some (OK, s)
      else do {
        p \<leftarrow> txp_rb s;
        if ring_buf_is_consumers (heap s) p then Some (- ENOMEM, s)
        else do {
          let this_pl = min remaining pl_size;
          s1 \<leftarrow> set_txp_hdr (pkt_bitmask msg_type packets (remaining = len)) s;
          H1 \<leftarrow> write_data p HDR_SIZE (take this_pl dbuf) (heap s1);
          let H2 = snd (ring_buf_put p (pkt_size s1) H1);
          s2 \<leftarrow> next_txp (s1\<lparr>heap := H2\<rparr>);
          queue_data_loop msg_type len pl_size packets (remaining - this_pl) (drop this_pl dbuf) s2
        }
      })"

definition queue_data :: "u16 \<Rightarrow> u8 list \<Rightarrow> mods_spi_dl_s \<Rightarrow> (int \<times> mods_spi_dl_s) option" where
  "queue_data msg_type buf s =
     (let len = length buf; pl_size = PL_SIZE (pkt_size s);
          packets = (len + pl_size - 1) div pl_size
      in if bstate s \<noteq> BASE_ATTACHED then Some (- ENODEV, s)
         else if len > MODS_DL_PAYLOAD_MAX_SZ then Some (- E2BIG, s)
         else queue_data_loop msg_type len pl_size packets len buf s)"

section \<open>Messages for the data link itself\<close>

definition bus_cfg_resp :: "u16 \<Rightarrow> u8 \<Rightarrow> u8 list" where
  "bus_cfg_resp pl_size features =
     [DL_MSG_ID_BUS_CFG_RESP] @ le32_bytes CONFIG_GREYBUS_MODS_MAX_BUS_SPEED @
     le16_bytes pl_size @ [features, PROTO_VER]"

definition dl_recv :: "u8 list \<Rightarrow> mods_spi_dl_s \<Rightarrow> (int \<times> mods_spi_dl_s) option" where
  "dl_recv buf s =
     (let req = take 9 (buf @ replicate 9 0);
          max_pl_size = le16_at req 1; features = req ! 3; version = req ! 4
      in if req ! 0 \<noteq> DL_MSG_ID_BUS_CFG_REQ then Some (- EINVAL, s)
         else if version < MIN_PROTO_VER then Some (- EPROTONOSUPPORT, s)
         else
           (let s1 = s\<lparr>proto_ver := version\<rparr>;
                pl = min CONFIG_GREYBUS_MODS_DESIRED_PKT_SIZE max_pl_size;
                ok = IS_PWR_OF_TWO pl \<and> unat pl \<ge> DEFAULT_PAYLOAD_SZ;
                s2 = (if ok then s1\<lparr>new_pkt_size := PKT_SIZE (unat pl)\<rparr> else s1);
                pl_size = (if ok then pl else 0);
                ack = (features AND DL_BIT_ACK \<noteq> 0);
                s3 = (if ack then s2\<lparr>ack_supported := True\<rparr> else s2)
            in queue_data MSG_TYPE_DL (bus_cfg_resp pl_size (if ack then DL_BIT_ACK else 0)) s3))"

section \<open>Setting up a transfer\<close>

definition deassert_rfr_int :: "mods_spi_dl_s \<Rightarrow> mods_spi_dl_s" where
  "deassert_rfr_int s = s\<lparr>rfr := False, host_int := False\<rparr>"

text \<open>\<^verbatim>\<open>gpio_cfg_restore\<close> with no saved configuration does nothing.\<close>

definition gpio_cfg_restore :: "pin option \<Rightarrow> pin \<Rightarrow> pin" where
  "gpio_cfg_restore cfg p = (case cfg of None \<Rightarrow> p | Some c \<Rightarrow> c)"

definition restore_pins :: "mods_spi_dl_s \<Rightarrow> mods_spi_dl_s" where
  "restore_pins s =
     s\<lparr>tack_pin := gpio_cfg_restore (tack_cfg s) (tack_pin s),
       rack_pin := gpio_cfg_restore (rack_cfg s) (rack_pin s), tack_cfg := None, rack_cfg := None\<rparr>"

definition xfer :: "dl_env \<Rightarrow> mods_spi_dl_s \<Rightarrow> mods_spi_dl_s option" where
  "xfer e s =
     do { rb \<leftarrow> txc_rb s;
          if xfer_setup s then Some s
          else if ring_buf_is_producers (heap s) rb \<and> wake_n e then Some s
          else do {
            let s1 = s\<lparr>xfer_setup := True\<rparr>;
            let set_int = (\<not> ring_buf_is_producers (heap s) rb);
            s2 \<leftarrow> (if ring_buf_is_producers (heap s) rb then setup_for_dummy_tx s1 else Some s1);
            let s3 = (if ack_supported s2 then restore_pins s2 else s2);
            Some (s3\<lparr>spi_tx := Some (take (pkt_size s3) (data_bytes (heap s3) rb)),
                     rfr := True, host_int := set_int\<rparr>)
          } }"

definition queue_data_nw :: "dl_env \<Rightarrow> u8 list \<Rightarrow> mods_spi_dl_s \<Rightarrow> (int \<times> mods_spi_dl_s) option" where
  "queue_data_nw e buf s =
     do { (ret, s1) \<leftarrow> queue_data MSG_TYPE_NW buf s;
          if ret \<noteq> OK then Some (ret, s1)
          else do { s2 \<leftarrow> xfer e s1; Some (ret, s2) } }"

section \<open>Attach and detach\<close>

partial_function (option) drain_tx :: "mods_spi_dl_s \<Rightarrow> mods_spi_dl_s option" where
  "drain_tx s =
     do { c \<leftarrow> txc_rb s;
          if ring_buf_is_consumers (heap s) c then do { s1 \<leftarrow> reset_txc_rb_entry s; drain_tx s1 }
          else Some s }"

definition attach_cb :: "dl_env \<Rightarrow> base_attached_e \<Rightarrow> mods_spi_dl_s \<Rightarrow> mods_spi_dl_s option" where
  "attach_cb e state s =
     do { s5 \<leftarrow>
            (if state \<noteq> BASE_ATTACHED then do {
               let s1 = deassert_rfr_int s;
               let s2 = (if ack_supported s1 then restore_pins s1\<lparr>ack_supported := False\<rparr> else s1)
                          \<lparr>tx_tries_remaining := NUM_TRIES\<rparr>;
               let s3 = (if xfer_setup s2 then s2\<lparr>spi_tx := None, xfer_setup := False\<rparr> else s2);
               s4 \<leftarrow> drain_tx (dl_work_cancel Terr_work (dl_work_cancel Tend_work
                        (dl_work_cancel Wake_work s3)));
               s5 \<leftarrow> set_pkt_size e (PKT_SIZE DEFAULT_PAYLOAD_SZ) s4;
               Some (s5\<lparr>proto_ver := MIN_PROTO_VER\<rparr>)
             } else Some s);
          Some (s5\<lparr>bstate := state\<rparr>) }"

section \<open>Acknowledgement\<close>

text \<open>
  The first polling loop ends with the acknowledgement, with the base asserting its wake line
  (low), or with the time-out; the value says whether it was the time-out, that is
  \<^verbatim>\<open>!ack && wake_n\<close>. The second waits out the time in which the base could take the line
  for an acknowledgement.
\<close>

partial_function (option) ack_wait :: "dl_env \<Rightarrow> nat \<Rightarrow> bool option" where
  "ack_wait e k =
     (if rack_at e k then Some False
      else if \<not> wake_at e k then Some False
      else if usec_at e k - start_usec e < ACK_TIMEOUT_US then ack_wait e (Suc k)
      else Some True)"

partial_function (option) false_ack_wait :: "dl_env \<Rightarrow> nat \<Rightarrow> unit option" where
  "false_ack_wait e k =
     (if wake2_at e k \<and> usec2_at e k - start_usec e < 2 * ACK_TIMEOUT_US
      then false_ack_wait e (Suc k) else Some ())"

definition ack_handler :: "dl_env \<Rightarrow> ack \<Rightarrow> mods_spi_dl_s \<Rightarrow> (bool \<times> mods_spi_dl_s) option" where
  "ack_handler e ack_req s =
     (if \<not> ack_supported s then Some (True, s)
      else do {
        let s1 = s\<lparr>tack_cfg := Some (tack_pin s), tack_pin := Gpio_out (ack_req = ACK_NEEDED),
                   rack_cfg := Some (rack_pin s), rack_pin := Gpio_in\<rparr>;
        valid \<leftarrow> txc_rb_is_valid s1;
        no_ack \<leftarrow> (if valid then ack_wait e 0 else Some False);
        if no_ack then do {
          _ \<leftarrow> (if ack_req = ACK_ERROR then false_ack_wait e 0 else Some ());
          let tries = tx_tries_remaining s1 - 1;
          if tries > 0 then Some (False, s1\<lparr>tx_tries_remaining := tries\<rparr>)
          else Some (True, s1\<lparr>tx_tries_remaining := NUM_TRIES\<rparr>)
        } else do {
          let s2 = (if valid \<and> tx_tries_remaining s1 \<noteq> NUM_TRIES
                    then s1\<lparr>tx_tries_remaining := NUM_TRIES\<rparr> else s1);
          _ \<leftarrow> (if ack_req = ACK_ERROR then false_ack_wait e 0 else Some ());
          Some (True, s2)
        }
      })"

section \<open>End of a transaction\<close>

text \<open>
  What \<^verbatim>\<open>txn_finished_worker\<close> does with a valid packet, from the test of the first-packet
  bit to the label \<^verbatim>\<open>done\<close>. The copy into \<^verbatim>\<open>rcvd_payload\<close> has no check of its own in
  the source: where it does not fit, the code writes past the array.
\<close>

definition rx_store :: "u16 \<Rightarrow> u8 list \<Rightarrow> mods_spi_dl_s \<Rightarrow> mods_spi_dl_s option" where
  "rx_store bitmask payload s =
     (if rcvd_payload_idx s \<ge> MODS_DL_PAYLOAD_MAX_SZ
      then Some (s\<lparr>rcvd_payload_idx := 0, pkts_remaining := 0\<rparr>)
      else if rcvd_payload_idx s + length payload > length (rcvd_payload s) then None
      else
        (let s1 = s\<lparr>rcvd_payload := memcpy_at (rcvd_payload_idx s) payload (rcvd_payload s),
                    rcvd_payload_idx := rcvd_payload_idx s + length payload\<rparr>;
             msg = take (rcvd_payload_idx s1) (rcvd_payload s1)
         in if bitmask AND HDR_BIT_PKTS \<noteq> 0 then Some s1
            else if bitmask AND HDR_BIT_TYPE = MSG_TYPE_DL
                 then do { (_, s2) \<leftarrow> dl_recv msg s1; Some (s2\<lparr>rcvd_payload_idx := 0\<rparr>) }
                 else Some (s1\<lparr>delivered := delivered s1 @ [msg], rcvd_payload_idx := 0\<rparr>)))"

definition rx_packet :: "u16 \<Rightarrow> u8 list \<Rightarrow> mods_spi_dl_s \<Rightarrow> mods_spi_dl_s option" where
  "rx_packet bitmask payload s =
     (if bitmask AND HDR_BIT_PKT1 \<noteq> 0
      then rx_store bitmask payload
             (s\<lparr>rcvd_payload_idx := 0, pkts_remaining := ucast (bitmask AND HDR_BIT_PKTS)\<rparr>)
      else if rcvd_payload_idx s = 0 then Some s
      else
        (let remaining = pkts_remaining s - 1
         in if bitmask AND HDR_BIT_PKTS \<noteq> ucast remaining
            then Some (s\<lparr>rcvd_payload_idx := 0, pkts_remaining := 0\<rparr>)
            else rx_store bitmask payload (s\<lparr>pkts_remaining := remaining\<rparr>)))"

definition classify :: "u16 \<Rightarrow> ack" where
  "classify bitmask =
     (let b = bitmask AND (HDR_BIT_VALID OR HDR_BIT_DUMMY)
      in if b = HDR_BIT_VALID then ACK_NEEDED
         else if b = HDR_BIT_DUMMY then ACK_NOT_NEEDED else ACK_ERROR)"

definition txn_finished_worker :: "dl_env \<Rightarrow> mods_spi_dl_s \<Rightarrow> mods_spi_dl_s option" where
  "txn_finished_worker e s =
     do { rx \<leftarrow> rx_buf s;
          let bitmask = le16_at rx 0;
          let pl_size = PL_SIZE (pkt_size s);
          let ack_req = classify bitmask;
          (ok, s1) \<leftarrow> ack_handler e ack_req (deassert_rfr_int s);
          s2 \<leftarrow> (if ok then reset_txc_rb_entry s1 else Some s1);
          let s3 = s2\<lparr>xfer_setup := False\<rparr>;
          s4 \<leftarrow>
            (if ack_req \<noteq> ACK_NEEDED
             then (if new_pkt_size s3 > 0 \<and> txp_rb s3 = txc_rb s3
                   then do { t \<leftarrow> set_pkt_size e (new_pkt_size s3) s3; Some (t\<lparr>new_pkt_size := 0\<rparr>) }
                   else Some s3)
             else rx_packet bitmask (take pl_size (drop HDR_SIZE rx)) s3);
          xfer e s4 }"

definition txn_error_worker :: "dl_env \<Rightarrow> mods_spi_dl_s \<Rightarrow> mods_spi_dl_s option" where
  "txn_error_worker e s =
     do { (ok, s1) \<leftarrow> ack_handler e ACK_ERROR (deassert_rfr_int s);
          s2 \<leftarrow> (if ok then reset_txc_rb_entry s1 else Some s1);
          xfer e (s2\<lparr>rcvd_payload_idx := 0, pkts_remaining := 0, xfer_setup := False\<rparr>) }"

definition wake_worker :: "dl_env \<Rightarrow> mods_spi_dl_s \<Rightarrow> mods_spi_dl_s option" where
  "wake_worker e s = xfer e s"

section \<open>Interrupts, the worker thread, power management, initialisation\<close>

definition txn_finished_cb :: "mods_spi_dl_s \<Rightarrow> mods_spi_dl_s" where
  "txn_finished_cb = dl_work_queue Tend_work"

definition txn_error_cb :: "mods_spi_dl_s \<Rightarrow> mods_spi_dl_s" where
  "txn_error_cb = dl_work_queue Terr_work"

definition wake_isr :: "mods_spi_dl_s \<Rightarrow> mods_spi_dl_s" where
  "wake_isr s = (if bstate s \<noteq> BASE_ATTACHED then s else dl_work_queue Wake_work s)"

fun run_work :: "dl_env \<Rightarrow> work \<Rightarrow> mods_spi_dl_s \<Rightarrow> mods_spi_dl_s option" where
  "run_work e Wake_work s = wake_worker e s"
| "run_work e Tend_work s = txn_finished_worker e s"
| "run_work e Terr_work s = txn_error_worker e s"

text \<open>One pass of the inner loop of \<^verbatim>\<open>work_process_thread\<close>, on the head of the queue.\<close>

definition work_process :: "dl_env \<Rightarrow> mods_spi_dl_s \<Rightarrow> mods_spi_dl_s option" where
  "work_process e s =
     (case work_q s of
        [] \<Rightarrow> Some s
      | w # q \<Rightarrow>
          (let s1 = s\<lparr>work_q := q\<rparr>
           in if queued s1 w then run_work e w (s1\<lparr>queued := (queued s1)(w := False)\<rparr>)
              else Some s1))"

datatype pm_state_e = PM_NORMAL | PM_IDLE | PM_STANDBY | PM_SLEEP

definition pm_prepare :: "bool \<Rightarrow> pm_state_e \<Rightarrow> mods_spi_dl_s \<Rightarrow> int" where
  "pm_prepare wake_line state s =
     (if state \<noteq> PM_NORMAL \<and> (\<not> wake_line \<or> rfr s) then - EIO else OK)"

text \<open>
  The driver's static instance before initialisation, and what \<^verbatim>\<open>mods_dl_init\<close> makes of it.
  \<^verbatim>\<open>mods_attach_register\<close> calls back at once with the current state of the base.
\<close>

definition mods_spi_dl :: "rb_heap \<Rightarrow> mods_spi_dl_s" where
  "mods_spi_dl H =
     \<lparr>heap = H, bstate = BASE_DETACHED, xfer_setup = False, pkt_size = 0, new_pkt_size = 0,
      proto_ver = 0, work_q = [], queued = (\<lambda>_. False), ack_supported = False, tack_cfg = None,
      rack_cfg = None, tx_tries_remaining = 0, txp_rb = None, txc_rb = None, rx_buf = None,
      rcvd_payload = replicate MODS_DL_PAYLOAD_MAX_SZ 0, rcvd_payload_idx = 0,
      pkts_remaining = 0, tack_pin = Spi_function, rack_pin = Spi_function, rfr = False,
      host_int = False, spi_tx = None, delivered = []\<rparr>"

definition mods_dl_init :: "dl_env \<Rightarrow> base_attached_e \<Rightarrow> mods_spi_dl_s \<Rightarrow> mods_spi_dl_s option" where
  "mods_dl_init e base s =
     do { s1 \<leftarrow> set_pkt_size e (PKT_SIZE DEFAULT_PAYLOAD_SZ) s;
          attach_cb e base (s1\<lparr>rfr := False\<rparr>) }"

end
