(* ===== verification/GbCore.thy ===== *)
theory GbCore
  imports Rtr Datalink
begin

text \<open>
  The greybus core, \<^verbatim>\<open>drivers/greybus/greybus-core.c\<close>: operations with reference counts, the
  queues of every cport, the search for a handler, sending of requests and responses, time-outs,
  registration of drivers and the tape. Operations and cport entries live on stores indexed by
  pointers, 0 being the null pointer; \<open>None\<close> is an access through a pointer that is not allocated
  or outside a buffer. Queues are sequences of operations, as the list package provides them; a node
  is never in two queues. Drivers, callbacks, the transport, the clock and memory are parameters
  acting on the state. The parts guarded by disabled interrupts are single steps.
\<close>

section \<open>Data\<close>

record timespec =
  tv_sec :: int
  tv_nsec :: int

text \<open>A callback is the one of a synchronous request, or one of a driver.\<close>

datatype 'cb gb_callback = Callback_sync | Callback 'cb

record 'cb gb_operation =
  cport :: u32
  has_responded :: bool
  ref_count :: u32
  op_time :: timespec
  request_buffer :: "u8 list option"
  response_buffer :: "u8 list option"
  callback :: "'cb gb_callback option"
  sync_sem :: nat
  response :: addr

record gb_operation_handler =
  otype :: u8
  fast :: bool

record gb_driver =
  op_handlers :: "gb_operation_handler list option"
  op_handlers_count :: nat
  stack_size :: nat

text \<open>What is queued for the worker of a cport: an operation, or the cport's own time-out operation.\<close>

datatype rx_item = Rx_op addr | Rx_timedout

record gb_cport_driver =
  driver :: addr
  tx_fifo :: "addr list"
  rx_fifo :: "rx_item list"
  rx_fifo_lock :: nat
  exit_worker :: bool
  timeout_wd :: bool
  entry_cport :: u16

text \<open>
  The state of the core. \<open>drivers\<close> are the driver structures, \<open>gb_tape_fd\<close> the descriptor of a tape
  that records, and \<open>gb_world\<close> everything the parameters act on.
\<close>

record ('cb, 'w) gb =
  cport_mem :: rtr_mem
  cport_tbl :: addr
  centries :: "addr \<rightharpoonup> gb_cport_driver"
  gb_ops :: "addr \<rightharpoonup> 'cb gb_operation"
  drivers :: "addr \<Rightarrow> gb_driver"
  request_id :: u32
  backend :: bool
  gb_tape :: bool
  gb_tape_fd :: int
  gb_world :: 'w

text \<open>
  The parameters. A driver's handlers and life-cycle operations and the callback of a request act on
  the whole state. \<open>null_write_ok\<close> says whether the processor lets the write of \<^verbatim>\<open>exit_worker\<close>
  through the null pointer pass, \<open>alloc_buf\<close> whether the transport has a buffer of the size, which is
  then zeroed, as \<^verbatim>\<open>zalloc\<close> does for the transport of the module. \<open>sync_wait\<close> is what the other
  threads do until the semaphore of a synchronous request has been waited for, and the result of the
  wait.
\<close>

record ('cb, 'w) gb_env =
  zalloc_tbl :: "rtr_mem \<Rightarrow> addr"
  zalloc_entry :: "(addr \<rightharpoonup> gb_cport_driver) \<Rightarrow> addr"
  malloc_op :: "(addr \<rightharpoonup> 'cb gb_operation) \<Rightarrow> addr"
  alloc_buf :: "nat \<Rightarrow> 'w \<Rightarrow> bool"
  headroom :: nat
  gb_send :: "u32 \<Rightarrow> u8 list \<Rightarrow> 'w \<Rightarrow> (int \<times> 'w) option"
  backend_listen :: "u32 \<Rightarrow> 'w \<Rightarrow> int \<times> 'w"
  backend_stop_listening :: "(u32 \<Rightarrow> 'w \<Rightarrow> int \<times> 'w) option"
  backend_init :: "'w \<Rightarrow> 'w option"
  backend_exit :: "('w \<Rightarrow> 'w) option"
  gettime :: "'w \<Rightarrow> timespec"
  null_write_ok :: bool
  attr_init_ret :: int
  attr_setstacksize_ret :: "nat \<Rightarrow> int"
  thread_ret :: int
  drv_init :: "addr \<Rightarrow> (u32 \<Rightarrow> ('cb, 'w) gb \<Rightarrow> int \<times> ('cb, 'w) gb) option"
  drv_exit :: "addr \<Rightarrow> (u32 \<Rightarrow> ('cb, 'w) gb \<Rightarrow> ('cb, 'w) gb) option"
  drv_connected :: "addr \<Rightarrow> (u32 \<Rightarrow> ('cb, 'w) gb \<Rightarrow> ('cb, 'w) gb) option"
  drv_disconnected :: "addr \<Rightarrow> (u32 \<Rightarrow> ('cb, 'w) gb \<Rightarrow> ('cb, 'w) gb) option"
  run_handler :: "addr \<Rightarrow> u8 \<Rightarrow> addr \<Rightarrow> ('cb, 'w) gb \<Rightarrow> u8 \<times> ('cb, 'w) gb"
  run_fast :: "addr \<Rightarrow> u8 \<Rightarrow> u32 \<Rightarrow> u8 list \<Rightarrow> ('cb, 'w) gb \<Rightarrow> ('cb, 'w) gb"
  run_callback :: "'cb \<Rightarrow> addr \<Rightarrow> ('cb, 'w) gb \<Rightarrow> ('cb, 'w) gb"
  sync_wait :: "addr \<Rightarrow> ('cb, 'w) gb \<Rightarrow> int \<times> ('cb, 'w) gb"
  tape_write :: "int \<Rightarrow> u8 list \<Rightarrow> 'w \<Rightarrow> 'w"

section \<open>Constants and headers\<close>

definition MODS_VENDOR_CTRL_CPORT :: int where "MODS_VENDOR_CTRL_CPORT = 0xffff"
definition DEFAULT_STACK_SIZE :: nat where "DEFAULT_STACK_SIZE = 1024"
definition GB_INVALID_TYPE :: u8 where "GB_INVALID_TYPE = 0"
definition GB_TYPE_RESPONSE_FLAG :: u8 where "GB_TYPE_RESPONSE_FLAG = 0x80"
definition TIMEOUT_IN_MS :: int where "TIMEOUT_IN_MS = 1000"
definition ONE_SEC_IN_MSEC :: int where "ONE_SEC_IN_MSEC = 1000"
definition ONE_MSEC_IN_NSEC :: int where "ONE_MSEC_IN_NSEC = 1000000"

definition GB_OP_SUCCESS :: u8 where "GB_OP_SUCCESS = 0x00"
definition GB_OP_INTERRUPTED :: u8 where "GB_OP_INTERRUPTED = 0x01"
definition GB_OP_TIMEOUT :: u8 where "GB_OP_TIMEOUT = 0x02"
definition GB_OP_NO_MEMORY :: u8 where "GB_OP_NO_MEMORY = 0x03"
definition GB_OP_PROTOCOL_BAD :: u8 where "GB_OP_PROTOCOL_BAD = 0x04"
definition GB_OP_OVERFLOW :: u8 where "GB_OP_OVERFLOW = 0x05"
definition GB_OP_INVALID :: u8 where "GB_OP_INVALID = 0x06"
definition GB_OP_RETRY :: u8 where "GB_OP_RETRY = 0x07"
definition GB_OP_NONEXISTENT :: u8 where "GB_OP_NONEXISTENT = 0x08"
definition GB_OP_UNKNOWN_ERROR :: u8 where "GB_OP_UNKNOWN_ERROR = 0xfe"
definition GB_OP_INTERNAL :: u8 where "GB_OP_INTERNAL = 0xff"

text \<open>A message starts with its header: size and identifier (little endian), type, result, two bytes of padding.\<close>

definition gb_hdr_size :: nat where "gb_hdr_size = 8"

abbreviation hdr_size :: "u8 list \<Rightarrow> u16" where "hdr_size m \<equiv> le16_at m 0"
abbreviation hdr_id :: "u8 list \<Rightarrow> u16" where "hdr_id m \<equiv> le16_at m 2"
abbreviation hdr_type :: "u8 list \<Rightarrow> u8" where "hdr_type m \<equiv> m ! 4"
abbreviation hdr_result :: "u8 list \<Rightarrow> u8" where "hdr_result m \<equiv> m ! 5"

section \<open>Cports\<close>

definition g_cport_ptr :: "u32 \<Rightarrow> ('cb, 'w) gb \<Rightarrow> addr option" where
  "g_cport_ptr cp s = rtr_get_value (cport_mem s) (cport_tbl s) (ucast (cp AND 0xffff))"

definition g_cport :: "u32 \<Rightarrow> ('cb, 'w) gb \<Rightarrow> gb_cport_driver option" where
  "g_cport cp s = do { p \<leftarrow> g_cport_ptr cp s; centries s p }"

definition upd_cport :: "u32 \<Rightarrow> (gb_cport_driver \<Rightarrow> gb_cport_driver) \<Rightarrow> ('cb, 'w) gb \<Rightarrow> ('cb, 'w) gb option" where
  "upd_cport cp f s =
     do { p \<leftarrow> g_cport_ptr cp s; c \<leftarrow> centries s p; Some (s\<lparr>centries := (centries s)(p \<mapsto> f c)\<rparr>) }"

definition mods_cport_valid :: "int \<Rightarrow> bool" where
  "mods_cport_valid c = (c = MODS_VENDOR_CTRL_CPORT)"

text \<open>The count is an unsigned number initialised to \<^verbatim>\<open>-1\<close>, so the test for a negative count never holds.\<close>

definition gb_is_valid_cport :: "u32 \<Rightarrow> bool" where
  "gb_is_valid_cport cp =
     (let cport_count = (- 1 :: u32);
          cport_count = (if uint cport_count < 0 then of_nat unipro_cport_count else cport_count)
      in mods_cport_valid (sint cp) \<or> cp < cport_count)"

definition g_cport_add_entry :: "('cb, 'w) gb_env \<Rightarrow> u16 \<Rightarrow> addr \<Rightarrow> ('cb, 'w) gb \<Rightarrow> ('cb, 'w) gb option" where
  "g_cport_add_entry E cp drv s =
     (let entry = zalloc_entry E (centries s) in
      if entry = 0 then Some s
      else do {
        let c = \<lparr>driver = drv, tx_fifo = [], rx_fifo = [], rx_fifo_lock = 0, exit_worker = False,
                 timeout_wd = False, entry_cport = cp\<rparr>;
        H \<leftarrow> rtr_add_value (zalloc_tbl E) (cport_tbl s) cp entry (cport_mem s);
        Some (s\<lparr>centries := (centries s)(entry \<mapsto> c), cport_mem := H\<rparr>)
      })"

definition g_cport_remove_entry :: "u16 \<Rightarrow> ('cb, 'w) gb \<Rightarrow> ('cb, 'w) gb option" where
  "g_cport_remove_entry cp s =
     do { entry \<leftarrow> g_cport_ptr (ucast cp) s;
          if entry \<noteq> 0
          then do { H \<leftarrow> rtr_remove_value (cport_tbl s) cp (cport_mem s);
                    Some (s\<lparr>cport_mem := H, centries := (centries s)(entry := None)\<rparr>) }
          else Some s }"

definition gb_errno_to_op_result :: "int \<Rightarrow> u8" where
  "gb_errno_to_op_result err =
     (if err = 0 then GB_OP_SUCCESS
      else if err = ENOMEM \<or> err = - ENOMEM then GB_OP_NO_MEMORY
      else if err = EINTR \<or> err = - EINTR then GB_OP_INTERRUPTED
      else if err = ETIMEDOUT \<or> err = - ETIMEDOUT then GB_OP_TIMEOUT
      else if err = EPROTO \<or> err = - EPROTO \<or> err = ENOSYS \<or> err = - ENOSYS then GB_OP_PROTOCOL_BAD
      else if err = EINVAL \<or> err = - EINVAL then GB_OP_INVALID
      else if err = EOVERFLOW \<or> err = - EOVERFLOW then GB_OP_OVERFLOW
      else if err = ENODEV \<or> err = - ENODEV \<or> err = ENXIO \<or> err = - ENXIO then GB_OP_NONEXISTENT
      else if err = EBUSY \<or> err = - EBUSY then GB_OP_RETRY
      else GB_OP_UNKNOWN_ERROR)"

section \<open>Handlers\<close>

text \<open>
  The comparison of two handlers, and the table sorted with it: \<^verbatim>\<open>qsort\<close> orders the first \<open>count\<close>
  entries in place, and a count beyond the table is out of bounds. In which order \<^verbatim>\<open>qsort\<close> leaves
  handlers of the same type is not fixed; here they keep theirs.
\<close>

definition gb_compare_handlers :: "gb_operation_handler \<Rightarrow> gb_operation_handler \<Rightarrow> int" where
  "gb_compare_handlers h1 h2 = uint (otype h1) - uint (otype h2)"

fun insort_handler :: "gb_operation_handler \<Rightarrow> gb_operation_handler list \<Rightarrow> gb_operation_handler list" where
  "insort_handler h [] = [h]"
| "insort_handler h (x # xs) = (if gb_compare_handlers h x \<le> 0 then h # x # xs else x # insort_handler h xs)"

definition qsort_handlers :: "gb_operation_handler list \<Rightarrow> gb_operation_handler list" where
  "qsort_handlers hs = foldr insort_handler hs []"

text \<open>
  The binary search, over the bounds \<^verbatim>\<open>l\<close> and \<^verbatim>\<open>r\<close>. The bounds come from the count of the driver;
  a table shorter than its count is read out of bounds.
\<close>

function handler_search :: "gb_operation_handler list \<Rightarrow> u8 \<Rightarrow> int \<Rightarrow> int \<Rightarrow> gb_operation_handler option option" where
  "handler_search hs ty l r =
     (if l \<le> r
      then (let m = (l + r) div 2 in
            if m < 0 \<or> int (length hs) \<le> m then None
            else if otype (hs ! nat m) < ty then handler_search hs ty (m + 1) r
            else if otype (hs ! nat m) > ty then handler_search hs ty l (m - 1)
            else Some (Some (hs ! nat m)))
      else Some None)"
  by pat_completeness auto
termination by (relation "measure (\<lambda>(hs, ty, l, r). nat (r - l + 1))") auto

declare handler_search.simps [simp del]

definition find_operation_handler :: "u8 \<Rightarrow> u32 \<Rightarrow> ('cb, 'w) gb \<Rightarrow> gb_operation_handler option option" where
  "find_operation_handler ty cp s =
     do { c \<leftarrow> g_cport cp s;
          if driver c = 0 then (if ty = GB_INVALID_TYPE then Some None else None)
          else if ty = GB_INVALID_TYPE then Some None
          else case op_handlers (drivers s (driver c)) of
            None \<Rightarrow> Some None
          | Some hs \<Rightarrow> handler_search hs ty 0 (int (op_handlers_count (drivers s (driver c))) - 1) }"

section \<open>Operations\<close>

definition gb_operation_ref :: "addr \<Rightarrow> ('cb, 'w) gb \<Rightarrow> ('cb, 'w) gb option" where
  "gb_operation_ref op s =
     do { x \<leftarrow> gb_ops s op; Some (s\<lparr>gb_ops := (gb_ops s)(op \<mapsto> x\<lparr>ref_count := ref_count x + 1\<rparr>)\<rparr>) }"

text \<open>Dropping the last reference frees the operation and drops the reference to its response.\<close>

partial_function (option) gb_operation_unref :: "addr \<Rightarrow> ('cb, 'w) gb \<Rightarrow> ('cb, 'w) gb option" where
  "gb_operation_unref op s =
     do { x \<leftarrow> gb_ops s op;
          let n = ref_count x - 1;
          if n \<noteq> 0 then Some (s\<lparr>gb_ops := (gb_ops s)(op \<mapsto> x\<lparr>ref_count := n\<rparr>)\<rparr>)
          else do {
            s1 \<leftarrow> (if response x \<noteq> 0
                   then gb_operation_unref (response x) (s\<lparr>gb_ops := (gb_ops s)(op \<mapsto> x\<lparr>ref_count := n\<rparr>)\<rparr>)
                   else Some s);
            Some (s1\<lparr>gb_ops := (gb_ops s1)(op := None)\<rparr>)
          } }"

definition gb_operation_destroy :: "addr \<Rightarrow> ('cb, 'w) gb \<Rightarrow> ('cb, 'w) gb option" where
  "gb_operation_destroy op s = gb_operation_unref op s"

text \<open>The structure of an operation without its buffer; the null pointer is 0.\<close>

definition operation_create :: "('cb, 'w) gb_env \<Rightarrow> u32 \<Rightarrow> ('cb, 'w) gb \<Rightarrow> addr \<times> ('cb, 'w) gb" where
  "operation_create E cp s =
     (if \<not> gb_is_valid_cport cp then (0, s)
      else
        (let op = malloc_op E (gb_ops s) in
         if op = 0 then (0, s)
         else (op, s\<lparr>gb_ops := (gb_ops s)(op \<mapsto>
                 \<lparr>cport = cp, has_responded = False, ref_count = 1, op_time = \<lparr>tv_sec = 0, tv_nsec = 0\<rparr>,
                  request_buffer = None, response_buffer = None, callback = None, sync_sem = 0,
                  response = 0\<rparr>)\<rparr>)))"

text \<open>The size of the buffer is computed on 32 bits; a size that wraps leaves no room for the header.\<close>

definition gb_operation_create ::
    "('cb, 'w) gb_env \<Rightarrow> u32 \<Rightarrow> u8 \<Rightarrow> u32 \<Rightarrow> ('cb, 'w) gb \<Rightarrow> (addr \<times> ('cb, 'w) gb) option" where
  "gb_operation_create E cp ty req_size s =
     (if \<not> gb_is_valid_cport cp then Some (0, s)
      else
        (let (op, s1) = operation_create E cp s;
             n = unat (req_size + of_nat gb_hdr_size + of_nat (headroom E))
         in if op = 0 then Some (0, s1)
            else if \<not> alloc_buf E n (gb_world s1) then Some (0, s1\<lparr>gb_ops := (gb_ops s1)(op := None)\<rparr>)
            else if n < gb_hdr_size + headroom E then None
            else do {
              x \<leftarrow> gb_ops s1 op;
              let buf = (put_le16 0 (ucast (req_size + of_nat gb_hdr_size)) (replicate (n - headroom E) 0))[4 := ty];
              Some (op, s1\<lparr>gb_ops := (gb_ops s1)(op \<mapsto> x\<lparr>request_buffer := Some buf\<rparr>)\<rparr>)
            }))"

definition gb_operation_get_request_payload_size :: "addr \<Rightarrow> ('cb, 'w) gb \<Rightarrow> nat option" where
  "gb_operation_get_request_payload_size op s =
     (if op = 0 then Some 0
      else do {
        x \<leftarrow> gb_ops s op;
        Some (case request_buffer x of
                None \<Rightarrow> 0
              | Some m \<Rightarrow> if unat (hdr_size m) < gb_hdr_size then 0 else unat (hdr_size m) - gb_hdr_size) })"

definition gb_operation_get_request_result :: "addr \<Rightarrow> ('cb, 'w) gb \<Rightarrow> u8 option" where
  "gb_operation_get_request_result op s =
     (if op = 0 then Some GB_OP_INTERNAL
      else do {
        x \<leftarrow> gb_ops s op;
        if response x = 0 then Some GB_OP_TIMEOUT
        else do {
          y \<leftarrow> gb_ops s (response x);
          Some (case request_buffer y of
                  None \<Rightarrow> GB_OP_INTERNAL
                | Some m \<Rightarrow> if unat (hdr_size m) < gb_hdr_size then GB_OP_INTERNAL else hdr_result m)
        } })"

text \<open>Handing a buffer to the transport reads as many bytes as the size field says.\<close>

definition send_buffer :: "('cb, 'w) gb_env \<Rightarrow> u32 \<Rightarrow> u8 list \<Rightarrow> ('cb, 'w) gb \<Rightarrow> (int \<times> ('cb, 'w) gb) option" where
  "send_buffer E cp m s =
     (if unat (hdr_size m) > length m then None
      else do { (r, w) \<leftarrow> gb_send E cp (take (unat (hdr_size m)) m) (gb_world s); Some (r, s\<lparr>gb_world := w\<rparr>) })"

definition gb_operation_alloc_response ::
    "('cb, 'w) gb_env \<Rightarrow> addr \<Rightarrow> u32 \<Rightarrow> ('cb, 'w) gb \<Rightarrow> (bool \<times> ('cb, 'w) gb) option" where
  "gb_operation_alloc_response E op psize s =
     do { x \<leftarrow> gb_ops s op;
          let n = unat (psize + of_nat gb_hdr_size + of_nat (headroom E));
          if \<not> alloc_buf E n (gb_world s) then Some (False, s)
          else if n < gb_hdr_size + headroom E then None
          else do {
            req \<leftarrow> request_buffer x;
            let m = replicate (n - headroom E) 0;
            let m1 = (put_le16 2 (hdr_id req) (put_le16 0 (ucast (psize + of_nat gb_hdr_size)) m))
                       [4 := GB_TYPE_RESPONSE_FLAG OR hdr_type req];
            Some (True, s\<lparr>gb_ops := (gb_ops s)(op \<mapsto> x\<lparr>response_buffer := Some m1\<rparr>)\<rparr>)
          } }"

text \<open>The response for want of memory uses a header allocated at the start.\<close>

definition gb_operation_send_oom_response ::
    "('cb, 'w) gb_env \<Rightarrow> addr \<Rightarrow> ('cb, 'w) gb \<Rightarrow> (int \<times> ('cb, 'w) gb) option" where
  "gb_operation_send_oom_response E op s =
     do { x \<leftarrow> gb_ops s op;
          c \<leftarrow> g_cport (cport x) s;
          if exit_worker c then Some (- ENETDOWN, s)
          else do {
            req \<leftarrow> request_buffer x;
            let oom = le16_bytes (of_nat gb_hdr_size) @ le16_bytes (hdr_id req) @
                      [GB_TYPE_RESPONSE_FLAG OR hdr_type req, GB_OP_NO_MEMORY, 0, 0];
            send_buffer E (cport x) oom s
          } }"

definition gb_operation_send_response ::
    "('cb, 'w) gb_env \<Rightarrow> addr \<Rightarrow> u8 \<Rightarrow> ('cb, 'w) gb \<Rightarrow> (int \<times> ('cb, 'w) gb) option" where
  "gb_operation_send_response E op result s =
     do { x \<leftarrow> gb_ops s op;
          c \<leftarrow> g_cport (cport x) s;
          if exit_worker c then Some (- ENETDOWN, s)
          else if has_responded x then Some (- EINVAL, s)
          else do {
            let has_allocated_response = (response_buffer x = None);
            (ok, s1) \<leftarrow> (if has_allocated_response then gb_operation_alloc_response E op 0 s else Some (True, s));
            if \<not> ok then gb_operation_send_oom_response E op s1
            else do {
              x1 \<leftarrow> gb_ops s1 op;
              m \<leftarrow> response_buffer x1;
              let m1 = m[5 := result];
              let s2 = s1\<lparr>gb_ops := (gb_ops s1)(op \<mapsto> x1\<lparr>response_buffer := Some m1\<rparr>)\<rparr>;
              (retval, s3) \<leftarrow> send_buffer E (cport x1) m1 s2;
              x3 \<leftarrow> gb_ops s3 op;
              Some (retval, s3\<lparr>gb_ops := (gb_ops s3)(op \<mapsto>
                (if retval \<noteq> 0
                 then if has_allocated_response then x3\<lparr>response_buffer := None\<rparr> else x3
                 else x3\<lparr>has_responded := True\<rparr>))\<rparr>)
            }
          } }"

section \<open>Watchdog and time-outs\<close>

definition gb_operation_has_timedout :: "timespec \<Rightarrow> timespec \<Rightarrow> bool" where
  "gb_operation_has_timedout current start =
     (let timeout_sec = tv_sec start + TIMEOUT_IN_MS div ONE_SEC_IN_MSEC;
          timeout_nsec = tv_nsec start + (TIMEOUT_IN_MS mod ONE_SEC_IN_MSEC) * ONE_MSEC_IN_NSEC
      in if tv_sec current > timeout_sec then True
         else if tv_sec current < timeout_sec then False
         else tv_nsec current > timeout_nsec)"

definition gb_watchdog_update :: "u32 \<Rightarrow> ('cb, 'w) gb \<Rightarrow> ('cb, 'w) gb option" where
  "gb_watchdog_update cp s = upd_cport cp (\<lambda>c. c\<lparr>timeout_wd := tx_fifo c \<noteq> []\<rparr>) s"

definition del_request :: "u32 \<Rightarrow> addr \<Rightarrow> ('cb, 'w) gb \<Rightarrow> ('cb, 'w) gb option" where
  "del_request cp op s = upd_cport cp (\<lambda>c. c\<lparr>tx_fifo := remove1 op (tx_fifo c)\<rparr>) s"

text \<open>The callback of a synchronous request posts its semaphore.\<close>

definition gb_operation_callback_sync :: "addr \<Rightarrow> ('cb, 'w) gb \<Rightarrow> ('cb, 'w) gb option" where
  "gb_operation_callback_sync op s =
     do { x \<leftarrow> gb_ops s op; Some (s\<lparr>gb_ops := (gb_ops s)(op \<mapsto> x\<lparr>sync_sem := Suc (sync_sem x)\<rparr>)\<rparr>) }"

definition complete :: "('cb, 'w) gb_env \<Rightarrow> addr \<Rightarrow> ('cb, 'w) gb \<Rightarrow> ('cb, 'w) gb option" where
  "complete E op s =
     do { x \<leftarrow> gb_ops s op;
          case callback x of
            None \<Rightarrow> Some s
          | Some Callback_sync \<Rightarrow> gb_operation_callback_sync op s
          | Some (Callback cb) \<Rightarrow> Some (run_callback E cb op s) }"

text \<open>
  The successor of a node: the head is \<open>None\<close>, the last node is followed by the head, and a node
  that was taken out of its list is its own successor.
\<close>

fun next_node :: "addr list \<Rightarrow> addr \<Rightarrow> addr option" where
  "next_node [] n = Some n"
| "next_node (x # xs) n = (if x = n then (case xs of [] \<Rightarrow> None | y # _ \<Rightarrow> Some y) else next_node xs n)"

definition first_node :: "addr list \<Rightarrow> addr option" where
  "first_node xs = (case xs of [] \<Rightarrow> None | x # _ \<Rightarrow> Some x)"

definition after :: "addr list \<Rightarrow> addr option \<Rightarrow> addr option" where
  "after xs n = (case n of None \<Rightarrow> first_node xs | Some x \<Rightarrow> next_node xs x)"

partial_function (option) clean_loop ::
    "('cb, 'w) gb_env \<Rightarrow> u32 \<Rightarrow> addr option \<Rightarrow> addr option \<Rightarrow> ('cb, 'w) gb \<Rightarrow> ('cb, 'w) gb option" where
  "clean_loop E cp iter iter_next s =
     (case iter of
        None \<Rightarrow> Some s
      | Some op \<Rightarrow> do {
          x \<leftarrow> gb_ops s op;
          s1 \<leftarrow> (if \<not> gb_operation_has_timedout (gettime E (gb_world s)) (op_time x) then Some s
                 else do {
                   s2 \<leftarrow> del_request cp op s;
                   s3 \<leftarrow> complete E op s2;
                   gb_operation_unref op s3
                 });
          c \<leftarrow> g_cport cp s1;
          clean_loop E cp iter_next (after (tx_fifo c) iter_next) s1
        })"

definition gb_clean_timedout_operation :: "('cb, 'w) gb_env \<Rightarrow> u32 \<Rightarrow> ('cb, 'w) gb \<Rightarrow> ('cb, 'w) gb option" where
  "gb_clean_timedout_operation E cp s =
     do { c \<leftarrow> g_cport cp s;
          let iter = first_node (tx_fifo c);
          s1 \<leftarrow> clean_loop E cp iter (after (tx_fifo c) iter) s;
          gb_watchdog_update cp s1 }"

definition gb_operation_timeout :: "u32 \<Rightarrow> ('cb, 'w) gb \<Rightarrow> ('cb, 'w) gb option" where
  "gb_operation_timeout cp s =
     do { c \<leftarrow> g_cport cp s;
          if Rx_timedout \<in> set (rx_fifo c) then Some s
          else upd_cport cp (\<lambda>c. c\<lparr>rx_fifo := rx_fifo c @ [Rx_timedout], rx_fifo_lock := Suc (rx_fifo_lock c)\<rparr>) s }"

section \<open>Processing\<close>

text \<open>The handler may change the request, whose identifier is read after it has run.\<close>

definition gb_process_request :: "('cb, 'w) gb_env \<Rightarrow> u8 list \<Rightarrow> addr \<Rightarrow> ('cb, 'w) gb \<Rightarrow> ('cb, 'w) gb option" where
  "gb_process_request E hdr op s =
     do { x \<leftarrow> gb_ops s op;
          h \<leftarrow> find_operation_handler (hdr_type hdr) (cport x) s;
          case h of
            None \<Rightarrow> map_option snd (gb_operation_send_response E op GB_OP_INVALID s)
          | Some h \<Rightarrow> do {
              c \<leftarrow> g_cport (cport x) s;
              let (result, s1) = run_handler E (driver c) (otype h) op s;
              x1 \<leftarrow> gb_ops s1 op;
              hdr1 \<leftarrow> request_buffer x1;
              if hdr_id hdr1 \<noteq> 0 then map_option snd (gb_operation_send_response E op result s1) else Some s1
            } }"

text \<open>The first request in the queue with the identifier of the response.\<close>

fun matching_request :: "u16 \<Rightarrow> addr list \<Rightarrow> ('cb, 'w) gb \<Rightarrow> addr option option" where
  "matching_request i [] s = Some None"
| "matching_request i (op # ops) s =
     do { x \<leftarrow> gb_ops s op;
          m \<leftarrow> request_buffer x;
          if hdr_id m = i then Some (Some op) else matching_request i ops s }"

definition gb_process_response :: "('cb, 'w) gb_env \<Rightarrow> u8 list \<Rightarrow> addr \<Rightarrow> ('cb, 'w) gb \<Rightarrow> ('cb, 'w) gb option" where
  "gb_process_response E hdr operation s =
     do { y \<leftarrow> gb_ops s operation;
          c \<leftarrow> g_cport (cport y) s;
          r \<leftarrow> matching_request (hdr_id hdr) (tx_fifo c) s;
          case r of
            None \<Rightarrow> Some s
          | Some op \<Rightarrow> do {
              s1 \<leftarrow> del_request (cport y) op s;
              s2 \<leftarrow> gb_watchdog_update (cport y) s1;
              s3 \<leftarrow> gb_operation_ref operation s2;
              x \<leftarrow> gb_ops s3 op;
              let s4 = s3\<lparr>gb_ops := (gb_ops s3)(op \<mapsto> x\<lparr>response := operation\<rparr>)\<rparr>;
              s5 \<leftarrow> complete E op s4;
              gb_operation_unref op s5
            } }"

text \<open>
  One round of the worker of a cport, woken by its semaphore; the flag says that it ends. While the
  semaphore is 0 the worker waits and has no round.
\<close>

definition gb_pending_message_worker :: "('cb, 'w) gb_env \<Rightarrow> u32 \<Rightarrow> ('cb, 'w) gb \<Rightarrow> (bool \<times> ('cb, 'w) gb) option" where
  "gb_pending_message_worker E cp s0 =
     do { c0 \<leftarrow> g_cport cp s0;
          _ \<leftarrow> (if rx_fifo_lock c0 = 0 then None else Some ());
          s \<leftarrow> upd_cport cp (\<lambda>c. c\<lparr>rx_fifo_lock := rx_fifo_lock c - 1\<rparr>) s0;
          c \<leftarrow> g_cport cp s;
          if exit_worker c \<and> rx_fifo c = [] then Some (True, s)
          else case rx_fifo c of
            [] \<Rightarrow> None
          | item # rest \<Rightarrow> do {
              s1 \<leftarrow> upd_cport cp (\<lambda>c. c\<lparr>rx_fifo := rest\<rparr>) s;
              case item of
                Rx_timedout \<Rightarrow> do { s2 \<leftarrow> gb_clean_timedout_operation E cp s1; Some (False, s2) }
              | Rx_op op \<Rightarrow> do {
                  x \<leftarrow> gb_ops s1 op;
                  hdr \<leftarrow> request_buffer x;
                  s2 \<leftarrow> (if hdr_type hdr AND GB_TYPE_RESPONSE_FLAG \<noteq> 0 then gb_process_response E hdr op s1
                         else gb_process_request E hdr op s1);
                  s3 \<leftarrow> gb_operation_destroy op s2;
                  Some (False, s3)
                }
            } }"

section \<open>Receiving\<close>

definition gb_rx_create_operation ::
    "('cb, 'w) gb_env \<Rightarrow> u32 \<Rightarrow> u8 list \<Rightarrow> nat \<Rightarrow> ('cb, 'w) gb \<Rightarrow> (addr \<times> ('cb, 'w) gb) option" where
  "gb_rx_create_operation E cp data n s =
     do { (op, s1) \<leftarrow> gb_operation_create E cp 0 (of_nat (n - gb_hdr_size)) s;
          if op = 0 then Some (0, s1)
          else do {
            x \<leftarrow> gb_ops s1 op;
            buf \<leftarrow> request_buffer x;
            if n > length buf \<or> n > length data then None
            else Some (op, s1\<lparr>gb_ops := (gb_ops s1)(op \<mapsto> x\<lparr>request_buffer := Some (memcpy_at 0 (take n data) buf)\<rparr>)\<rparr>)
          } }"

text \<open>The tape gets a record header (size and cport) and the message.\<close>

definition tape_record :: "('cb, 'w) gb_env \<Rightarrow> u32 \<Rightarrow> u8 list \<Rightarrow> ('cb, 'w) gb \<Rightarrow> ('cb, 'w) gb" where
  "tape_record E cp data s =
     (if gb_tape s \<and> gb_tape_fd s \<ge> 0
      then s\<lparr>gb_world := tape_write E (gb_tape_fd s) data (tape_write E (gb_tape_fd s)
               (le16_bytes (of_nat (length data)) @ le16_bytes (ucast cp)) (gb_world s))\<rparr>
      else s)"

text \<open>The data pointer may be null.\<close>

definition greybus_rx_handler :: "('cb, 'w) gb_env \<Rightarrow> u32 \<Rightarrow> u8 list option \<Rightarrow> ('cb, 'w) gb \<Rightarrow> (int \<times> ('cb, 'w) gb) option" where
  "greybus_rx_handler E cp buf s =
     (if \<not> gb_is_valid_cport cp then Some (- EINVAL, s)
      else do {
        p \<leftarrow> g_cport_ptr cp s;
        if p = 0 \<or> buf = None then Some (- EINVAL, s)
        else do {
          data \<leftarrow> buf;
          c \<leftarrow> centries s p;
          if driver c = 0 \<or> op_handlers (drivers s (driver c)) = None then Some (0, s)
          else if gb_hdr_size > length data then Some (- EINVAL, s)
          else
            (let size = unat (hdr_size data) in
             if size > length data \<or> gb_hdr_size > size then Some (- EINVAL, s)
             else do {
               let s1 = tape_record E cp data s;
               h \<leftarrow> find_operation_handler (hdr_type data) cp s1;
               if (case h of None \<Rightarrow> False | Some h \<Rightarrow> fast h)
               then Some (0, run_fast E (driver c) (hdr_type data) cp data s1)
               else do {
                 (op, s2) \<leftarrow> gb_rx_create_operation E cp data size s1;
                 if op = 0 then Some (- ENOMEM, s2)
                 else do {
                   s3 \<leftarrow> upd_cport cp (\<lambda>c. c\<lparr>rx_fifo := rx_fifo c @ [Rx_op op], rx_fifo_lock := Suc (rx_fifo_lock c)\<rparr>) s2;
                   Some (0, s3)
                 }
               }
             })
        }
      })"

section \<open>Sending\<close>

text \<open>
  Identifiers are the low 16 bits of a counter, and 0, which means that no response is wanted, is
  skipped.
\<close>

definition next_request_id :: "u32 \<Rightarrow> u16 \<times> u32" where
  "next_request_id n =
     (let n1 = n + 1 in if ucast n1 = (0 :: u16) then (ucast (n1 + 1), n1 + 1) else (ucast n1, n1))"

definition gb_operation_send_request ::
    "('cb, 'w) gb_env \<Rightarrow> addr \<Rightarrow> 'cb gb_callback option \<Rightarrow> bool \<Rightarrow> ('cb, 'w) gb \<Rightarrow> (int \<times> ('cb, 'w) gb) option" where
  "gb_operation_send_request E op cb need_response s =
     do { x \<leftarrow> gb_ops s op;
          c \<leftarrow> g_cport (cport x) s;
          if exit_worker c then Some (- ENETDOWN, s)
          else do {
            m \<leftarrow> request_buffer x;
            s1 \<leftarrow> (if need_response
                   then (let (i, n) = next_request_id (request_id s);
                             x1 = x\<lparr>request_buffer := Some (put_le16 2 i m), op_time := gettime E (gb_world s),
                                    callback := cb, ref_count := ref_count x + 1\<rparr>
                         in if op \<in> set (tx_fifo c) then None
                            else upd_cport (cport x) (\<lambda>c. c\<lparr>tx_fifo := tx_fifo c @ [op], timeout_wd := True\<rparr>)
                                   (s\<lparr>request_id := n, gb_ops := (gb_ops s)(op \<mapsto> x1)\<rparr>))
                   else Some (s\<lparr>gb_ops := (gb_ops s)(op \<mapsto> x\<lparr>request_buffer := Some (put_le16 2 0 m)\<rparr>)\<rparr>));
            x1 \<leftarrow> gb_ops s1 op;
            m1 \<leftarrow> request_buffer x1;
            (retval, s2) \<leftarrow> send_buffer E (cport x) m1 s1;
            if need_response \<and> retval \<noteq> 0
            then do { s3 \<leftarrow> del_request (cport x) op s2;
                      s4 \<leftarrow> gb_watchdog_update (cport x) s3;
                      s5 \<leftarrow> gb_operation_unref op s4;
                      Some (retval, s5) }
            else Some (retval, s2)
          } }"

definition gb_operation_send_request_sync ::
    "('cb, 'w) gb_env \<Rightarrow> addr \<Rightarrow> ('cb, 'w) gb \<Rightarrow> (int \<times> ('cb, 'w) gb) option" where
  "gb_operation_send_request_sync E op s =
     do { x \<leftarrow> gb_ops s op;
          (retval, s1) \<leftarrow> gb_operation_send_request E op (Some Callback_sync) True
                            (s\<lparr>gb_ops := (gb_ops s)(op \<mapsto> x\<lparr>sync_sem := 0\<rparr>)\<rparr>);
          Some (if retval \<noteq> 0 then (retval, s1) else sync_wait E op s1) }"

section \<open>Registration\<close>

fun flush_loop :: "addr list \<Rightarrow> u32 \<Rightarrow> ('cb, 'w) gb \<Rightarrow> ('cb, 'w) gb option" where
  "flush_loop [] cp s = Some s"
| "flush_loop (op # ops) cp s =
     do { s1 \<leftarrow> del_request cp op s; s2 \<leftarrow> gb_operation_unref op s1; flush_loop ops cp s2 }"

definition gb_flush_tx_fifo :: "u32 \<Rightarrow> ('cb, 'w) gb \<Rightarrow> ('cb, 'w) gb option" where
  "gb_flush_tx_fifo cp s = do { c \<leftarrow> g_cport cp s; flush_loop (tx_fifo c) cp s }"

text \<open>Waiting for the worker: it runs until it ends.\<close>

partial_function (option) join_worker :: "('cb, 'w) gb_env \<Rightarrow> u32 \<Rightarrow> ('cb, 'w) gb \<Rightarrow> ('cb, 'w) gb option" where
  "join_worker E cp s =
     do { (ended, s1) \<leftarrow> gb_pending_message_worker E cp s; if ended then Some s1 else join_worker E cp s1 }"

definition gb_unregister_driver :: "('cb, 'w) gb_env \<Rightarrow> u32 \<Rightarrow> ('cb, 'w) gb \<Rightarrow> (int \<times> ('cb, 'w) gb) option" where
  "gb_unregister_driver E cp s =
     (if \<not> gb_is_valid_cport cp then Some (- EINVAL, s)
      else do {
        p \<leftarrow> g_cport_ptr cp s;
        if p = 0 then Some (- EINVAL, s)
        else do {
          c \<leftarrow> centries s p;
          if driver c = 0 \<or> \<not> backend s then Some (- EINVAL, s)
          else do {
            let s1 = (case backend_stop_listening E of
                        None \<Rightarrow> s | Some f \<Rightarrow> s\<lparr>gb_world := snd (f cp (gb_world s))\<rparr>);
            s2 \<leftarrow> upd_cport cp (\<lambda>c. c\<lparr>timeout_wd := False, exit_worker := True, rx_fifo_lock := Suc (rx_fifo_lock c)\<rparr>) s1;
            s3 \<leftarrow> join_worker E cp s2;
            s4 \<leftarrow> gb_flush_tx_fifo cp s3;
            c4 \<leftarrow> g_cport cp s4;
            _ \<leftarrow> (if driver c4 = 0 then None else Some ());
            let s5 = (case drv_exit E (driver c4) of None \<Rightarrow> s4 | Some f \<Rightarrow> f cp s4);
            s6 \<leftarrow> upd_cport cp (\<lambda>c. c\<lparr>driver := 0\<rparr>) s5;
            Some (0, s6)
          }
        }
      })"

text \<open>
  Registration resets \<^verbatim>\<open>exit_worker\<close> of the cport before its entry is made: for a cport that was
  never registered that is a write through the null pointer.
\<close>

definition sort_handlers :: "addr \<Rightarrow> ('cb, 'w) gb \<Rightarrow> ('cb, 'w) gb option" where
  "sort_handlers drv s =
     (let d = drivers s drv in
      case op_handlers d of
        None \<Rightarrow> Some s
      | Some hs \<Rightarrow>
          if length hs < op_handlers_count d then None
          else Some (s\<lparr>drivers := (drivers s)(drv := d\<lparr>op_handlers :=
                 Some (qsort_handlers (take (op_handlers_count d) hs) @ drop (op_handlers_count d) hs)\<rparr>)\<rparr>))"

definition reset_exit_worker :: "('cb, 'w) gb_env \<Rightarrow> u32 \<Rightarrow> ('cb, 'w) gb \<Rightarrow> ('cb, 'w) gb option" where
  "reset_exit_worker E cp s =
     do { p \<leftarrow> g_cport_ptr cp s;
          if p = 0 then (if null_write_ok E then Some s else None)
          else upd_cport cp (\<lambda>c. c\<lparr>exit_worker := False\<rparr>) s }"

text \<open>
  The errors of setting up the thread end in the driver's \<^verbatim>\<open>exit\<close>. When no entry could be made for
  a new cport, the thread would be started through the null pointer.
\<close>

definition register_error :: "('cb, 'w) gb_env \<Rightarrow> u32 \<Rightarrow> addr \<Rightarrow> int \<Rightarrow> ('cb, 'w) gb \<Rightarrow> (int \<times> ('cb, 'w) gb) option" where
  "register_error E cp drv retval s = Some (retval, case drv_exit E drv of None \<Rightarrow> s | Some f \<Rightarrow> f cp s)"

definition gb_register_driver :: "('cb, 'w) gb_env \<Rightarrow> u32 \<Rightarrow> addr \<Rightarrow> ('cb, 'w) gb \<Rightarrow> (int \<times> ('cb, 'w) gb) option" where
  "gb_register_driver E cp drv s =
     (if \<not> gb_is_valid_cport cp then Some (- EINVAL, s)
      else if drv = 0 then Some (- EINVAL, s)
      else do {
        p \<leftarrow> g_cport_ptr cp s;
        busy \<leftarrow> (if p = 0 then Some False else map_option (\<lambda>c. driver c \<noteq> 0) (centries s p));
        if busy then Some (- EEXIST, s)
        else if op_handlers (drivers s drv) = None \<and> op_handlers_count (drivers s drv) > 0 then Some (- EINVAL, s)
        else do {
          let (r, s1) = (case drv_init E drv of None \<Rightarrow> (0, s) | Some f \<Rightarrow> f cp s);
          if r \<noteq> 0 then Some (r, s1)
          else do {
            s2 \<leftarrow> sort_handlers drv s1;
            s3 \<leftarrow> reset_exit_worker E cp s2;
            let d = drivers s3 drv;
            let stack = (if stack_size d = 0 then DEFAULT_STACK_SIZE else stack_size d);
            let s4 = s3\<lparr>drivers := (drivers s3)(drv := d\<lparr>stack_size := stack\<rparr>)\<rparr>;
            if attr_init_ret E \<noteq> 0 then register_error E cp drv (attr_init_ret E) s4
            else if attr_setstacksize_ret E stack \<noteq> 0
            then register_error E cp drv (attr_setstacksize_ret E stack) s4
            else do {
              s5 \<leftarrow> g_cport_add_entry E (ucast cp) 0 s4;
              c \<leftarrow> g_cport cp s5;
              if thread_ret E \<noteq> 0 then register_error E cp drv (thread_ret E) s5
              else do { s6 \<leftarrow> upd_cport cp (\<lambda>c. c\<lparr>driver := drv\<rparr>) s5; Some (0, s6) }
            }
          }
        }
      })"

definition gb_listen :: "('cb, 'w) gb_env \<Rightarrow> u32 \<Rightarrow> ('cb, 'w) gb \<Rightarrow> (int \<times> ('cb, 'w) gb) option" where
  "gb_listen E cp s =
     (if \<not> gb_is_valid_cport cp then Some (- EINVAL, s)
      else do {
        c \<leftarrow> g_cport cp s;
        if driver c = 0 then Some (- EINVAL, s)
        else (let (r, w) = backend_listen E cp (gb_world s) in Some (r, s\<lparr>gb_world := w\<rparr>)) })"

definition gb_stop_listening :: "('cb, 'w) gb_env \<Rightarrow> u32 \<Rightarrow> ('cb, 'w) gb \<Rightarrow> (int \<times> ('cb, 'w) gb) option" where
  "gb_stop_listening E cp s =
     (if \<not> gb_is_valid_cport cp then Some (- EINVAL, s)
      else do {
        c \<leftarrow> g_cport cp s;
        if driver c = 0 then Some (- EINVAL, s)
        else do { f \<leftarrow> backend_stop_listening E;
                  let (r, w) = f cp (gb_world s);
                  Some (r, s\<lparr>gb_world := w\<rparr>) } })"

section \<open>Start, end and events\<close>

text \<open>\<open>mem\<close> says whether each of the two headers could be allocated.\<close>

definition gb_init :: "('cb, 'w) gb_env \<Rightarrow> bool \<Rightarrow> bool \<times> bool \<Rightarrow> ('cb, 'w) gb \<Rightarrow> (int \<times> ('cb, 'w) gb) option" where
  "gb_init E transport mem s =
     (if \<not> transport then Some (- EINVAL, s)
      else if headroom E mod 4 \<noteq> 0 then Some (- EINVAL, s)
      else if \<not> fst mem then Some (- ENOMEM, s)
      else if \<not> snd mem then Some (- ENOMEM, s)
      else do {
        (root, H) \<leftarrow> rtr_alloc_table (zalloc_tbl E) (cport_mem s);
        w \<leftarrow> backend_init E (gb_world s);
        Some (0, s\<lparr>cport_tbl := root, cport_mem := H, request_id := 0, backend := True, gb_world := w\<rparr>)
      })"

text \<open>The loop of \<^verbatim>\<open>gb_deinit\<close>: the next entry is asked for after the current one has been removed.\<close>

partial_function (option) deinit_loop :: "('cb, 'w) gb_env \<Rightarrow> addr \<Rightarrow> ('cb, 'w) gb \<Rightarrow> ('cb, 'w) gb option" where
  "deinit_loop E v s =
     (if v = 0 then Some s
      else do {
        drv \<leftarrow> centries s v;
        let i = entry_cport drv;
        (_, s1) \<leftarrow> gb_unregister_driver E (ucast i) s;
        drv1 \<leftarrow> centries s1 v;
        s2 \<leftarrow> g_cport_remove_entry i (s1\<lparr>centries := (centries s1)(v \<mapsto> drv1\<lparr>timeout_wd := False\<rparr>)\<rparr>);
        v1 \<leftarrow> rtr_get_next_value (cport_mem s2) (cport_tbl s2) i;
        deinit_loop E v1 s2
      })"

definition gb_deinit :: "('cb, 'w) gb_env \<Rightarrow> ('cb, 'w) gb \<Rightarrow> ('cb, 'w) gb option" where
  "gb_deinit E s =
     (if \<not> backend s then Some s
      else do {
        v \<leftarrow> rtr_get_first_value (cport_mem s) (cport_tbl s);
        s1 \<leftarrow> deinit_loop E v s;
        Some (s1\<lparr>cport_mem := rtr_free_table (cport_tbl s1) (cport_mem s1), cport_tbl := 0, backend := False,
                 gb_world := (case backend_exit E of None \<Rightarrow> gb_world s1 | Some f \<Rightarrow> f (gb_world s1))\<rparr>)
      })"

datatype gb_event = GB_EVT_CONNECTED | GB_EVT_DISCONNECTED

definition gb_notify :: "('cb, 'w) gb_env \<Rightarrow> u32 \<Rightarrow> gb_event \<Rightarrow> ('cb, 'w) gb \<Rightarrow> (int \<times> ('cb, 'w) gb) option" where
  "gb_notify E cp event s =
     (if \<not> gb_is_valid_cport cp then Some (- EINVAL, s)
      else do {
        p \<leftarrow> g_cport_ptr cp s;
        if p = 0 then Some (- ENOTCONN, s)
        else do {
          c \<leftarrow> centries s p;
          if driver c = 0 then Some (- ENOTCONN, s)
          else Some (0, case (case event of GB_EVT_CONNECTED \<Rightarrow> drv_connected E (driver c)
                                          | GB_EVT_DISCONNECTED \<Rightarrow> drv_disconnected E (driver c)) of
                          None \<Rightarrow> s | Some f \<Rightarrow> f cp s)
        }
      })"

partial_function (option) notify_loop ::
    "('cb, 'w) gb_env \<Rightarrow> gb_event \<Rightarrow> addr \<Rightarrow> ('cb, 'w) gb \<Rightarrow> (int \<times> ('cb, 'w) gb) option" where
  "notify_loop E event v s =
     (if v = 0 then Some (0, s)
      else do {
        drv \<leftarrow> centries s v;
        (ret, s1) \<leftarrow> gb_notify E (ucast (entry_cport drv)) event s;
        if ret \<noteq> 0 then Some (ret, s1)
        else do {
          drv1 \<leftarrow> centries s1 v;
          v1 \<leftarrow> rtr_get_next_value (cport_mem s1) (cport_tbl s1) (entry_cport drv1);
          notify_loop E event v1 s1
        }
      })"

definition gb_notify_all :: "('cb, 'w) gb_env \<Rightarrow> gb_event \<Rightarrow> ('cb, 'w) gb \<Rightarrow> (int \<times> ('cb, 'w) gb) option" where
  "gb_notify_all E event s =
     (if cport_tbl s = 0 then Some (- ENODEV, s)
      else do { v \<leftarrow> rtr_get_first_value (cport_mem s) (cport_tbl s); notify_loop E event v s })"

section \<open>Tape\<close>

text \<open>\<open>has_all\<close>: the mechanism has all four operations.\<close>

definition gb_tape_register_mechanism :: "bool \<Rightarrow> ('cb, 'w) gb \<Rightarrow> int \<times> ('cb, 'w) gb" where
  "gb_tape_register_mechanism has_all s =
     (if \<not> has_all then (- EINVAL, s)
      else if gb_tape s then (- EBUSY, s)
      else (0, s\<lparr>gb_tape := True\<rparr>))"

definition gb_tape_communication :: "('w \<Rightarrow> int \<times> 'w) \<Rightarrow> ('cb, 'w) gb \<Rightarrow> int \<times> ('cb, 'w) gb" where
  "gb_tape_communication tape_open s =
     (if \<not> gb_tape s then (- EINVAL, s)
      else if gb_tape_fd s \<ge> 0 then (- EBUSY, s)
      else (let (fd, w) = tape_open (gb_world s)
            in (if fd < 0 then fd else 0, s\<lparr>gb_tape_fd := fd, gb_world := w\<rparr>)))"

definition gb_tape_stop :: "(int \<Rightarrow> 'w \<Rightarrow> 'w) \<Rightarrow> ('cb, 'w) gb \<Rightarrow> int \<times> ('cb, 'w) gb" where
  "gb_tape_stop tape_close s =
     (if \<not> gb_tape s \<or> gb_tape_fd s < 0 then (- EINVAL, s)
      else (0, s\<lparr>gb_world := tape_close (gb_tape_fd s) (gb_world s), gb_tape_fd := - EBADFD\<rparr>))"

text \<open>
  Replaying the bytes that the tape still holds, a read returning as many as there are. A record
  that is cut short ends the replay with an error; more than 2048 bytes read overrun the buffer.
\<close>

definition CPORT_BUF_SIZE :: nat where "CPORT_BUF_SIZE = 2048"

function (sequential) replay_loop :: "('cb, 'w) gb_env \<Rightarrow> u8 list \<Rightarrow> ('cb, 'w) gb \<Rightarrow> (int \<times> ('cb, 'w) gb) option" where
  "replay_loop E bytes s =
     (if bytes = [] then Some (0, s)
      else if length bytes < 4 then Some (- EIO, s)
      else
        (let size = unat (le16_at bytes 0); cp = le16_at bytes 2; rest = drop 4 bytes in
         if min size (length rest) > CPORT_BUF_SIZE then None
         else if length rest < size then Some (- EIO, s)
         else do { (_, s1) \<leftarrow> greybus_rx_handler E (ucast cp) (Some (take size rest)) s;
                   replay_loop E (drop size rest) s1 }))"
  by pat_completeness auto
termination by (relation "measure (\<lambda>(E, bytes, s). length bytes)") auto

declare replay_loop.simps [simp del]

definition gb_tape_replay ::
    "('cb, 'w) gb_env \<Rightarrow> bool \<Rightarrow> (int \<times> u8 list) \<Rightarrow> bool \<Rightarrow> ('cb, 'w) gb \<Rightarrow> (int \<times> ('cb, 'w) gb) option" where
  "gb_tape_replay E pathname opened buffer_ok s =
     (if \<not> pathname \<or> \<not> gb_tape s then Some (- EINVAL, s)
      else if fst opened < 0 then Some (fst opened, s)
      else if \<not> buffer_ok then Some (- ENOMEM, s)
      else replay_loop E (snd opened) s)"

end
