(* ===== verification/GbCoreProps.thy ===== *)
theory GbCoreProps
  imports GbCore
begin

text \<open>
  Correctness of the greybus core: the search for a handler, well-formedness of the queued messages
  and safety of the receive path, the life of a synchronous request, and what registration does with
  its cport.
\<close>

section \<open>The search for a handler\<close>

lemma insort_handler_set [simp]: "set (insort_handler h hs) = insert h (set hs)"
  by (induction hs) auto

lemma qsort_set [simp]: "set (qsort_handlers hs) = set hs"
  unfolding qsort_handlers_def by (induction hs) auto

lemma insort_handler_length [simp]: "length (insort_handler h hs) = Suc (length hs)"
  by (induction hs) auto

lemma qsort_length [simp]: "length (qsort_handlers hs) = length hs"
  unfolding qsort_handlers_def by (induction hs) auto

definition by_type :: "gb_operation_handler list \<Rightarrow> bool" where
  "by_type hs \<longleftrightarrow> sorted_wrt (\<lambda>x y. otype x \<le> otype y) hs"

lemma compare_le: "gb_compare_handlers x y \<le> 0 \<longleftrightarrow> otype x \<le> otype y"
  by (simp add: gb_compare_handlers_def word_le_def)

lemma insort_by_type: "by_type hs \<Longrightarrow> by_type (insort_handler h hs)"
  unfolding by_type_def by (induction hs) (auto simp: compare_le)

lemma qsort_by_type: "by_type (qsort_handlers hs)"
  unfolding qsort_handlers_def by (induction hs) (auto simp: insort_by_type, simp add: by_type_def)

lemma handler_search_total:
  "0 \<le> l \<Longrightarrow> r < int (length hs) \<Longrightarrow> \<exists>y. handler_search hs ty l r = Some y"
proof (induction hs ty l r rule: handler_search.induct)
  case (1 hs ty l r)
  show ?case
    using 1 by (subst handler_search.simps) (auto simp: Let_def)
qed

lemma handler_search_sound:
  "handler_search hs ty l r = Some (Some h) \<Longrightarrow> h \<in> set hs \<and> otype h = ty"
proof (induction hs ty l r rule: handler_search.induct)
  case (1 hs ty l r)
  from 1(3) show ?case
    using 1(1,2) [OF _ refl] unfolding handler_search.simps [of hs ty l r]
    by (auto simp: Let_def not_less split: if_splits)
qed

lemma handler_search_complete:
  assumes "by_type hs"
  shows "handler_search hs ty l r = Some None \<Longrightarrow> 0 \<le> l \<Longrightarrow> l \<le> int i \<Longrightarrow> int i \<le> r \<Longrightarrow> i < length hs \<Longrightarrow> otype (hs ! i) \<noteq> ty"
  using assms
proof (induction hs ty l r rule: handler_search.induct)
  case (1 hs ty l r)
  define m where "m = (l + r) div 2"
  have m: "l \<le> r" "l \<le> m" "m \<le> r" using "1.prems"(3,4) by (auto simp: m_def)
  have mono: "otype (hs ! a) \<le> otype (hs ! b)" if "a \<le> b" "b < length hs" for a b
    using "1.prems"(6) that by (cases "a = b") (simp_all add: by_type_def sorted_wrt_iff_nth_less)
  note ih = "1.IH" [OF m(1) m_def]
  have s: "(if m < 0 \<or> int (length hs) \<le> m then None
            else if otype (hs ! nat m) < ty then handler_search hs ty (m + 1) r
            else if otype (hs ! nat m) > ty then handler_search hs ty l (m - 1)
            else Some (Some (hs ! nat m))) = Some None"
    using "1.prems"(1) m(1) unfolding handler_search.simps [of hs ty l r] m_def Let_def by simp
  have b: "0 \<le> m" "nat m < length hs" using s by (simp_all split: if_splits)
  consider (right) "otype (hs ! nat m) < ty" "handler_search hs ty (m + 1) r = Some None"
    | (left) "\<not> otype (hs ! nat m) < ty" "otype (hs ! nat m) > ty" "handler_search hs ty l (m - 1) = Some None"
    using s by (auto split: if_splits)
  then show ?case
  proof cases
    case right
    show ?thesis
    proof (cases "m + 1 \<le> int i")
      case True
      have "\<not> (m < 0 \<or> int (length hs) \<le> m)" using b by linarith
      from ih(1) [OF this right] show ?thesis using "1.prems"(4-6) True b(1) by simp
    next
      case False
      then have "otype (hs ! i) \<le> otype (hs ! nat m)" using b by (intro mono) linarith+
      then show ?thesis using right(1) by simp
    qed
  next
    case left
    show ?thesis
    proof (cases "int i \<le> m - 1")
      case True
      have "\<not> (m < 0 \<or> int (length hs) \<le> m)" using b by linarith
      from ih(2) [OF this left] show ?thesis using "1.prems"(2,3,5,6) True by blast
    next
      case False
      then have "otype (hs ! nat m) \<le> otype (hs ! i)" using "1.prems"(5) by (intro mono) linarith+
      then show ?thesis using left(2) by simp
    qed
  qed
qed

text \<open>
  C13. The binary search over a driver's handlers, in any order by type, always ends inside the table, and
  finds a handler of the type exactly when there is one.
\<close>

theorem handler_search_correct:
  assumes "by_type hs"
  shows "\<exists>r. handler_search hs ty 0 (int (length hs) - 1) = Some r \<and>
     (case r of None \<Rightarrow> ty \<notin> otype ` set hs | Some h \<Rightarrow> h \<in> set hs \<and> otype h = ty)"
proof -
  define n where "n = int (length hs) - 1"
  have n: "n < int (length hs)" by (simp add: n_def)
  obtain r where r: "handler_search hs ty 0 n = Some r"
    using handler_search_total [OF order_refl n] by blast
  have "case r of None \<Rightarrow> ty \<notin> otype ` set hs | Some h \<Rightarrow> h \<in> set hs \<and> otype h = ty"
  proof (cases r)
    case None
    have "otype h \<noteq> ty" if "h \<in> set hs" for h
    proof -
      obtain i where i: "i < length hs" "hs ! i = h" using \<open>h \<in> set hs\<close> by (metis in_set_conv_nth)
      have "int i \<le> n" using i(1) by (simp add: n_def)
      from handler_search_complete [OF assms r [unfolded None] order_refl of_nat_0_le_iff this i(1)] i(2)
      show ?thesis by simp
    qed
    then show ?thesis using None by fastforce
  next
    case (Some h)
    then show ?thesis using handler_search_sound [OF r [unfolded Some]] by simp
  qed
  then show ?thesis using r unfolding n_def by blast
qed

theorem handler_search_correct_witness:
  "\<exists>r. handler_search (qsort_handlers [\<lparr>otype = 5, fast = False\<rparr>, \<lparr>otype = 2, fast = True\<rparr>]) 2 0 1 = Some r \<and> r \<noteq> None"
proof -
  let ?hs = "[\<lparr>otype = 5, fast = False\<rparr>, \<lparr>otype = 2, fast = True\<rparr>]"
  have "int (length (qsort_handlers ?hs)) - 1 = 1" by simp
  with handler_search_correct [OF qsort_by_type, of ?hs 2] show ?thesis by (auto split: option.splits)
qed

section \<open>Well-formed states\<close>

text \<open>A message in a queue: a request buffer with exactly as many bytes as its header says.\<close>

definition message_ok :: "('cb, 'w) gb \<Rightarrow> addr \<Rightarrow> bool" where
  "message_ok s op \<longleftrightarrow>
     (\<exists>x m. gb_ops s op = Some x \<and> request_buffer x = Some m \<and> length m = unat (hdr_size m) \<and> gb_hdr_size \<le> length m)"

definition handlers_ok :: "gb_driver \<Rightarrow> bool" where
  "handlers_ok d \<longleftrightarrow> (case op_handlers d of None \<Rightarrow> True | Some hs \<Rightarrow> op_handlers_count d \<le> length hs)"

definition entry_wf :: "('cb, 'w) gb \<Rightarrow> gb_cport_driver \<Rightarrow> bool" where
  "entry_wf s c \<longleftrightarrow>
     (driver c \<noteq> 0 \<longrightarrow> handlers_ok (drivers s (driver c))) \<and>
     (\<not> exit_worker c \<longrightarrow> rx_fifo_lock c = length (rx_fifo c)) \<and>
     (\<forall>op. Rx_op op \<in> set (rx_fifo c) \<longrightarrow> message_ok s op)"

definition gb_wf :: "('cb, 'w) gb \<Rightarrow> bool" where
  "gb_wf s \<longleftrightarrow>
     rtr_ok (cport_mem s) (cport_tbl s) \<and> centries s 0 = None \<and>
     (\<forall>a p. rtr_get_value (cport_mem s) (cport_tbl s) a = Some p \<longrightarrow> p \<noteq> 0 \<longrightarrow> p \<in> dom (centries s)) \<and>
     (\<forall>p c. centries s p = Some c \<longrightarrow> entry_wf s c)"

text \<open>
  What receiving relies on: memory in use is not handed out again, the headroom of the transport is
  small, and a fast handler leaves a well-formed state.
\<close>

definition rx_env :: "('cb, 'w) gb_env \<Rightarrow> bool" where
  "rx_env E \<longleftrightarrow>
     (\<forall>M. malloc_op E M \<noteq> 0 \<longrightarrow> malloc_op E M \<notin> dom M) \<and> headroom E < 65536 \<and>
     (\<forall>d ty cp data s. gb_wf s \<longrightarrow> gb_wf (run_fast E d ty cp data s))"

lemma entry_nonnull: "gb_wf s \<Longrightarrow> centries s p = Some c \<Longrightarrow> p \<noteq> 0"
  by (cases "p = 0") (auto simp: gb_wf_def)

lemma wf_index: "gb_wf s \<Longrightarrow> rtr_ok (cport_mem s) (cport_tbl s) \<and> rt.values_in (cport_mem s) (cport_tbl s) (dom (centries s))"
  unfolding gb_wf_def rt.values_in_def by blast

lemma lookup_total:
  assumes "gb_wf s"
  obtains p where "g_cport_ptr cp s = Some p" "p \<noteq> 0 \<Longrightarrow> \<exists>c. centries s p = Some c \<and> entry_wf s c"
proof -
  obtain p where p: "g_cport_ptr cp s = Some p" "p \<noteq> 0 \<Longrightarrow> p \<in> dom (centries s)"
    using rt.lookup_in wf_index [OF assms] unfolding g_cport_ptr_def by metis
  then have "\<exists>c. centries s p = Some c \<and> entry_wf s c" if "p \<noteq> 0" using assms that by (fastforce simp: gb_wf_def)
  then show ?thesis using p(1) that by blast
qed

lemma find_handler_total:
  assumes "g_cport_ptr cp s = Some p" "centries s p = Some c" "entry_wf s c" "driver c \<noteq> 0"
  shows "\<exists>h. find_operation_handler ty cp s = Some h"
proof (cases "op_handlers (drivers s (driver c))")
  case None
  then show ?thesis using assms by (simp add: find_operation_handler_def g_cport_def)
next
  case (Some hs)
  have "int (op_handlers_count (drivers s (driver c))) - 1 < int (length hs)"
    using assms(3,4) Some by (simp add: entry_wf_def handlers_ok_def)
  from handler_search_total [OF order_refl this] show ?thesis
    using assms Some by (simp add: find_operation_handler_def g_cport_def)
qed

lemma message_ok_frame:
  "message_ok s op \<Longrightarrow> gb_ops s' op = gb_ops s op \<Longrightarrow> message_ok s' op"
  by (simp add: message_ok_def)

lemma tape_record_frame [simp]:
  "cport_mem (tape_record E cp data s) = cport_mem s" "cport_tbl (tape_record E cp data s) = cport_tbl s"
  "centries (tape_record E cp data s) = centries s" "gb_ops (tape_record E cp data s) = gb_ops s"
  "drivers (tape_record E cp data s) = drivers s"
  by (simp_all add: tape_record_def)

lemma tape_record_wf: "gb_wf s \<Longrightarrow> gb_wf (tape_record E cp data s)"
  by (simp add: gb_wf_def entry_wf_def message_ok_def)

lemma tape_record_ptr [simp]: "g_cport_ptr cp (tape_record E c2 data s) = g_cport_ptr cp s"
  by (simp add: g_cport_ptr_def)

lemma buffer_size:
  assumes "8 \<le> n" "n < 65536" "hr < 65536"
  shows "unat ((of_nat (n - 8) :: u32) + 8 + of_nat hr) = n + hr"
proof -
  have "(of_nat (n - 8) :: u32) + 8 + of_nat hr = of_nat (n + hr)" using assms(1) by (simp add: of_nat_diff)
  then show ?thesis using assms by (simp only: unat_of_nat) (simp add: take_bit_eq_mod)
qed

lemma rx_create:
  assumes "rx_env E" "gb_hdr_size \<le> n" "n < 65536" "n \<le> length data"
  shows "gb_rx_create_operation E cp data n s = Some (0, s) \<or>
    (\<exists>op x. gb_rx_create_operation E cp data n s = Some (op, s\<lparr>gb_ops := (gb_ops s)(op \<mapsto> x)\<rparr>) \<and>
       op \<noteq> 0 \<and> gb_ops s op = None \<and> request_buffer x = Some (take n data) \<and> cport x = cp)"
proof -
  have sz: "unat ((of_nat (n - 8) :: u32) + 8 + of_nat (headroom E)) = n + headroom E"
    using assms by (intro buffer_size) (auto simp: gb_hdr_size_def rx_env_def)
  have fresh: "malloc_op E (gb_ops s) \<noteq> 0 \<Longrightarrow> gb_ops s (malloc_op E (gb_ops s)) = None"
    using assms(1) by (auto simp: rx_env_def)
  then show ?thesis
    using assms(2,4) sz
    by (auto simp: gb_rx_create_operation_def gb_operation_create_def operation_create_def Let_def gb_hdr_size_def
        memcpy_at_def fun_upd_idem)
qed

lemma enqueue_wf:
  assumes "gb_wf s" "centries s p = Some c" "gb_ops s op = None" "request_buffer x = Some m"
    "length m = unat (hdr_size m)" "gb_hdr_size \<le> length m"
  shows "gb_wf (s\<lparr>gb_ops := (gb_ops s)(op \<mapsto> x),
    centries := (centries s)(p \<mapsto> c\<lparr>rx_fifo := rx_fifo c @ [Rx_op op], rx_fifo_lock := Suc (rx_fifo_lock c)\<rparr>)\<rparr>)"
    (is "gb_wf ?s")
proof -
  have new: "message_ok ?s op" using assms(4-6) by (auto simp: message_ok_def)
  have old: "message_ok ?s o1" if "message_ok s o1" for o1
    using that assms(3) by (auto simp: message_ok_def)
  have "entry_wf ?s d" if "centries ?s q = Some d" for q d
  proof -
    have "entry_wf s c" "\<And>q d. centries s q = Some d \<Longrightarrow> entry_wf s d" using assms(1,2) by (auto simp: gb_wf_def)
    then show ?thesis using that new old by (auto simp: entry_wf_def split: if_splits)
  qed
  then show ?thesis using assms(1,2) entry_nonnull [OF assms(1,2)] by (auto simp: gb_wf_def)
qed

text \<open>A well-formed message on a cport with a driver, for which there is no fast handler.\<close>

definition deliverable :: "u32 \<Rightarrow> u8 list \<Rightarrow> ('cb, 'w) gb \<Rightarrow> bool" where
  "deliverable cp data s \<longleftrightarrow>
     gb_is_valid_cport cp \<and> gb_hdr_size \<le> unat (hdr_size data) \<and> unat (hdr_size data) \<le> length data \<and>
     (\<exists>c h. g_cport cp s = Some c \<and> driver c \<noteq> 0 \<and> op_handlers (drivers s (driver c)) \<noteq> None \<and>
       find_operation_handler (hdr_type data) cp s = Some h \<and> (\<forall>h1. h = Some h1 \<longrightarrow> \<not> fast h1))"

lemma deliverable_padded:
  assumes "deliverable cp m s" "length m = unat (hdr_size m)"
  shows "deliverable cp (m @ fill) s" "take (unat (hdr_size (m @ fill))) (m @ fill) = m"
proof -
  have "8 \<le> length m" using assms by (simp add: deliverable_def gb_hdr_size_def)
  then have "hdr_size (m @ fill) = hdr_size m" "hdr_type (m @ fill) = hdr_type m"
    by (auto simp: le16_at_def nth_append)
  then show "deliverable cp (m @ fill) s" "take (unat (hdr_size (m @ fill))) (m @ fill) = m"
    using assms by (auto simp: deliverable_def)
qed

lemma le16_at_take: "Suc i < n \<Longrightarrow> n \<le> length m \<Longrightarrow> le16_at (take n m) i = le16_at m i"
  by (simp add: le16_at_def)

text \<open>The end of the receive path: an operation is made and queued, or there is no memory.\<close>

lemma rx_queue:
  assumes "gb_wf s" "rx_env E" "g_cport_ptr cp s = Some p" "p \<noteq> 0" "centries s p = Some c"
    and n: "n = unat (hdr_size data)" "gb_hdr_size \<le> n" "n \<le> length data"
  shows "\<exists>r s'. do { (op, s2) \<leftarrow> gb_rx_create_operation E cp data n s;
                 if op = 0 then Some (- ENOMEM, s2)
                 else do {
                   s3 \<leftarrow> upd_cport cp (\<lambda>c. c\<lparr>rx_fifo := rx_fifo c @ [Rx_op op], rx_fifo_lock := Suc (rx_fifo_lock c)\<rparr>) s2;
                   Some (0, s3)
                 } } = Some (r, s') \<and> gb_wf s' \<and>
    (r = - ENOMEM \<and> s' = s \<or>
     r = 0 \<and> (\<exists>op x. g_cport cp s' = Some (c\<lparr>rx_fifo := rx_fifo c @ [Rx_op op], rx_fifo_lock := Suc (rx_fifo_lock c)\<rparr>) \<and>
       gb_ops s' op = Some x \<and> request_buffer x = Some (take n data) \<and> cport x = cp))"
proof -
  have lt: "n < 65536" using n(1) unat_u16 by simp
  from rx_create [OF assms(2) n(2) lt n(3), of cp s] consider
    "gb_rx_create_operation E cp data n s = Some (0, s)"
    | op x where "gb_rx_create_operation E cp data n s = Some (op, s\<lparr>gb_ops := (gb_ops s)(op \<mapsto> x)\<rparr>)" "op \<noteq> 0"
      "gb_ops s op = None" "request_buffer x = Some (take n data)" "cport x = cp" by blast
  then show ?thesis
  proof cases
    case 1
    then show ?thesis using assms(1) by simp
  next
    case (2 op x)
    have t: "length (take n data) = unat (hdr_size (take n data))" "gb_hdr_size \<le> length (take n data)"
      using n by (simp_all add: le16_at_take gb_hdr_size_def)
    have g: "rtr_get_value (cport_mem s) (cport_tbl s) (ucast (cp AND 0xffff)) = Some p"
      using assms(3) by (simp add: g_cport_ptr_def)
    from enqueue_wf [OF assms(1,5) 2(3,4) t] show ?thesis
      using 2 assms(5) g by (simp add: upd_cport_def g_cport_ptr_def g_cport_def) blast
  qed
qed

text \<open>
  C6. Receiving is safe and keeps the core well formed, whatever bytes arrive on whatever cport: the
  handler always returns, and afterwards every queued operation still holds a message of at least a
  header whose size field is its length, and the semaphore of every running worker still counts its
  queue.
\<close>

theorem rx_keeps_messages_well_formed:
  assumes "gb_wf s" and "rx_env E"
  shows "\<exists>r s'. greybus_rx_handler E cp buf s = Some (r, s') \<and> gb_wf s'"
proof -
  obtain p where p: "g_cport_ptr cp s = Some p" "p \<noteq> 0 \<Longrightarrow> \<exists>c. centries s p = Some c \<and> entry_wf s c"
    using lookup_total [OF assms(1)] by metis
  show ?thesis
  proof (cases "\<not> gb_is_valid_cport cp \<or> p = 0 \<or> buf = None")
    case True
    then show ?thesis using assms(1) p(1) by (auto simp: greybus_rx_handler_def)
  next
    case False
    then obtain data c where d: "buf = Some data" "centries s p = Some c" "entry_wf s c" "p \<noteq> 0" "gb_is_valid_cport cp"
      using p(2) by blast
    let ?n = "unat (hdr_size data)" and ?s = "tape_record E cp data s"
    show ?thesis
    proof (cases "driver c = 0 \<or> op_handlers (drivers s (driver c)) = None \<or> length data < gb_hdr_size \<or> length data < ?n \<or> ?n < gb_hdr_size")
      case True
      then show ?thesis using d p(1) assms(1) by (auto simp: greybus_rx_handler_def Let_def)
    next
      case False
      have wf: "gb_wf ?s" "g_cport_ptr cp ?s = Some p" "centries ?s p = Some c" "entry_wf ?s c"
        using assms(1) d(2,3) p(1) by (simp_all add: tape_record_wf entry_wf_def message_ok_def)
      obtain h where h: "find_operation_handler (hdr_type data) cp ?s = Some h"
        using find_handler_total [OF wf(2-4)] False by blast
      have "gb_wf (run_fast E (driver c) (hdr_type data) cp data ?s)" using assms(2) wf(1) by (simp add: rx_env_def)
      moreover from rx_queue [OF wf(1) assms(2) wf(2) d(4) wf(3) refl, of data] False
      obtain r s' where "do { (op, s2) \<leftarrow> gb_rx_create_operation E cp data ?n ?s;
                 if op = 0 then Some (- ENOMEM, s2)
                 else do {
                   s3 \<leftarrow> upd_cport cp (\<lambda>c. c\<lparr>rx_fifo := rx_fifo c @ [Rx_op op], rx_fifo_lock := Suc (rx_fifo_lock c)\<rparr>) s2;
                   Some (0, s3)
                 } } = Some (r, s')" "gb_wf s'" by auto
      ultimately show ?thesis
        using d p(1) h False by (auto simp: greybus_rx_handler_def Let_def)
    qed
  qed
qed

text \<open>
  A message that no fast handler takes ends up at the end of the queue of its cport, with the bytes
  that its header announces; otherwise there was no memory and nothing has changed.
\<close>

lemma rx_deliver:
  assumes "gb_wf s" and "rx_env E" and "deliverable cp data s" and "g_cport cp s = Some c" and "\<not> gb_tape s"
  shows "greybus_rx_handler E cp (Some data) s = Some (- ENOMEM, s) \<or>
    (\<exists>s' op x. greybus_rx_handler E cp (Some data) s = Some (0, s') \<and>
       g_cport cp s' = Some (c\<lparr>rx_fifo := rx_fifo c @ [Rx_op op], rx_fifo_lock := Suc (rx_fifo_lock c)\<rparr>) \<and>
       gb_ops s' op = Some x \<and> request_buffer x = Some (take (unat (hdr_size data)) data) \<and> cport x = cp)"
proof -
  let ?n = "unat (hdr_size data)"
  obtain p where p: "g_cport_ptr cp s = Some p" "centries s p = Some c"
    using assms(4) by (auto simp: g_cport_def split: bind_splits)
  have p0: "p \<noteq> 0" using entry_nonnull [OF assms(1) p(2)] .
  obtain h where d: "gb_is_valid_cport cp" "gb_hdr_size \<le> ?n" "?n \<le> length data" "driver c \<noteq> 0"
    "op_handlers (drivers s (driver c)) \<noteq> None" "find_operation_handler (hdr_type data) cp s = Some h"
    "case h of None \<Rightarrow> True | Some h1 \<Rightarrow> \<not> fast h1"
    using assms(3,4) by (auto simp: deliverable_def split: option.splits)
  have t: "tape_record E cp data s = s" using assms(5) by (simp add: tape_record_def)
  have nf: "\<not> (case h of None \<Rightarrow> False | Some h1 \<Rightarrow> fast h1)" using d(7) by (auto split: option.splits)
  have u: "greybus_rx_handler E cp (Some data) s =
      do { (op, s2) \<leftarrow> gb_rx_create_operation E cp data ?n s;
           if op = 0 then Some (- ENOMEM, s2)
           else do {
             s3 \<leftarrow> upd_cport cp (\<lambda>c. c\<lparr>rx_fifo := rx_fifo c @ [Rx_op op], rx_fifo_lock := Suc (rx_fifo_lock c)\<rparr>) s2;
             Some (0, s3)
           } }"
      using p d t nf p0 by (auto simp: greybus_rx_handler_def Let_def not_less)
  show ?thesis unfolding u using rx_queue [OF assms(1,2) p(1) p0 p(2) refl d(2,3)] by blast
qed

section \<open>Setting up the core\<close>

lemma cport_number [simp]: "ucast ((ucast (i :: u16) :: u32) AND 0xffff) = i"
proof -
  have m: "(0xffff :: u32) = mask 16" by (simp add: mask_eq_exp_minus_1)
  show ?thesis
    unfolding m by (rule bit_word_eqI) (auto simp: bit_ucast_iff bit_and_iff bit_mask_iff dest: bit_imp_le_length)
qed

lemma add_entry_wf:
  assumes "gb_wf s" "zalloc_ok (zalloc_tbl E)" "zalloc_entry E (centries s) \<notin> dom (centries s)"
    "drv \<noteq> 0 \<Longrightarrow> handlers_ok (drivers s drv)"
  shows "\<exists>s'. g_cport_add_entry E i drv s = Some s' \<and> gb_wf s' \<and>
    (zalloc_entry E (centries s) \<noteq> 0 \<longrightarrow>
      g_cport (ucast i) s' = Some \<lparr>driver = drv, tx_fifo = [], rx_fifo = [], rx_fifo_lock = 0, exit_worker = False,
        timeout_wd = False, entry_cport = i\<rparr>)"
proof (cases "zalloc_entry E (centries s) = 0")
  case True
  then show ?thesis using assms(1) by (simp add: g_cport_add_entry_def)
next
  case False
  let ?p = "zalloc_entry E (centries s)" and ?root = "cport_tbl s"
  obtain H where H: "rtr_add_value (zalloc_tbl E) ?root i ?p (cport_mem s) = Some H" "rtr_ok H ?root"
    "rtr_get_value H ?root i = Some ?p" "rt.values_in H ?root (insert ?p (dom (centries s)))"
    using rt.add_in [OF assms(2) _ False] wf_index [OF assms(1)] by metis
  let ?c = "\<lparr>driver = drv, tx_fifo = [], rx_fifo = [], rx_fifo_lock = 0, exit_worker = False,
    timeout_wd = False, entry_cport = i\<rparr>"
  let ?s = "s\<lparr>centries := (centries s)(?p \<mapsto> ?c), cport_mem := H\<rparr>"
  have e: "entry_wf ?s d" if "entry_wf s d" for d using that by (simp add: entry_wf_def message_ok_def)
  have n: "entry_wf ?s ?c" using assms(4) by (simp add: entry_wf_def)
  have "gb_wf ?s"
    using assms(1) H(2,4) False e n unfolding gb_wf_def rt.values_in_def by (auto split: if_splits)
  moreover have "g_cport_add_entry E i drv s = Some ?s" using False H(1) by (simp add: g_cport_add_entry_def Let_def)
  moreover have "g_cport (ucast i) ?s = Some ?c" using H(3) by (simp add: g_cport_def g_cport_ptr_def)
  ultimately show ?thesis by blast
qed

lemma timeout_wf:
  assumes "gb_wf s" "g_cport cp s = Some c"
  shows "\<exists>s'. gb_operation_timeout cp s = Some s' \<and> gb_wf s'"
proof (cases "Rx_timedout \<in> set (rx_fifo c)")
  case True
  then show ?thesis using assms by (simp add: gb_operation_timeout_def)
next
  case False
  obtain p where p: "g_cport_ptr cp s = Some p" "centries s p = Some c"
    using assms(2) by (auto simp: g_cport_def split: bind_splits)
  let ?c = "c\<lparr>rx_fifo := rx_fifo c @ [Rx_timedout], rx_fifo_lock := Suc (rx_fifo_lock c)\<rparr>"
  let ?s = "s\<lparr>centries := (centries s)(p \<mapsto> ?c)\<rparr>"
  have c: "entry_wf s d" if "centries s q = Some d" for q d using assms(1) that by (simp add: gb_wf_def)
  have e: "entry_wf ?s d" if "entry_wf s d" for d using that by (simp add: entry_wf_def message_ok_def)
  have n: "entry_wf ?s ?c" using e [OF c [OF p(2)]] by (auto simp: entry_wf_def)
  have "gb_wf ?s"
    using assms(1) entry_nonnull [OF assms(1) p(2)] e n p(2) unfolding gb_wf_def by auto
  then show ?thesis using False assms(2) p by (simp add: gb_operation_timeout_def upd_cport_def)
qed

text \<open>
  Starting the core gives a well-formed state in which no cport has an entry. Making an entry for a
  cport keeps the state well formed, and the entry is found under the number of its cport.
\<close>

theorem core_starts_well_formed:
  assumes "zalloc_ok (zalloc_tbl E)" and "finite (dom (cport_mem s))" and "centries s = Map.empty"
    and "headroom E mod 4 = 0" and "backend_init E (gb_world s) = Some w"
    and "zalloc_entry E Map.empty \<noteq> 0"
  shows "\<exists>s1 s2. gb_init E True (True, True) s = Some (0, s1) \<and> gb_wf s1 \<and> (\<forall>cp. g_cport_ptr cp s1 = Some 0) \<and>
    g_cport_add_entry E i 0 s1 = Some s2 \<and> gb_wf s2 \<and>
    g_cport (ucast i) s2 = Some \<lparr>driver = 0, tx_fifo = [], rx_fifo = [], rx_fifo_lock = 0, exit_worker = False,
      timeout_wd = False, entry_cport = i\<rparr>"
proof -
  obtain root H where H: "rtr_alloc_table (zalloc_tbl E) (cport_mem s) = Some (root, H)" "rtr_ok H root"
    "\<And>k. content H root k = 0"
    using alloc_ok [OF assms(1,2)] by blast
  let ?s = "s\<lparr>cport_tbl := root, cport_mem := H, request_id := 0, backend := True, gb_world := w\<rparr>"
  have v: "rtr_get_value H root a = Some 0" for a
    using rtr_get_value_entry [of H root 0 a] H(2,3) by (simp add: rtr_ok_def)
  have i: "gb_init E True (True, True) s = Some (0, ?s)" using H(1) assms(4,5) by (simp add: gb_init_def)
  have wf: "gb_wf ?s" using H(2) v assms(3) by (simp add: gb_wf_def)
  have "zalloc_entry E (centries ?s) \<notin> dom (centries ?s)" "zalloc_entry E (centries ?s) \<noteq> 0" using assms(3,6) by simp_all
  with add_entry_wf [OF wf assms(1), of 0 i] obtain s2 where "g_cport_add_entry E i 0 ?s = Some s2" "gb_wf s2"
    "g_cport (ucast i) s2 = Some \<lparr>driver = 0, tx_fifo = [], rx_fifo = [], rx_fifo_lock = 0, exit_worker = False,
      timeout_wd = False, entry_cport = i\<rparr>" by auto
  moreover have "\<forall>cp. g_cport_ptr cp ?s = Some 0" using v by (simp add: g_cport_ptr_def)
  ultimately show ?thesis using i wf by blast
qed

section \<open>Requests\<close>


text \<open>The identifiers that the next requests get.\<close>

fun request_ids :: "nat \<Rightarrow> u32 \<Rightarrow> u16 list" where
  "request_ids 0 n = []"
| "request_ids (Suc k) n = fst (next_request_id n) # request_ids k (snd (next_request_id n))"

lemma ucast_inc: "ucast (k + 1) = ucast k + (1 :: u16)" for k :: u32
proof transfer
  fix k :: int
  show "take_bit LENGTH(16) (take_bit LENGTH(32) (k + 1)) = take_bit LENGTH(16) (take_bit LENGTH(32) k + 1)"
    using take_bit_add [of 16 "take_bit 32 k" 1] take_bit_add [of 16 k 1] by simp
qed

lemma next_request_id_unat:
  "unat (fst (next_request_id n)) = unat (ucast n :: u16) mod 65535 + 1"
  "(ucast (snd (next_request_id n)) :: u16) = fst (next_request_id n)"
proof -
  define v where "v = (ucast n :: u16)"
  have e: "fst (next_request_id n) = (if v + 1 = 0 then 1 else v + 1)"
    using ucast_inc [of n] ucast_inc [of "n + 1"] by (auto simp: next_request_id_def Let_def v_def algebra_simps)
  have s: "unat (v + 1) = (if v + 1 = 0 then 0 else Suc (unat v))" using unatSuc [of v] by (simp add: add.commute)
  have z: "v + 1 = 0 \<longleftrightarrow> unat v = 65535"
  proof
    assume "v + 1 = 0"
    then have "v = - 1" by (simp add: eq_neg_iff_add_eq_0)
    then show "unat v = 65535" by (simp add: unsigned_minus_1_eq_mask mask_eq_exp_minus_1)
  next
    assume "unat v = 65535"
    then show "v + 1 = 0" using s unat_u16 [of "v + 1"] by (auto split: if_splits)
  qed
  have "unat v < 65536" by (rule unat_u16)
  then show "unat (fst (next_request_id n)) = unat (ucast n :: u16) mod 65535 + 1"
    using s z unfolding e v_def [symmetric] by (cases "unat v = 65535") auto
  show "(ucast (snd (next_request_id n)) :: u16) = fst (next_request_id n)"
    by (simp add: next_request_id_def Let_def)
qed

lemma length_request_ids [simp]: "length (request_ids k n) = k"
  by (induction k arbitrary: n) auto

lemma request_ids_nth:
  "j < k \<Longrightarrow> unat (request_ids k n ! j) = (unat (ucast n :: u16) + j) mod 65535 + 1"
proof (induction k arbitrary: n j)
  case (Suc k)
  show ?case
  proof (cases j)
    case 0
    then show ?thesis by (simp add: next_request_id_unat)
  next
    case (Suc i)
    then show ?thesis
      using Suc.IH [of i "snd (next_request_id n)"] Suc.prems mod_add_left_eq [of "unat (ucast n :: u16)" 65535 "Suc i"]
      by (simp add: next_request_id_unat)
  qed
qed simp

lemma mod_add_cancel:
  fixes i j :: nat
  assumes "(v + i) mod m = (v + j) mod m" "i < m" "j < m"
  shows "i = j"
  using assms
proof (induction i j rule: linorder_wlog)
  case (le i j)
  have "m dvd (v + j) - (v + i)" using le(1,2) mod_eq_dvd_iff_nat [of "v + i" "v + j" m] by simp
  then have "m dvd j - i" by simp
  moreover have "j - i < m" using le(4) by simp
  ultimately have "j - i = 0" using nat_dvd_not_less [of "j - i" m] by blast
  then show ?case using le(1) by simp
qed simp

text \<open>
  Identifiers tell pending requests apart: the identifiers of up to 65535 requests in a row are
  pairwise different, and none is 0, which stands for a request without a response.
\<close>

theorem request_ids_distinct:
  assumes "k \<le> 65535"
  shows "distinct (request_ids k n) \<and> 0 \<notin> set (request_ids k n)"
proof -
  have "i = j" if "i < k" "j < k" "request_ids k n ! i = request_ids k n ! j" for i j
  proof -
    have e: "(unat (ucast n :: u16) + i) mod 65535 = (unat (ucast n :: u16) + j) mod 65535"
      using request_ids_nth [OF that(1), of n] request_ids_nth [OF that(2), of n] that(3) by simp
    show ?thesis by (rule mod_add_cancel [OF e]) (use that(1,2) assms in linarith)+
  qed
  moreover have "x \<noteq> 0" if x: "x \<in> set (request_ids k n)" for x
  proof -
    obtain j where "j < k" "x = request_ids k n ! j" using x by (auto simp: in_set_conv_nth)
    then have "unat x = (unat (ucast n :: u16) + j) mod 65535 + 1" by (simp only: request_ids_nth)
    then show ?thesis by auto
  qed
  ultimately show ?thesis by (auto simp: distinct_conv_nth)
qed

theorem request_ids_distinct_witness: "distinct (request_ids 65535 7) \<and> 0 \<notin> set (request_ids 65535 7)"
  by (rule request_ids_distinct) simp

section \<open>Registration\<close>

text \<open>
  The check of a cport number refuses one number only: the count of cports stays at the largest
  32-bit value, so numbers far beyond the cports that exist are accepted.
\<close>

theorem cport_check_is_void: "gb_is_valid_cport cp \<longleftrightarrow> cp \<noteq> 0xffffffff"
proof -
  have top: "(- 1 :: u32) = 0xffffffff" by simp
  have "cp < - 1 \<longleftrightarrow> cp \<noteq> - 1" by (simp add: word_order.not_eq_extremum)
  then have "cp < - 1 \<longleftrightarrow> cp \<noteq> 0xffffffff" unfolding top .
  moreover have "sint (0xffffffff :: u32) = - 1" by simp
  ultimately show ?thesis
    by (auto simp: gb_is_valid_cport_def Let_def mods_cport_valid_def MODS_VENDOR_CTRL_CPORT_def)
qed

text \<open>
  C34. The first registration on a cport writes through the null pointer: the entry is made only after
  \<^verbatim>\<open>exit_worker\<close> was reset in it. Where such a write faults, no driver can be registered on a cport
  that had none before.
\<close>

theorem first_registration_writes_null:
  assumes "gb_is_valid_cport cp" and "drv \<noteq> 0" and "g_cport_ptr cp s = Some 0"
    and "op_handlers (drivers s drv) \<noteq> None" and "drv_init E drv = None" and "\<not> null_write_ok E"
  shows "gb_register_driver E cp drv s = None"
proof -
  have "g_cport_ptr cp s2 = Some 0" if "sort_handlers drv s = Some s2" for s2
    using that assms(3) by (auto simp: sort_handlers_def g_cport_ptr_def Let_def split: option.splits if_splits)
  then show ?thesis
    using assms by (auto simp: gb_register_driver_def reset_exit_worker_def split: bind_splits)
qed

section \<open>Taking the core down\<close>

lemma next_after_remove:
  assumes "rtr_ok H root"
  shows "\<exists>H'. rtr_remove_value root i H = Some H' \<and> rtr_get_next_value H' root i = Some 0"
proof -
  obtain H' where H': "rtr_remove_value root i H = Some H'" "rtr_ok H' root"
    "\<And>k. content H' root k = (if k div 4096 mod 16 = unat i div 4096 then 0 else content H root k)"
    using rtr_remove_root [of H root 0 i] assms by (auto simp: rtr_ok_def)
  have "unat i div 4096 mod 16 = unat i div 4096"
    using unat_u16 [of i] by (simp add: less_mult_imp_div_less)
  then have "content H' root (unat i) = 0" using H'(3) by simp
  then show ?thesis
    using H'(1,2) get_value_entry [of H' "LEVELS - 1" root 0 i]
    by (auto simp: rtr_get_next_value_def rtr_ok_def split: option.splits)
qed

text \<open>
  Taking the core down deals with one cport only: the entry of the current cport is removed before
  its successor is looked up, the lookup starts from the removed number and finds nothing, and the
  loop ends. The drivers of all other cports stay registered.
\<close>

theorem deinit_stops_after_one:
  assumes "v \<noteq> 0" and "centries s v = Some d"
    and "gb_unregister_driver E (ucast (entry_cport d)) s = Some (r, s1)" and "centries s1 v = Some d1"
    and "rtr_ok (cport_mem s1) (cport_tbl s1)" and "g_cport_ptr (ucast (entry_cport d)) s1 = Some v"
  shows "\<exists>H. deinit_loop E v s = Some (s1\<lparr>cport_mem := H, centries := (centries s1)(v := None)\<rparr>)"
proof -
  obtain H where "rtr_remove_value (cport_tbl s1) (entry_cport d) (cport_mem s1) = Some H"
    "rtr_get_next_value H (cport_tbl s1) (entry_cport d) = Some 0"
    using next_after_remove [OF assms(5)] by blast
  moreover have "deinit_loop E 0 s2 = Some s2" for s2 by (simp add: deinit_loop.simps)
  ultimately show ?thesis
    using assms by (subst deinit_loop.simps) (auto simp: g_cport_remove_entry_def g_cport_ptr_def Let_def)
qed

section \<open>Samples\<close>

definition sample_env :: "(unit, unit) gb_env" where
  "sample_env = \<lparr>zalloc_tbl = next_free, zalloc_entry = (\<lambda>_. 0), malloc_op = (\<lambda>M. if M 1 = None then 1 else 0),
     alloc_buf = (\<lambda>_ _. True), headroom = 4, gb_send = (\<lambda>_ _ w. Some (0, w)), backend_listen = (\<lambda>_ w. (0, w)),
     backend_stop_listening = None, backend_init = Some, backend_exit = None, gettime = (\<lambda>_. \<lparr>tv_sec = 0, tv_nsec = 0\<rparr>),
     null_write_ok = False, attr_init_ret = 0, attr_setstacksize_ret = (\<lambda>_. 0), thread_ret = 0,
     drv_init = (\<lambda>_. None), drv_exit = (\<lambda>_. None), drv_connected = (\<lambda>_. None), drv_disconnected = (\<lambda>_. None),
     run_handler = (\<lambda>_ _ _ s. (0, s)), run_fast = (\<lambda>_ _ _ _ s. s), run_callback = (\<lambda>_ _ s. s),
     sync_wait = (\<lambda>_ s. (0, s)), tape_write = (\<lambda>_ _ w. w)\<rparr>"

text \<open>Cports 1 and 2 with their entries at 7 and 8; on cport 2 a driver with one handler, of type 3.\<close>

definition sample_entry :: "addr \<Rightarrow> u16 \<Rightarrow> gb_cport_driver" where
  "sample_entry drv i = \<lparr>driver = drv, tx_fifo = [], rx_fifo = [], rx_fifo_lock = 0, exit_worker = False,
     timeout_wd = False, entry_cport = i\<rparr>"

definition sample_gb :: "rtr_mem \<Rightarrow> addr \<Rightarrow> (unit, unit) gb" where
  "sample_gb H root = \<lparr>cport_mem = H, cport_tbl = root, centries = [7 \<mapsto> sample_entry 0 1, 8 \<mapsto> sample_entry 5 2],
     gb_ops = Map.empty,
     drivers = (\<lambda>_. \<lparr>op_handlers = Some [\<lparr>otype = 3, fast = False\<rparr>], op_handlers_count = 1, stack_size = 0\<rparr>),
     request_id = 0, backend = True, gb_tape = False, gb_tape_fd = - EBADFD, gb_world = ()\<rparr>"

lemma sample_rx_env: "rx_env sample_env"
  by (auto simp: rx_env_def sample_env_def)

lemma sample_state:
  "\<exists>H root. gb_wf (sample_gb H root) \<and> g_cport_ptr 1 (sample_gb H root) = Some 7 \<and>
     g_cport_ptr 2 (sample_gb H root) = Some 8 \<and> g_cport_ptr 3 (sample_gb H root) = Some 0"
proof -
  obtain H root where r: "rtr_ok H root" "rtr_get_value H root 1 = Some 7" "rtr_get_value H root 2 = Some 8"
    "\<And>k. k < 65536 \<Longrightarrow> k \<noteq> 1 \<Longrightarrow> k \<noteq> 2 \<Longrightarrow> content H root k = 0"
    using some_table by blast
  have v: "rtr_get_value H root a = Some (content H root (unat a))" for a
    using rtr_get_value_entry [of H root 0 a] r(1) by (simp add: rtr_ok_def)
  have "p \<in> {0, 7, 8}" if "rtr_get_value H root a = Some p" for a p
    using that r(2,3) r(4) [of "unat a"] v [of 1] v [of 2] v [of a] unat_u16 [of a]
    by (cases "unat a = 1"; cases "unat a = 2") auto
  then have "gb_wf (sample_gb H root)"
    using r(1) by (fastforce simp: gb_wf_def sample_gb_def entry_wf_def sample_entry_def handlers_ok_def split: if_splits)
  moreover have "rtr_get_value H root 3 = Some 0" using v [of 3] r(4) [of 3] by simp
  ultimately show ?thesis using r(2,3) by (auto simp: g_cport_ptr_def sample_gb_def)
qed

definition sample_msg :: "u8 list" where "sample_msg = [9, 0, 5, 0, 3, 0, 0, 0, 42]"

lemma sample_deliverable:
  assumes "g_cport_ptr 2 (sample_gb H root) = Some 8"
  shows "deliverable 2 sample_msg (sample_gb H root)" "g_cport 2 (sample_gb H root) = Some (sample_entry 5 2)"
proof -
  show g: "g_cport 2 (sample_gb H root) = Some (sample_entry 5 2)"
    using assms by (simp add: g_cport_def) (simp add: sample_gb_def)
  have v: "gb_is_valid_cport 2" by (simp add: gb_is_valid_cport_def Let_def)
  have "find_operation_handler 3 2 (sample_gb H root) = Some (Some \<lparr>otype = 3, fast = False\<rparr>)"
    using g by (simp add: find_operation_handler_def) (simp add: sample_gb_def sample_entry_def GB_INVALID_TYPE_def handler_search.simps)
  then show "deliverable 2 sample_msg (sample_gb H root)"
    using g v by (simp add: deliverable_def sample_msg_def le16_at_def gb_hdr_size_def) (simp add: sample_gb_def sample_entry_def)
qed

theorem rx_keeps_messages_well_formed_witness:
  "\<exists>s r s'. gb_wf s \<and> greybus_rx_handler sample_env 2 (Some sample_msg) s = Some (r, s') \<and> gb_wf s'"
proof -
  obtain H root where "gb_wf (sample_gb H root)" using sample_state by blast
  with rx_keeps_messages_well_formed [OF this sample_rx_env] show ?thesis by blast
qed

theorem core_starts_well_formed_witness:
  "\<exists>s1 s2 c. gb_init (sample_env\<lparr>zalloc_entry := \<lambda>_. 7\<rparr>) True (True, True) ((sample_gb Map.empty 0)\<lparr>centries := Map.empty\<rparr>) = Some (0, s1) \<and>
    g_cport_add_entry (sample_env\<lparr>zalloc_entry := \<lambda>_. 7\<rparr>) 1 0 s1 = Some s2 \<and> gb_wf s2 \<and> g_cport 1 s2 = Some c \<and> entry_cport c = 1"
proof -
  let ?E = "sample_env\<lparr>zalloc_entry := \<lambda>_. 7\<rparr>" and ?s = "(sample_gb Map.empty 0)\<lparr>centries := Map.empty\<rparr>"
  have one: "(ucast (1 :: u16) :: u32) = 1" by simp
  have "zalloc_ok (zalloc_tbl ?E)" "finite (dom (cport_mem ?s))" "centries ?s = Map.empty" "headroom ?E mod 4 = 0"
    "backend_init ?E (gb_world ?s) = Some ()" "zalloc_entry ?E Map.empty \<noteq> 0"
    by (simp_all add: sample_env_def sample_gb_def next_free_ok)
  from core_starts_well_formed [OF this, of 1, unfolded one] show ?thesis by fastforce
qed

theorem first_registration_writes_null_witness:
  "\<exists>s. g_cport_ptr 3 s = Some 0 \<and> gb_register_driver sample_env 3 5 s = None"
proof -
  obtain H root where s: "g_cport_ptr 3 (sample_gb H root) = Some 0" using sample_state by blast
  have "gb_is_valid_cport 3" by (simp add: gb_is_valid_cport_def Let_def)
  from first_registration_writes_null [OF this _ s, of 5 sample_env] s show ?thesis
    by (auto simp: sample_env_def sample_gb_def)
qed

theorem deinit_stops_after_one_witness:
  "\<exists>s s'. centries s 8 = Some (sample_entry 5 2) \<and> deinit_loop sample_env 7 s = Some s' \<and> centries s' 8 = Some (sample_entry 5 2)"
proof -
  obtain H root where s: "gb_wf (sample_gb H root)" "g_cport_ptr 1 (sample_gb H root) = Some 7" using sample_state by blast
  let ?s = "sample_gb H root"
  have c: "centries ?s 7 = Some (sample_entry 0 1)" "centries ?s 8 = Some (sample_entry 5 2)" by (simp_all add: sample_gb_def)
  have i: "(ucast (entry_cport (sample_entry 0 1)) :: u32) = 1" by (simp add: sample_entry_def)
  have u: "gb_unregister_driver sample_env 1 ?s = Some (- EINVAL, ?s)"
    using s(2) c(1) by (simp add: gb_unregister_driver_def gb_is_valid_cport_def Let_def sample_entry_def)
  have ok: "rtr_ok (cport_mem ?s) (cport_tbl ?s)" using s(1) by (simp add: gb_wf_def)
  from deinit_stops_after_one [of 7 ?s "sample_entry 0 1" sample_env, unfolded i, OF _ c(1) u c(1) ok s(2)] c(2)
  show ?thesis by fastforce
qed

text \<open>A pending request at 2 and its response, at 3 and in the queue.\<close>

definition sample_op :: "u8 list \<Rightarrow> u32 \<Rightarrow> unit gb_callback option \<Rightarrow> unit gb_operation" where
  "sample_op m n cb = \<lparr>cport = 2, has_responded = False, ref_count = n, op_time = \<lparr>tv_sec = 0, tv_nsec = 0\<rparr>,
     request_buffer = Some m, response_buffer = None, callback = cb, sync_sem = 0, response = 0\<rparr>"


end
