(* ===== verification/DatalinkTx.thy ===== *)
theory DatalinkTx
  imports Datalink
begin

text \<open>
  The transmit side of the data link: the ring between the producer pointer
  \<^verbatim>\<open>txp_rb\<close> and the consumer pointer \<^verbatim>\<open>txc_rb\<close> is a bounded queue of packets. The
  lemmas give each operation its effect on that queue, and the invariant every operation of
  the driver keeps.
\<close>

section \<open>The transmit queue\<close>

definition entry_ok :: "nat \<Rightarrow> ring_buf \<Rightarrow> bool" where
  "entry_ok n r \<longleftrightarrow> rb_data r = 4 \<and> length (rb_buf r) = 4 + n"

definition tx_ring :: "mods_spi_dl_s \<Rightarrow> addr list \<Rightarrow> addr list \<Rightarrow> bool" where
  "tx_ring s qs fs \<longleftrightarrow>
     rb_queue (heap s) qs fs \<and> heap_ok (heap s) \<and>
     txc_rb s = Some (hd (qs @ fs)) \<and> txp_rb s = Some (hd (fs @ qs)) \<and>
     (\<forall>p \<in> set (qs @ fs). entry_ok (pkt_size s) (rb (heap s) p)) \<and>
     (\<forall>p \<in> set fs. drop 4 (rb_buf (rb (heap s) p)) = replicate (pkt_size s) 0)"

text \<open>The packets waiting, in the order they go out, and how many more fit.\<close>

definition tx_queue :: "mods_spi_dl_s \<Rightarrow> u8 list list \<Rightarrow> nat \<Rightarrow> bool" where
  "tx_queue s pkts room \<longleftrightarrow>
     (\<exists>qs fs. tx_ring s qs fs \<and> pkts = map (data_bytes (heap s)) qs \<and> room = length fs)"

lemma rb_queue_cong:
  assumes "rb_queue H qs fs"
    and "\<And>p. p \<in> set (qs @ fs) \<Longrightarrow> rb_next (rb H' p) = rb_next (rb H p) \<and>
           rb_owner (rb H' p) = rb_owner (rb H p) \<and> live H' p = live H p"
  shows "rb_queue H' qs fs"
  using assms rb_cycle_cong [of "qs @ fs" H' H] by (auto simp: rb_queue_def)

lemma rb_step_rb:
  "rb (snd (rb_step p H)) q =
     (if q = p then (rb H p)\<lparr>rb_owner := if ring_buf_is_producers H p then RING_BUF_OWNER_CONSUMER
                                         else RING_BUF_OWNER_PRODUCER\<rparr> else rb H q)"
  "live (snd (rb_step p H)) = live H" "brk (snd (rb_step p H)) = brk H"
  by (simp_all add: rb_step_def rb_simps Let_def)

lemma next_txp_rb_step:
  "txp_rb s = Some p \<Longrightarrow>
   next_txp s = Some (s\<lparr>heap := snd (rb_step p (heap s)), txp_rb := Some (fst (rb_step p (heap s)))\<rparr>)"
  by (simp add: next_txp_def rb_step_def Let_def)

definition keeps_links :: "(ring_buf \<Rightarrow> ring_buf) \<Rightarrow> bool" where
  "keeps_links g \<longleftrightarrow>
     (\<forall>r. rb_next (g r) = rb_next r \<and> rb_owner (g r) = rb_owner r \<and> rb_data (g r) = rb_data r)"

lemma keeps_linksD:
  "keeps_links g \<Longrightarrow> rb_next (g r) = rb_next r"
  "keeps_links g \<Longrightarrow> rb_owner (g r) = rb_owner r"
  "keeps_links g \<Longrightarrow> rb_data (g r) = rb_data r"
  by (simp_all add: keeps_links_def)

lemma tx_ring_distinct: "tx_ring s qs fs \<Longrightarrow> distinct (qs @ fs)"
  by (simp add: tx_ring_def rb_queue_def rb_cycle_def)

text \<open>The producer fills the free entry at its pointer and passes it on.\<close>

lemma produce_pkt:
  assumes ring: "tx_ring s qs (f # fs)" and g: "keeps_links g"
    and len: "length (rb_buf (g (rb (heap s) f))) = 4 + pkt_size s"
  shows "\<exists>H p. next_txp (s\<lparr>heap := upd_rb f g (heap s)\<rparr>) = Some (s\<lparr>heap := H, txp_rb := Some p\<rparr>) \<and>
           tx_ring (s\<lparr>heap := H, txp_rb := Some p\<rparr>) (qs @ [f]) fs \<and>
           map (data_bytes H) (qs @ [f]) =
             map (data_bytes (heap s)) qs @ [drop 4 (rb_buf (g (rb (heap s) f)))]"
proof -
  let ?H1 = "upd_rb f g (heap s)"
  let ?H = "snd (rb_step f ?H1)" and ?p = "fst (rb_step f ?H1)"
  note r = ring [unfolded tx_ring_def]
  have d: "distinct (qs @ f # fs)" using tx_ring_distinct [OF ring] .
  have "rb_queue ?H1 qs (f # fs)"
    by (rule rb_queue_cong [of "heap s", rotated]) (use r in \<open>auto simp: keeps_linksD [OF g]\<close>)
  then have q: "rb_queue ?H (qs @ [f]) fs" "?p = hd (fs @ qs @ [f])"
    using rq.produce by blast+
  have "next_txp (s\<lparr>heap := ?H1\<rparr>) = Some (s\<lparr>heap := ?H, txp_rb := Some ?p\<rparr>)"
    using r next_txp_rb_step [of "s\<lparr>heap := ?H1\<rparr>" f] by simp
  moreover have "tx_ring (s\<lparr>heap := ?H, txp_rb := Some ?p\<rparr>) (qs @ [f]) fs"
    unfolding tx_ring_def using q r len d g
    by (cases qs) (auto simp: rb_step_rb entry_ok_def heap_ok_def keeps_linksD [OF g])
  moreover have "map (data_bytes ?H) (qs @ [f]) =
      map (data_bytes (heap s)) qs @ [drop 4 (rb_buf (g (rb (heap s) f)))]"
    using r d g by (auto simp: rb_step_rb data_bytes_def ring_buf_get_data_def entry_ok_def keeps_linksD [OF g])
  ultimately show ?thesis by blast
qed

text \<open>The consumer clears the entry at its pointer and passes it back.\<close>

lemma reset_txc_rb_entry_consume:
  assumes ring: "tx_ring s (q # qs) fs"
  shows "\<exists>H p. reset_txc_rb_entry s = Some (s\<lparr>heap := H, txc_rb := Some p\<rparr>) \<and>
           tx_ring (s\<lparr>heap := H, txc_rb := Some p\<rparr>) qs (fs @ [q]) \<and>
           map (data_bytes H) qs = map (data_bytes (heap s)) qs"
proof -
  note r = ring [unfolded tx_ring_def]
  have d: "distinct (q # qs @ fs)" using tx_ring_distinct [OF ring] by simp
  have q: "entry_ok (pkt_size s) (rb (heap s) q)" "rb_owner (rb (heap s) q) = RING_BUF_OWNER_CONSUMER"
    using r by (auto simp: rb_queue_def)
  define g where "g r = r\<lparr>rb_buf := memcpy_at 4 (replicate (pkt_size s) 0) (rb_buf r), rb_head := 4, rb_tail := 4\<rparr>"
    for r :: ring_buf
  let ?H1 = "upd_rb q g (heap s)"
  let ?H = "snd (rb_step q ?H1)" and ?p = "fst (rb_step q ?H1)"
  have g: "keeps_links g" by (simp add: keeps_links_def g_def)
  have buf: "drop 4 (rb_buf (g (rb (heap s) q))) = replicate (pkt_size s) 0"
    "length (rb_buf (g (rb (heap s) q))) = 4 + pkt_size s"
    using q(1) by (simp_all add: g_def memcpy_at_def entry_ok_def)
  have "rb_queue ?H1 (q # qs) fs"
    by (rule rb_queue_cong [of "heap s", rotated]) (use r in \<open>auto simp: keeps_linksD [OF g]\<close>)
  then have qq: "rb_queue ?H qs (fs @ [q])" "?p = hd (qs @ fs @ [q])"
    using rq.consume by blast+
  have "reset_txc_rb_entry s = Some (s\<lparr>heap := ?H, txc_rb := Some ?p\<rparr>)"
    using r q unfolding reset_txc_rb_entry_def
    by (auto simp: write_data_def entry_ok_def rb_simps rb_step_def Let_def g_def upd_rb_def
        intro!: arg_cong [where f = Some])
  moreover have "tx_ring (s\<lparr>heap := ?H, txc_rb := Some ?p\<rparr>) qs (fs @ [q])"
    unfolding tx_ring_def using qq r d g buf
    by (cases fs) (auto simp: rb_step_rb entry_ok_def heap_ok_def keeps_linksD [OF g])
  moreover have "map (data_bytes ?H) qs = map (data_bytes (heap s)) qs"
    using d by (auto simp: rb_step_rb data_bytes_def ring_buf_get_data_def)
  ultimately show ?thesis by blast
qed

lemma reset_txc_rb_entry_empty:
  "tx_ring s [] fs \<Longrightarrow> reset_txc_rb_entry s = Some s"
  using rq.empty_iff [of "heap s" "[]" fs]
  by (auto simp: reset_txc_rb_entry_def tx_ring_def)

section \<open>Packets\<close>

text \<open>
  The reference for what goes on the wire: a message is cut into pieces of the payload size;
  each piece follows a header with the type, the number of packets still to come and the
  first-packet mark, and is filled up with zeros (the last two bytes are the place of the
  checksum, which the SPI hardware provides).
\<close>

definition mk_packet :: "nat \<Rightarrow> u16 \<Rightarrow> u8 list \<Rightarrow> u8 list" where
  "mk_packet n bitmask payload =
     le16_bytes bitmask @ payload @ replicate (n - HDR_SIZE - length payload) 0"

fun pkt_list :: "nat \<Rightarrow> u16 \<Rightarrow> nat \<Rightarrow> bool \<Rightarrow> u8 list \<Rightarrow> u8 list list" where
  "pkt_list n t 0 first buf = []"
| "pkt_list n t (Suc k) first buf =
     mk_packet n (pkt_bitmask t k first) (take (PL_SIZE n) buf) #
     pkt_list n t k False (drop (PL_SIZE n) buf)"

definition num_pkts :: "nat \<Rightarrow> nat \<Rightarrow> nat" where
  "num_pkts pl len = (len + pl - 1) div pl"

definition packetize :: "nat \<Rightarrow> u16 \<Rightarrow> u8 list \<Rightarrow> u8 list list" where
  "packetize n t buf = pkt_list n t (num_pkts (PL_SIZE n) (length buf)) True buf"

lemma num_pkts_0 [simp]: "num_pkts pl 0 = 0"
  by (cases pl) (simp_all add: num_pkts_def)

lemma num_pkts_step:
  assumes "0 < pl" and "0 < len"
  shows "num_pkts pl len = Suc (num_pkts pl (len - pl))"
proof (cases "len \<le> pl")
  case True
  then have "num_pkts pl len = (pl + (len - 1)) div pl" using assms by (simp add: num_pkts_def add.commute)
  also have "\<dots> = 1" using True assms by (subst div_add_self1) simp_all
  finally show ?thesis using True by simp
next
  case False
  then obtain d where d: "len = pl + d" "0 < d" by (metis less_imp_add_positive linorder_not_le)
  then have "num_pkts pl len = (pl + (d + pl - 1)) div pl" by (simp add: num_pkts_def add.commute)
  also have "\<dots> = Suc (num_pkts pl d)" using assms by (subst div_add_self1) (simp_all add: num_pkts_def)
  finally show ?thesis using d(1) by simp
qed

lemma num_pkts_pos_iff: "0 < pl \<Longrightarrow> 0 < num_pkts pl len \<longleftrightarrow> 0 < len"
  using num_pkts_step [of pl len] by (cases "len = 0") simp_all

lemma num_pkts_covers: "0 < pl \<Longrightarrow> len \<le> num_pkts pl len * pl"
proof (induction len rule: less_induct)
  case (less len)
  show ?case
  proof (cases "len = 0")
    case False
    then have "len - pl \<le> num_pkts pl (len - pl) * pl" using less by auto
    with num_pkts_step [of pl len] False less.prems show ?thesis by simp
  qed simp
qed

lemma num_pkts_mono: "a \<le> b \<Longrightarrow> num_pkts pl a \<le> num_pkts pl b"
  by (simp add: num_pkts_def div_le_mono diff_le_mono)

lemma length_pkt_list [simp]: "length (pkt_list n t k first buf) = k"
  by (induction k arbitrary: first buf) simp_all

lemma length_mk_packet: "HDR_SIZE + length payload \<le> n \<Longrightarrow> length (mk_packet n b payload) = n"
  by (simp add: mk_packet_def dl_consts)

section \<open>Queueing a message\<close>

lemma upd_rb_upd_rb: "upd_rb p f (upd_rb p g H) = upd_rb p (\<lambda>r. f (g r)) H"
  by (simp add: upd_rb_def)

lemma write_packet_bytes:
  assumes "length buf = 4 + n" and "drop 4 buf = replicate n 0" and "HDR_SIZE + length payload \<le> n"
  shows "drop 4 (memcpy_at (4 + HDR_SIZE) payload (memcpy_at 4 (le16_bytes b) buf)) = mk_packet n b payload"
proof -
  have "drop (length payload + 6) buf = drop (2 + length payload) (drop 4 buf)"
    by (simp add: add.commute)
  also have "\<dots> = replicate (n - 2 - length payload) 0" using assms(2) by simp
  finally show ?thesis
    using assms by (simp add: memcpy_at_def mk_packet_def dl_consts)
qed

lemma fill_entry:
  assumes ring: "tx_ring s qs (f # fs)" and pl: "HDR_SIZE + length payload \<le> pkt_size s"
  shows "\<exists>g. do { s1 \<leftarrow> set_txp_hdr b s;
                  H1 \<leftarrow> write_data f HDR_SIZE payload (heap s1);
                  Some (s1\<lparr>heap := snd (ring_buf_put f (pkt_size s1) H1)\<rparr>) } =
             Some (s\<lparr>heap := upd_rb f g (heap s)\<rparr>) \<and> keeps_links g \<and>
           length (rb_buf (g (rb (heap s) f))) = 4 + pkt_size s \<and>
           drop 4 (rb_buf (g (rb (heap s) f))) = mk_packet (pkt_size s) b payload"
proof -
  define g where "g r = r\<lparr>rb_buf := memcpy_at (4 + HDR_SIZE) payload (memcpy_at 4 (le16_bytes b) (rb_buf r)),
     rb_tail := rb_tail r + pkt_size s\<rparr>" for r :: ring_buf
  have f: "rb_data (rb (heap s) f) = 4" "length (rb_buf (rb (heap s) f)) = 4 + pkt_size s"
    "drop 4 (rb_buf (rb (heap s) f)) = replicate (pkt_size s) 0"
    using ring by (auto simp: tx_ring_def entry_ok_def)
  have "do { s1 \<leftarrow> set_txp_hdr b s; H1 \<leftarrow> write_data f HDR_SIZE payload (heap s1);
             Some (s1\<lparr>heap := snd (ring_buf_put f (pkt_size s1) H1)\<rparr>) } =
        Some (s\<lparr>heap := upd_rb f g (heap s)\<rparr>)"
    using ring f pl
    by (simp add: set_txp_hdr_def tx_ring_def write_data_def ring_buf_get_data_def dl_consts
        ring_buf_put_def upd_rb_upd_rb g_def [abs_def] Let_def)
  moreover have "keeps_links g" by (simp add: keeps_links_def g_def)
  moreover have "length (rb_buf (g (rb (heap s) f))) = 4 + pkt_size s"
    using f pl by (simp add: g_def dl_consts)
  moreover have "drop 4 (rb_buf (g (rb (heap s) f))) = mk_packet (pkt_size s) b payload"
    using write_packet_bytes [OF f(2,3) pl] by (simp add: g_def)
  ultimately show ?thesis by blast
qed

text \<open>What the transmit side changes in the state, and nothing else.\<close>

definition tx_upd :: "rb_heap \<Rightarrow> addr \<Rightarrow> mods_spi_dl_s \<Rightarrow> mods_spi_dl_s" where
  "tx_upd H p s = s\<lparr>heap := H, txp_rb := Some p\<rparr>"

lemma heap_tx_upd [simp]: "heap (tx_upd H p s) = H"
  by (simp add: tx_upd_def)

lemma tx_upd_simps [simp]:
  "txp_rb (tx_upd H p s) = Some p" "txc_rb (tx_upd H p s) = txc_rb s"
  "pkt_size (tx_upd H p s) = pkt_size s" "tx_upd H p (tx_upd H' p' s) = tx_upd H p s"
  by (simp_all add: tx_upd_def)

lemma queue_one:
  assumes ring: "tx_ring s qs (f # fs)" and pl: "HDR_SIZE + length payload \<le> pkt_size s"
  shows "\<exists>H p. do { s1 \<leftarrow> set_txp_hdr b s;
                    H1 \<leftarrow> write_data f HDR_SIZE payload (heap s1);
                    next_txp (s1\<lparr>heap := snd (ring_buf_put f (pkt_size s1) H1)\<rparr>) } =
             Some (tx_upd H p s) \<and>
           tx_ring (tx_upd H p s) (qs @ [f]) fs \<and>
           map (data_bytes H) (qs @ [f]) =
             map (data_bytes (heap s)) qs @ [mk_packet (pkt_size s) b payload]"
proof -
  obtain g where g: "do { s1 \<leftarrow> set_txp_hdr b s; H1 \<leftarrow> write_data f HDR_SIZE payload (heap s1);
          Some (s1\<lparr>heap := snd (ring_buf_put f (pkt_size s1) H1)\<rparr>) } =
        Some (s\<lparr>heap := upd_rb f g (heap s)\<rparr>)" "keeps_links g"
      "length (rb_buf (g (rb (heap s) f))) = 4 + pkt_size s"
      "drop 4 (rb_buf (g (rb (heap s) f))) = mk_packet (pkt_size s) b payload"
    using fill_entry [OF ring pl] by blast
  then have "do { s1 \<leftarrow> set_txp_hdr b s; H1 \<leftarrow> write_data f HDR_SIZE payload (heap s1);
          next_txp (s1\<lparr>heap := snd (ring_buf_put f (pkt_size s1) H1)\<rparr>) } =
        next_txp (s\<lparr>heap := upd_rb f g (heap s)\<rparr>)"
    by (auto simp: bind_eq_Some_conv)
  with produce_pkt [OF ring g(2,3)] g(4) show ?thesis by (auto simp: tx_upd_def)
qed

lemma queue_data_loop_queue:
  assumes "tx_ring s qs fs" and "0 < PL_SIZE (pkt_size s)" and "length dbuf \<le> len"
    and "k = num_pkts (PL_SIZE (pkt_size s)) (length dbuf)"
  shows "\<exists>H p. queue_data_loop t len (PL_SIZE (pkt_size s)) k (length dbuf) dbuf s =
             Some (if k \<le> length fs then OK else - ENOMEM, tx_upd H p s) \<and>
           tx_ring (tx_upd H p s) (qs @ take k fs) (drop k fs) \<and>
           map (data_bytes H) (qs @ take k fs) = map (data_bytes (heap s)) qs @
             take (length fs) (pkt_list (pkt_size s) t k (length dbuf = len) dbuf)"
  using assms
proof (induction k arbitrary: s qs fs dbuf)
  case 0
  then have "txp_rb s = Some (hd (fs @ qs))" by (simp add: tx_ring_def)
  then have "tx_upd (heap s) (hd (fs @ qs)) s = s" by (simp add: tx_upd_def)
  with 0 show ?case by (intro exI [of _ "heap s"] exI [of _ "hd (fs @ qs)"]) simp
next
  case (Suc k)
  let ?pl = "PL_SIZE (pkt_size s)"
  have len: "0 < length dbuf" using Suc.prems(4) by (cases dbuf) auto
  have txp: "txp_rb s = Some (hd (fs @ qs))" using Suc.prems(1) by (simp add: tx_ring_def)
  have full: "ring_buf_is_consumers (heap s) (hd (fs @ qs)) \<longleftrightarrow> fs = []"
    using rq.full_iff [of "heap s" qs fs] Suc.prems(1) by (simp add: tx_ring_def)
  show ?case
  proof (cases fs)
    case Nil
    have "tx_upd (heap s) (hd qs) s = s" using txp Nil by (simp add: tx_upd_def)
    with Nil len txp full Suc.prems(1) show ?thesis
      by (intro exI [of _ "heap s"] exI [of _ "hd qs"]) simp
  next
    case (Cons f fs')
    let ?this = "min (length dbuf) ?pl" and ?b = "pkt_bitmask t k (length dbuf = len)"
    have piece: "take ?this dbuf = take ?pl dbuf" "drop ?this dbuf = drop ?pl dbuf"
      "length dbuf - ?this = length (drop ?pl dbuf)" by (auto simp: min_def)
    have pl: "HDR_SIZE + length (take ?pl dbuf) \<le> pkt_size s"
      using Suc.prems(2) by (auto simp: dl_consts)
    obtain H p where nx: "do { s1 \<leftarrow> set_txp_hdr ?b s;
            H1 \<leftarrow> write_data f HDR_SIZE (take ?pl dbuf) (heap s1);
            next_txp (s1\<lparr>heap := snd (ring_buf_put f (pkt_size s1) H1)\<rparr>) } = Some (tx_upd H p s)"
      and ring: "tx_ring (tx_upd H p s) (qs @ [f]) fs'"
      and data: "map (data_bytes H) (qs @ [f]) = map (data_bytes (heap s)) qs @
                   [mk_packet (pkt_size s) ?b (take ?pl dbuf)]"
      using queue_one [OF Suc.prems(1) [unfolded Cons] pl] by blast
    have k: "k = num_pkts (PL_SIZE (pkt_size (tx_upd H p s))) (length (drop ?pl dbuf))"
      using Suc.prems(4) num_pkts_step [OF Suc.prems(2) len] by simp
    have pl': "0 < PL_SIZE (pkt_size (tx_upd H p s))" and le: "length (drop ?pl dbuf) \<le> len"
      using Suc.prems(2,3) by simp_all
    obtain H' p' where ih: "queue_data_loop t len ?pl k (length (drop ?pl dbuf)) (drop ?pl dbuf) (tx_upd H p s) =
          Some (if k \<le> length fs' then OK else - ENOMEM, tx_upd H' p' s)"
        "tx_ring (tx_upd H' p' s) ((qs @ [f]) @ take k fs') (drop k fs')"
        "map (data_bytes H') ((qs @ [f]) @ take k fs') = map (data_bytes H) (qs @ [f]) @
             take (length fs') (pkt_list (pkt_size s) t k (length (drop ?pl dbuf) = len) (drop ?pl dbuf))"
      using Suc.IH [OF ring pl' le k, unfolded tx_upd_simps heap_tx_upd] by blast
    have "length (drop ?pl dbuf) < len"
      using len Suc.prems(2,3) unfolding length_drop by linarith
    then have notfirst: "(length (drop ?pl dbuf) = len) = False" by simp
    have "queue_data_loop t len ?pl (Suc k) (length dbuf) dbuf s =
          queue_data_loop t len ?pl k (length (drop ?pl dbuf)) (drop ?pl dbuf) (tx_upd H p s)"
      using len txp full Cons nx piece
      by (auto simp: bind_eq_Some_conv Let_def)
    with ih data notfirst Cons show ?thesis
      by (intro exI [of _ H'] exI [of _ p']) simp
  qed
qed

lemma queue_data_ring:
  assumes "tx_ring s qs fs" and "0 < PL_SIZE (pkt_size s)" and "bstate s = BASE_ATTACHED"
    and "length buf \<le> MODS_DL_PAYLOAD_MAX_SZ"
  shows "\<exists>H p. queue_data t buf s =
            Some (if length (packetize (pkt_size s) t buf) \<le> length fs then OK else - ENOMEM,
                  tx_upd H p s) \<and>
          tx_ring (tx_upd H p s) (qs @ take (length (packetize (pkt_size s) t buf)) fs)
            (drop (length (packetize (pkt_size s) t buf)) fs) \<and>
          map (data_bytes H) (qs @ take (length (packetize (pkt_size s) t buf)) fs) =
            map (data_bytes (heap s)) qs @ take (length fs) (packetize (pkt_size s) t buf)"
proof -
  have "queue_data t buf s = queue_data_loop t (length buf) (PL_SIZE (pkt_size s))
      (num_pkts (PL_SIZE (pkt_size s)) (length buf)) (length buf) buf s"
    using assms(3,4) by (simp add: queue_data_def num_pkts_def Let_def)
  with queue_data_loop_queue [OF assms(1,2) order_refl refl, where dbuf = buf and t = t] show ?thesis
    by (simp add: packetize_def)
qed

text \<open>
  C15. Queueing a message for the attached base appends exactly its packets to the transmit
  queue and reports success, if there is room for all of them; with less room the call returns
  \<^verbatim>\<open>-ENOMEM\<close>, and the packets that did fit stay in the queue: the base will be sent a message
  that has no end.
\<close>

theorem queue_data_spec:
  assumes "tx_queue s pkts room" and "0 < PL_SIZE (pkt_size s)" and "bstate s = BASE_ATTACHED"
    and "length buf \<le> MODS_DL_PAYLOAD_MAX_SZ"
  shows "\<exists>s'. queue_data t buf s =
            Some (if length (packetize (pkt_size s) t buf) \<le> room then OK else - ENOMEM, s') \<and>
          tx_queue s' (pkts @ take room (packetize (pkt_size s) t buf))
            (room - length (packetize (pkt_size s) t buf))"
proof -
  obtain qs fs where r: "tx_ring s qs fs" "pkts = map (data_bytes (heap s)) qs" "room = length fs"
    using assms(1) by (auto simp: tx_queue_def)
  from queue_data_ring [OF r(1) assms(2-4), of t] r(2,3) show ?thesis
    unfolding tx_queue_def by (metis length_drop heap_tx_upd)
qed

section \<open>Emptying and resizing the ring\<close>

lemma drain_tx_empties:
  assumes "tx_ring s qs fs"
  shows "\<exists>H c. drain_tx s = Some (s\<lparr>heap := H, txc_rb := Some c\<rparr>) \<and>
           tx_ring (s\<lparr>heap := H, txc_rb := Some c\<rparr>) [] (fs @ qs)"
  using assms
proof (induction qs arbitrary: s fs)
  case Nil
  then have c: "txc_rb s = Some (hd fs)" "\<not> ring_buf_is_consumers (heap s) (hd fs)"
    using rq.queue_cons [of "heap s" "[]" fs "hd fs"] rq.queue_ne [of "heap s" "[]" fs]
    by (auto simp: tx_ring_def)
  then have "drain_tx s = Some s" by (subst drain_tx.simps) simp
  moreover have "s\<lparr>heap := heap s, txc_rb := Some (hd fs)\<rparr> = s" using c(1) by simp
  ultimately show ?case using Nil by (metis append_Nil2)
next
  case (Cons q qs)
  then have c: "txc_rb s = Some q" "ring_buf_is_consumers (heap s) q"
    using rq.queue_cons [of "heap s" "q # qs" fs q] by (auto simp: tx_ring_def)
  obtain H p where r: "reset_txc_rb_entry s = Some (s\<lparr>heap := H, txc_rb := Some p\<rparr>)"
      "tx_ring (s\<lparr>heap := H, txc_rb := Some p\<rparr>) qs (fs @ [q])"
    using reset_txc_rb_entry_consume [OF Cons.prems] by blast
  then have "drain_tx s = drain_tx (s\<lparr>heap := H, txc_rb := Some p\<rparr>)"
    using c by (subst drain_tx.simps) simp
  with Cons.IH [OF r(2)] show ?case by simp
qed

lemma alloc_callback_headroom: "headroom_cb 4 (Some alloc_callback)"
  unfolding headroom_cb_def
proof (intro allI impI, elim conjE)
  fix f :: "addr \<Rightarrow> rb_heap \<times> u32 \<Rightarrow> int \<times> rb_heap \<times> u32" and p and H :: rb_heap and arg
  assume f: "Some alloc_callback = Some f" and len: "4 \<le> length (rb_buf (rb H p))"
  let ?buf = "memcpy_at 0 (le32_bytes arg) (rb_buf (rb H p))"
  have "f p (H, arg) = (OK, upd_rb p (\<lambda>r. r\<lparr>rb_buf := ?buf\<rparr>) H, arg + 1)"
    using f by (auto simp: alloc_callback_def upd_rb_def)
  moreover have "length ?buf = length (rb_buf (rb H p))" "drop 4 ?buf = drop 4 (rb_buf (rb H p))"
    using len by (simp_all add: memcpy_at_def)
  ultimately show "\<exists>ret buf arg'. f p (H, arg) = (ret, upd_rb p (\<lambda>r. r\<lparr>rb_buf := buf\<rparr>) H, arg') \<and>
      length buf = length (rb_buf (rb H p)) \<and> drop 4 buf = drop 4 (rb_buf (rb H p))"
    by blast
qed

lemma alloc_callback_ok: "\<forall>f p x. Some alloc_callback = Some f \<longrightarrow> fst (f p x) = 0"
  by (auto simp: alloc_callback_def split_beta Let_def errno_simps)

definition mem_ok :: "dl_env \<Rightarrow> bool" where
  "mem_ok e \<longleftrightarrow> (\<forall>p. \<not> rb_oom e p) \<and> (\<forall>n. \<not> rx_oom e n)"

lemma rb_cycle_rb_queue_fresh:
  "rb_cycle H ps \<Longrightarrow> \<forall>p \<in> set ps. fresh_entry h d t (rb H p) \<Longrightarrow> rb_queue H [] ps"
  by (auto simp: rb_queue_def fresh_entry_def)

text \<open>The ring for a packet size, after the old ring (if there was one) is freed.\<close>

lemma alloc_tx_ring:
  assumes "heap_ok H" and "mem_ok e" and "0 < m" and "0 < n"
  shows "\<exists>p H' x. ring_buf_alloc_ring (rb_oom e) m 4 n 0 (Some alloc_callback) None (H, 0) = (Some p, H', x) \<and>
           tx_ring (s\<lparr>heap := H', rx_buf := Some rx, txp_rb := Some p, txc_rb := Some p, pkt_size := n\<rparr>)
             [] [p ..< p + m]"
proof -
  have "\<forall>q. \<not> rb_oom e q" using assms(2) by (simp add: mem_ok_def)
  from ring_buf_alloc_ring_succeeds [OF this alloc_callback_ok assms(3)] obtain p H' x where
    al: "ring_buf_alloc_ring (rb_oom e) m 4 n 0 (Some alloc_callback) None (H, 0) = (Some p, H', x)"
    by blast
  note c = ring_buf_alloc_ring_cycle [OF alloc_callback_headroom _ assms(1) al]
  have "rb_queue H' [] [p ..< p + m]"
    by (rule rb_cycle_rb_queue_fresh [OF c(2,3)]) simp_all
  moreover have "\<forall>q \<in> set [p ..< p + m]. entry_ok n (rb H' q) \<and> drop 4 (rb_buf (rb H' q)) = replicate n 0"
    using c(3) by (auto simp: fresh_entry_def entry_ok_def)
  ultimately show ?thesis using al c(5) assms(3)
    by (intro exI [of _ p] exI [of _ H'] exI [of _ x]) (simp add: tx_ring_def)
qed

lemma set_pkt_size_same:
  "tx_ring s qs fs \<Longrightarrow> qs = [] \<or> fs = [] \<Longrightarrow> set_pkt_size e (pkt_size s) s = Some s"
  by (auto simp: set_pkt_size_def tx_ring_def)

lemma rb_entries_pos: "n = 36 \<or> n = 68 \<Longrightarrow> rb_entries_for n = 160"
  by (auto simp: rb_entries_for_def dl_consts)

lemma free_tx_ring:
  assumes "tx_ring s qs fs"
  shows "\<exists>H. ring_buf_free_ring None (txp_rb s) (heap s, ()) = Some (H, ()) \<and> heap_ok H"
proof -
  have cyc: "rb_cycle (heap s) (fs @ qs)" and p: "txp_rb s = Some (hd (fs @ qs))"
    using assms rb_cycle_rotate_many by (auto simp: tx_ring_def rb_queue_def)
  have "quiet_cb (None :: unit free_cb option)" by (simp add: quiet_cb_def)
  from ring_buf_free_ring_frees [OF cyc this] p assms show ?thesis
    by (force simp: tx_ring_def heap_ok_def)
qed

lemma set_pkt_size_change:
  assumes ring: "tx_ring s qs fs" and mem: "mem_ok e" and n: "n = 36 \<or> n = 68"
    and ch: "n \<noteq> pkt_size s \<or> txp_rb s \<noteq> txc_rb s"
  shows "\<exists>H p. set_pkt_size e n s = Some (s\<lparr>heap := H, rx_buf := Some (replicate n 0),
             txp_rb := Some p, txc_rb := Some p, pkt_size := n\<rparr>) \<and>
           tx_ring (s\<lparr>heap := H, rx_buf := Some (replicate n 0),
             txp_rb := Some p, txc_rb := Some p, pkt_size := n\<rparr>) [] [p ..< p + 160]"
proof -
  have n0: "0 < n" using n by (elim disjE) simp_all
  have m: "0 < (160 :: nat)" by simp
  have ch': "(n = pkt_size s \<and> txp_rb s = txc_rb s) = False" using ch by blast
  obtain H where H: "ring_buf_free_ring None (txp_rb s) (heap s, ()) = Some (H, ())" "heap_ok H"
    using free_tx_ring [OF ring] by blast
  obtain p H' x where al: "ring_buf_alloc_ring (rb_oom e) 160 4 n 0 (Some alloc_callback) None (H, 0) = (Some p, H', x)"
      "tx_ring (s\<lparr>heap := H', rx_buf := Some (replicate n 0), txp_rb := Some p, txc_rb := Some p, pkt_size := n\<rparr>)
             [] [p ..< p + 160]"
    using alloc_tx_ring [OF H(2) mem m n0, of "replicate n 0" s] by metis
  have "set_pkt_size e n s = Some (s\<lparr>heap := H', rx_buf := Some (replicate n 0),
             txp_rb := Some p, txc_rb := Some p, pkt_size := n\<rparr>)"
    using H(1) al(1) mem by (simp add: set_pkt_size_def ch' rb_entries_pos [OF n] mem_ok_def)
  with al(2) show ?thesis by blast
qed

end
