(* ===== verification/DatalinkAck.thy ===== *)
theory DatalinkAck
  imports DatalinkTx
begin

text \<open>
  Setting up a transfer and the acknowledgement handshake: when the polling loops end, what a
  missing acknowledgement does to the packet being sent, and how the two shared pins go back
  and forth between the SPI port and GPIO use.
\<close>

section \<open>The polling loops end\<close>

text \<open>
  The time between two readings of the microsecond counter in a polling loop is at least a
  microsecond and at most a millisecond; the counter itself wraps.
\<close>

definition ticking :: "(nat \<Rightarrow> u32) \<Rightarrow> bool" where
  "ticking u \<longleftrightarrow> (\<forall>k. 1 \<le> u (Suc k) - u k \<and> u (Suc k) - u k \<le> 1000)"

definition clock_ok :: "dl_env \<Rightarrow> bool" where
  "clock_ok e \<longleftrightarrow> ticking (usec_at e) \<and> ticking (usec2_at e)"

lemma ticking_reaches:
  assumes "ticking u"
  shows "\<exists>k. \<not> u k - st < (200000 :: u32)"
proof (rule ccontr)
  assume "\<nexists>k. \<not> u k - st < 200000"
  then have low: "unat (u k - st) < 200000" for k by (simp add: word_less_nat_alt)
  have "k \<le> unat (u k - st)" for k
  proof (induction k)
    case (Suc k)
    let ?d = "u (Suc k) - u k"
    have d: "1 \<le> unat ?d" "unat ?d \<le> 1000"
      using assms by (simp_all add: ticking_def word_le_nat_alt)
    have "unat (u (Suc k) - st) = unat (u k - st) + unat ?d"
      using low [of k] d(2) unat_word_ariths(1) [of "u k - st" ?d] by simp
    with Suc d(1) show ?case by simp
  qed simp
  from this [of 200000] low [of 200000] show False by simp
qed

lemma ack_wait_ends:
  assumes "\<not> usec_at e k - start_usec e < ACK_TIMEOUT_US" and "j \<le> k"
  shows "\<exists>b. ack_wait e j = Some b"
  using assms(2)
proof (induction "k - j" arbitrary: j)
  case 0
  with assms(1) show ?case by (subst ack_wait.simps) auto
next
  case (Suc n)
  then have "\<exists>b. ack_wait e (Suc j) = Some b" by simp
  then show ?case by (subst ack_wait.simps) auto
qed

lemma false_ack_wait_ends:
  assumes "\<not> usec2_at e k - start_usec e < 2 * ACK_TIMEOUT_US" and "j \<le> k"
  shows "false_ack_wait e j = Some ()"
  using assms(2)
proof (induction "k - j" arbitrary: j)
  case 0
  with assms(1) show ?case by (subst false_ack_wait.simps) simp
next
  case (Suc n)
  then have "false_ack_wait e (Suc j) = Some ()" by simp
  then show ?case by (subst false_ack_wait.simps) simp
qed

lemma waits_end:
  assumes "clock_ok e"
  shows "\<exists>b. ack_wait e 0 = Some b" "false_ack_wait e 0 = Some ()"
proof -
  obtain k where "\<not> usec_at e k - start_usec e < 200000"
    using ticking_reaches assms by (auto simp: clock_ok_def)
  then have "\<not> usec_at e k - start_usec e < ACK_TIMEOUT_US"
    by (simp add: dl_consts word_less_nat_alt)
  then show "\<exists>b. ack_wait e 0 = Some b" by (rule ack_wait_ends) simp
  obtain k where "\<not> usec2_at e k - start_usec e < 200000"
    using ticking_reaches assms by (auto simp: clock_ok_def)
  then show "false_ack_wait e 0 = Some ()"
    by (intro false_ack_wait_ends [of e k]) (simp_all add: dl_consts)
qed

section \<open>The handshake\<close>

definition no_ack :: "dl_env \<Rightarrow> mods_spi_dl_s \<Rightarrow> bool" where
  "no_ack e s \<longleftrightarrow> ack_supported s \<and> txc_rb_is_valid s = Some True \<and> ack_wait e 0 = Some True"

text \<open>Taking the two pins from the SPI port for the handshake.\<close>

definition take_pins :: "bool \<Rightarrow> mods_spi_dl_s \<Rightarrow> mods_spi_dl_s" where
  "take_pins a s =
     s\<lparr>tack_cfg := Some (tack_pin s), tack_pin := Gpio_out a,
       rack_cfg := Some (rack_pin s), rack_pin := Gpio_in\<rparr>"

lemma ack_handler_off: "\<not> ack_supported s \<Longrightarrow> ack_handler e a s = Some (True, s)"
  by (simp add: ack_handler_def)

lemma ack_handler_on:
  assumes "clock_ok e" and "ack_supported s" and "txc_rb_is_valid s = Some v"
  shows "ack_handler e a s =
     (if no_ack e s
      then if tx_tries_remaining s - 1 > 0
           then Some (False, (take_pins (a = ACK_NEEDED) s)\<lparr>tx_tries_remaining := tx_tries_remaining s - 1\<rparr>)
           else Some (True, (take_pins (a = ACK_NEEDED) s)\<lparr>tx_tries_remaining := NUM_TRIES\<rparr>)
      else Some (True, (take_pins (a = ACK_NEEDED) s)
                         \<lparr>tx_tries_remaining := if v then NUM_TRIES else tx_tries_remaining s\<rparr>))"
proof -
  obtain b where "ack_wait e 0 = Some b" using waits_end [OF assms(1)] by blast
  moreover have "txc_rb_is_valid (take_pins c s) = Some v" for c
    using assms(3) by (simp add: txc_rb_is_valid_def take_pins_def)
  ultimately show ?thesis
    using assms waits_end(2) [OF assms(1)]
    by (cases v; cases b)
      (auto simp: ack_handler_def no_ack_def take_pins_def Let_def intro: mods_spi_dl_s.equality)
qed

section \<open>Setting up a transfer\<close>

definition armed :: "u8 list \<Rightarrow> bool \<Rightarrow> mods_spi_dl_s \<Rightarrow> mods_spi_dl_s" where
  "armed pkt i s =
     (if ack_supported s then restore_pins s else s)
       \<lparr>xfer_setup := True, spi_tx := Some pkt, rfr := True, host_int := i\<rparr>"

lemma tx_ring_frame:
  "heap s' = heap s \<Longrightarrow> txp_rb s' = txp_rb s \<Longrightarrow> txc_rb s' = txc_rb s \<Longrightarrow> pkt_size s' = pkt_size s \<Longrightarrow>
   tx_ring s' qs fs = tx_ring s qs fs"
  by (simp add: tx_ring_def)

lemma tx_ring_armed [simp]: "tx_ring (armed pkt i s) qs fs = tx_ring s qs fs"
  by (rule tx_ring_frame) (simp_all add: armed_def restore_pins_def)

lemma armed_simps [simp]:
  "heap (armed pkt i s) = heap s" "spi_tx (armed pkt i s) = Some pkt"
  "xfer_setup (armed pkt i s)" "rfr (armed pkt i s)" "host_int (armed pkt i s) = i"
  "pkt_size (armed pkt i s) = pkt_size s" "bstate (armed pkt i s) = bstate s"
  "ack_supported (armed pkt i s) = ack_supported s"
  "txp_rb (armed pkt i s) = txp_rb s" "txc_rb (armed pkt i s) = txc_rb s"
  "tx_tries_remaining (armed pkt i s) = tx_tries_remaining s"
  by (simp_all add: armed_def restore_pins_def)

lemma xfer_idle:
  "tx_ring s qs fs \<Longrightarrow> xfer_setup s \<or> qs = [] \<and> wake_n e \<Longrightarrow> xfer e s = Some s"
  using rq.empty_iff [of "heap s" qs fs] by (auto simp: xfer_def tx_ring_def)

lemma data_bytes_length:
  "tx_ring s qs fs \<Longrightarrow> p \<in> set (qs @ fs) \<Longrightarrow> length (data_bytes (heap s) p) = pkt_size s"
  by (auto simp: tx_ring_def entry_ok_def data_bytes_def ring_buf_get_data_def)

lemma xfer_data:
  assumes "tx_ring s (q # qs) fs" and "\<not> xfer_setup s"
  shows "xfer e s = Some (armed (data_bytes (heap s) q) True s)"
proof -
  have "txc_rb s = Some q" "\<not> ring_buf_is_producers (heap s) q"
    using assms(1) rq.empty_iff [of "heap s" "q # qs" fs] by (simp_all add: tx_ring_def)
  moreover have "take (pkt_size s) (data_bytes (heap s) q) = data_bytes (heap s) q"
    using data_bytes_length [OF assms(1), of q] by simp
  ultimately show ?thesis
    using assms(2) by (simp add: xfer_def armed_def restore_pins_def)
qed

lemma setup_for_dummy_tx_ring:
  assumes ring: "tx_ring s qs (f # fs)" and n: "HDR_SIZE \<le> pkt_size s"
  shows "\<exists>H p. setup_for_dummy_tx s = Some (tx_upd H p s) \<and> tx_ring (tx_upd H p s) (qs @ [f]) fs \<and>
           data_bytes H f = mk_packet (pkt_size s) HDR_BIT_DUMMY []"
proof -
  define g where "g r = r\<lparr>rb_buf := memcpy_at 4 (le16_bytes HDR_BIT_DUMMY) (rb_buf r)\<rparr>" for r :: ring_buf
  have f: "rb_data (rb (heap s) f) = 4" "length (rb_buf (rb (heap s) f)) = 4 + pkt_size s"
    "drop 4 (rb_buf (rb (heap s) f)) = replicate (pkt_size s) 0"
    using ring by (auto simp: tx_ring_def entry_ok_def)
  have len: "length (rb_buf (g (rb (heap s) f))) = 4 + pkt_size s"
    using f n by (simp add: g_def dl_consts)
  have "drop 6 (rb_buf (rb (heap s) f)) = drop 2 (drop 4 (rb_buf (rb (heap s) f)))" by simp
  then have d: "drop 4 (rb_buf (g (rb (heap s) f))) = mk_packet (pkt_size s) HDR_BIT_DUMMY []"
    using f by (simp add: g_def memcpy_at_def mk_packet_def dl_consts)
  have g: "keeps_links g" by (simp add: keeps_links_def g_def)
  have "set_txp_hdr HDR_BIT_DUMMY s = Some (s\<lparr>heap := upd_rb f g (heap s)\<rparr>)"
    using ring f n
    by (simp add: set_txp_hdr_def tx_ring_def write_data_def ring_buf_get_data_def dl_consts g_def [abs_def])
  with produce_pkt [OF ring g len] d show ?thesis
    by (auto simp: setup_for_dummy_tx_def tx_upd_def)
qed

lemma xfer_dummy:
  assumes ring: "tx_ring s [] fs" and "\<not> xfer_setup s" and "\<not> wake_n e" and "HDR_SIZE \<le> pkt_size s"
  shows "\<exists>H p f fs'. fs = f # fs' \<and>
           xfer e s = Some (armed (mk_packet (pkt_size s) HDR_BIT_DUMMY []) False (tx_upd H p s)) \<and>
           tx_ring (tx_upd H p s) [f] fs' \<and> data_bytes H f = mk_packet (pkt_size s) HDR_BIT_DUMMY []"
proof -
  obtain f fs' where fs: "fs = f # fs'"
    using ring rq.queue_ne [of "heap s" "[]" fs] by (cases fs) (auto simp: tx_ring_def)
  have c: "txc_rb s = Some f" "ring_buf_is_producers (heap s) f"
    using ring rq.empty_iff [of "heap s" "[]" fs] by (simp_all add: tx_ring_def fs)
  let ?s1 = "s\<lparr>xfer_setup := True\<rparr>"
  have "tx_ring ?s1 [] (f # fs')" using ring fs by (simp add: tx_ring_def)
  from setup_for_dummy_tx_ring [OF this] assms(4) obtain H p where
    d: "setup_for_dummy_tx ?s1 = Some (tx_upd H p ?s1)" "tx_ring (tx_upd H p ?s1) [f] fs'"
       "data_bytes H f = mk_packet (pkt_size s) HDR_BIT_DUMMY []" by auto
  have r: "tx_ring (tx_upd H p s) [f] fs'"
    using d(2) tx_ring_frame [of "tx_upd H p ?s1" "tx_upd H p s"] by simp
  moreover have "take (pkt_size s) (data_bytes H f) = data_bytes H f"
    using data_bytes_length [OF r, of f] by simp
  then have "xfer e s = Some (armed (mk_packet (pkt_size s) HDR_BIT_DUMMY []) False (tx_upd H p s))"
    using c d assms(2,3) by (simp add: xfer_def armed_def restore_pins_def tx_upd_def)
  ultimately show ?thesis using fs d(3) by blast
qed

end
