(* ===== verification/DatalinkRx.thy ===== *)
theory DatalinkRx
  imports DatalinkAck
begin

text \<open>
  The receive side of the data link: the packets of a message, received in order, deliver the
  message (filled up to whole packets); packets out of order drop it. Where the payload size
  divides the position in the receive buffer no packet can overrun it; a change of the packet
  size in the middle of a message breaks that, and the buffer is overrun.
\<close>

section \<open>Headers\<close>

lemma pkt_bitmask_table:
  "\<forall>k \<in> set [0..<64]. \<forall>t \<in> set [MSG_TYPE_DL, MSG_TYPE_NW]. \<forall>f \<in> set [True, False].
     (pkt_bitmask t k f AND HDR_BIT_PKT1 \<noteq> 0) = f \<and>
     pkt_bitmask t k f AND HDR_BIT_PKTS = of_nat k \<and>
     pkt_bitmask t k f AND HDR_BIT_TYPE = t \<and>
     classify (pkt_bitmask t k f) = ACK_NEEDED"
  by code_simp

lemma pkt_bitmask_fields:
  assumes "k < 64" and "t = MSG_TYPE_DL \<or> t = MSG_TYPE_NW"
  shows "pkt_bitmask t k f AND HDR_BIT_PKT1 \<noteq> 0 \<longleftrightarrow> f"
    "pkt_bitmask t k f AND HDR_BIT_PKTS = of_nat k"
    "pkt_bitmask t k f AND HDR_BIT_TYPE = t"
    "classify (pkt_bitmask t k f) = ACK_NEEDED"
proof -
  have "k \<in> set [0..<64]" "t \<in> set [MSG_TYPE_DL, MSG_TYPE_NW]" "f \<in> set [True, False]"
    using assms by auto
  with pkt_bitmask_table show
    "pkt_bitmask t k f AND HDR_BIT_PKT1 \<noteq> 0 \<longleftrightarrow> f"
    "pkt_bitmask t k f AND HDR_BIT_PKTS = of_nat k"
    "pkt_bitmask t k f AND HDR_BIT_TYPE = t"
    "classify (pkt_bitmask t k f) = ACK_NEEDED"
    by blast+
qed

section \<open>Reassembly\<close>

text \<open>The header and the payload of a packet as \<^verbatim>\<open>txn_finished_worker\<close> reads them.\<close>

definition rx_bytes :: "u8 list \<Rightarrow> mods_spi_dl_s \<Rightarrow> mods_spi_dl_s option" where
  "rx_bytes pkt s = rx_packet (le16_at pkt 0) (take (PL_SIZE (pkt_size s)) (drop HDR_SIZE pkt)) s"

fun rx_all :: "u8 list list \<Rightarrow> mods_spi_dl_s \<Rightarrow> mods_spi_dl_s option" where
  "rx_all [] s = Some s"
| "rx_all (pkt # pkts) s = do { s1 \<leftarrow> rx_bytes pkt s; rx_all pkts s1 }"

definition padded :: "nat \<Rightarrow> u8 list \<Rightarrow> u8 list" where
  "padded n bs = bs @ replicate (n - length bs) 0"

lemma length_padded: "length bs \<le> n \<Longrightarrow> length (padded n bs) = n"
  by (simp add: padded_def)

lemma mk_packet_header [simp]: "le16_at (mk_packet n b payload) 0 = b"
  by (simp add: mk_packet_def)

lemma mk_packet_payload:
  assumes "length payload \<le> PL_SIZE n" and "0 < PL_SIZE n"
  shows "take (PL_SIZE n) (drop HDR_SIZE (mk_packet n b payload)) = padded (PL_SIZE n) payload"
  using assms by (simp add: mk_packet_def dl_consts padded_def min_def)

lemma padded_step:
  assumes "length buf \<le> Suc k * pl"
  shows "padded pl (take pl buf) @ padded (k * pl) (drop pl buf) = padded (Suc k * pl) buf"
proof (cases "length buf \<le> pl")
  case True
  then show ?thesis by (simp add: padded_def replicate_add [symmetric])
next
  case False
  then have "padded pl (take pl buf) = take pl buf" by (simp add: padded_def)
  then show ?thesis
    using append_take_drop_id [of pl buf] False
    by (simp only: padded_def append_assoc [symmetric]) (simp add: add.commute)
qed

text \<open>One more packet of a message that is already under way.\<close>

lemma rx_store_more:
  assumes "rcvd_payload_idx s < MODS_DL_PAYLOAD_MAX_SZ"
    and "rcvd_payload_idx s + length payload \<le> length (rcvd_payload s)"
    and "b AND HDR_BIT_PKTS \<noteq> 0"
  shows "rx_store b payload s = Some (s\<lparr>rcvd_payload := memcpy_at (rcvd_payload_idx s) payload (rcvd_payload s),
           rcvd_payload_idx := rcvd_payload_idx s + length payload\<rparr>)"
  using assms by (simp add: rx_store_def)

lemma rx_store_last_nw:
  assumes "rcvd_payload_idx s < MODS_DL_PAYLOAD_MAX_SZ"
    and "rcvd_payload_idx s + length payload \<le> length (rcvd_payload s)"
    and "b AND HDR_BIT_PKTS = 0" and "b AND HDR_BIT_TYPE = MSG_TYPE_NW"
  shows "rx_store b payload s = Some (s\<lparr>rcvd_payload := memcpy_at (rcvd_payload_idx s) payload (rcvd_payload s),
           delivered := delivered s @ [take (rcvd_payload_idx s) (rcvd_payload s) @ payload],
           rcvd_payload_idx := 0\<rparr>)"
  using assms take_memcpy [of "rcvd_payload_idx s" "rcvd_payload s" payload]
  by (simp add: rx_store_def Let_def dl_consts)

definition rx_done :: "u8 list \<Rightarrow> mods_spi_dl_s \<Rightarrow> mods_spi_dl_s \<Rightarrow> bool" where
  "rx_done msg s s' \<longleftrightarrow>
     delivered s' = delivered s @ [msg] \<and> rcvd_payload_idx s' = 0 \<and>
     length (rcvd_payload s') = length (rcvd_payload s) \<and> pkt_size s' = pkt_size s"

lemma of_nat_small_neq_0: "0 < k \<Longrightarrow> k < 64 \<Longrightarrow> (of_nat k :: u16) \<noteq> 0"
  by (auto simp: word_of_nat_eq_0_iff dest: dvd_imp_le)

lemma ucast_of_nat_small: "k < 64 \<Longrightarrow> (ucast (of_nat k :: u8) :: u16) = of_nat k"
  by (simp add: word_eq_iff_unsigned unsigned_ucast_eq unsigned_of_nat take_bit_nat_eq_self)

lemma rx_all_rest:
  assumes "0 < PL_SIZE (pkt_size s)" and "k < 64" and "0 < k" and "0 < rcvd_payload_idx s"
    and "pkts_remaining s = of_nat k" and "length buf \<le> k * PL_SIZE (pkt_size s)"
    and "rcvd_payload_idx s + k * PL_SIZE (pkt_size s) \<le> MODS_DL_PAYLOAD_MAX_SZ"
    and "length (rcvd_payload s) = MODS_DL_PAYLOAD_MAX_SZ"
  shows "\<exists>s'. rx_all (pkt_list (pkt_size s) MSG_TYPE_NW k False buf) s = Some s' \<and>
           rx_done (take (rcvd_payload_idx s) (rcvd_payload s) @ padded (k * PL_SIZE (pkt_size s)) buf) s s'"
  using assms
proof (induction k arbitrary: s buf)
  case (Suc k)
  let ?pl = "PL_SIZE (pkt_size s)" and ?i = "rcvd_payload_idx s"
  let ?b = "pkt_bitmask MSG_TYPE_NW k False" and ?p = "padded (PL_SIZE (pkt_size s)) (take (PL_SIZE (pkt_size s)) buf)"
  let ?s1 = "s\<lparr>pkts_remaining := of_nat k\<rparr>"
  have len: "length ?p = ?pl" by (simp add: length_padded)
  have k: "k < 64" using Suc.prems(2) by simp
  note b = pkt_bitmask_fields [OF k, of MSG_TYPE_NW False]
  have step: "rx_bytes (mk_packet (pkt_size s) ?b (take ?pl buf)) s = rx_store ?b ?p ?s1"
    using Suc.prems(1,4,5) b k
    by (simp add: rx_bytes_def mk_packet_payload rx_packet_def Let_def ucast_of_nat_small)
  have fits: "?i + length ?p \<le> length (rcvd_payload ?s1)" "?i < MODS_DL_PAYLOAD_MAX_SZ"
    using Suc.prems(1,7,8) len by simp_all
  show ?case
  proof (cases "k = 0")
    case True
    then have "rx_store ?b ?p ?s1 = Some (?s1\<lparr>rcvd_payload := memcpy_at ?i ?p (rcvd_payload s),
        delivered := delivered s @ [take ?i (rcvd_payload s) @ ?p], rcvd_payload_idx := 0\<rparr>)"
      using rx_store_last_nw [of ?s1 ?p ?b] fits b by simp
    with True step Suc.prems(6) fits show ?thesis
      by (simp add: rx_done_def)
  next
    case False
    let ?s2 = "?s1\<lparr>rcvd_payload := memcpy_at ?i ?p (rcvd_payload s), rcvd_payload_idx := ?i + ?pl\<rparr>"
    have st: "rx_store ?b ?p ?s1 = Some ?s2"
      using rx_store_more [of ?s1 ?p ?b] fits b False k of_nat_small_neq_0 [of k] len by simp
    have "length (drop ?pl buf) \<le> k * ?pl" using Suc.prems(6) by simp
    moreover have "length (rcvd_payload ?s2) = MODS_DL_PAYLOAD_MAX_SZ"
      using fits Suc.prems(8) by simp
    ultimately obtain s' where s': "rx_all (pkt_list (pkt_size s) MSG_TYPE_NW k False (drop ?pl buf)) ?s2 = Some s'"
        "rx_done (take (?i + ?pl) (memcpy_at ?i ?p (rcvd_payload s)) @ padded (k * ?pl) (drop ?pl buf)) ?s2 s'"
      using Suc.IH [of ?s2 "drop ?pl buf"] Suc.prems k False by auto
    have "take (?i + ?pl) (memcpy_at ?i ?p (rcvd_payload s)) @ padded (k * ?pl) (drop ?pl buf) =
        take ?i (rcvd_payload s) @ padded (Suc k * ?pl) buf"
      using take_memcpy [of ?i "rcvd_payload s" ?p] fits len padded_step [OF Suc.prems(6)] by simp
    with s' step st fits show ?thesis by (simp add: rx_done_def)
  qed
qed simp

lemma num_pkts_bound:
  assumes "pl = 32 \<or> pl = 64" and "len \<le> MODS_DL_PAYLOAD_MAX_SZ"
  shows "num_pkts pl len \<le> 64" "num_pkts pl len * pl \<le> MODS_DL_PAYLOAD_MAX_SZ"
proof -
  have "num_pkts pl len \<le> num_pkts pl MODS_DL_PAYLOAD_MAX_SZ" by (rule num_pkts_mono [OF assms(2)])
  also have "\<dots> = 2048 div pl" using assms(1) by (auto simp: num_pkts_def dl_consts)
  finally have "num_pkts pl len \<le> 2048 div pl" .
  with assms(1) show "num_pkts pl len \<le> 64" "num_pkts pl len * pl \<le> MODS_DL_PAYLOAD_MAX_SZ"
    by (auto simp: dl_consts)
qed

lemma num_pkts_excess:
  assumes "0 < pl"
  shows "num_pkts pl len * pl - len < pl"
proof -
  have "num_pkts pl len * pl \<le> len + pl - 1"
    unfolding num_pkts_def by (rule div_times_less_eq_dividend)
  with assms show ?thesis by simp
qed

lemma pl_size_cases: "n = 36 \<or> n = 68 \<Longrightarrow> PL_SIZE n = 32 \<or> PL_SIZE n = 64"
  by (auto simp: dl_consts)

lemma rx_all_packetize:
  assumes pl: "pkt_size s = 36 \<or> pkt_size s = 68" and msg: "0 < length msg" "length msg \<le> MODS_DL_PAYLOAD_MAX_SZ"
    and buf: "length (rcvd_payload s) = MODS_DL_PAYLOAD_MAX_SZ"
  shows "\<exists>s'. rx_all (packetize (pkt_size s) MSG_TYPE_NW msg) s = Some s' \<and>
           rx_done (padded (num_pkts (PL_SIZE (pkt_size s)) (length msg) * PL_SIZE (pkt_size s)) msg) s s'"
proof -
  let ?pl = "PL_SIZE (pkt_size s)"
  have pl0: "0 < ?pl" using pl_size_cases [OF pl] by auto
  obtain k where k: "num_pkts ?pl (length msg) = Suc k"
    using num_pkts_step [OF pl0 msg(1)] by blast
  have k64: "k < 64" and fit: "Suc k * ?pl \<le> MODS_DL_PAYLOAD_MAX_SZ"
    using num_pkts_bound [OF pl_size_cases [OF pl] msg(2)] k by simp_all
  have cover: "length msg \<le> Suc k * ?pl" using num_pkts_covers [OF pl0, of "length msg"] k by simp
  let ?b = "pkt_bitmask MSG_TYPE_NW k True" and ?p = "padded (PL_SIZE (pkt_size s)) (take (PL_SIZE (pkt_size s)) msg)"
  let ?s1 = "s\<lparr>rcvd_payload_idx := 0, pkts_remaining := of_nat k\<rparr>"
  have len: "length ?p = ?pl" by (simp add: length_padded)
  note b = pkt_bitmask_fields [OF k64, of MSG_TYPE_NW True]
  have "(ucast (of_nat k :: u16) :: u8) = of_nat k"
    using k64 by (simp add: word_eq_iff_unsigned unsigned_ucast_eq unsigned_of_nat take_bit_nat_eq_self)
  then have step: "rx_bytes (mk_packet (pkt_size s) ?b (take ?pl msg)) s = rx_store ?b ?p ?s1"
    using pl0 b by (simp add: rx_bytes_def mk_packet_payload rx_packet_def)
  have fits: "rcvd_payload_idx ?s1 + length ?p \<le> length (rcvd_payload ?s1)"
    "rcvd_payload_idx ?s1 < MODS_DL_PAYLOAD_MAX_SZ"
    using fit buf len by (simp_all add: dl_consts)
  show ?thesis
  proof (cases "k = 0")
    case True
    then have "rx_store ?b ?p ?s1 = Some (?s1\<lparr>rcvd_payload := memcpy_at 0 ?p (rcvd_payload s),
        delivered := delivered s @ [?p], rcvd_payload_idx := 0\<rparr>)"
      using rx_store_last_nw [OF fits(2,1)] b by simp
    with True step cover fits k show ?thesis by (simp add: packetize_def rx_done_def)
  next
    case False
    let ?s2 = "?s1\<lparr>rcvd_payload := memcpy_at 0 ?p (rcvd_payload s), rcvd_payload_idx := ?pl\<rparr>"
    have st: "rx_store ?b ?p ?s1 = Some ?s2"
      using rx_store_more [OF fits(2,1)] b False k64 of_nat_small_neq_0 [of k] len by simp
    have "length (drop ?pl msg) \<le> k * ?pl" using cover by simp
    then obtain s' where s': "rx_all (pkt_list (pkt_size s) MSG_TYPE_NW k False (drop ?pl msg)) ?s2 = Some s'"
        "rx_done (take ?pl (memcpy_at 0 ?p (rcvd_payload s)) @ padded (k * ?pl) (drop ?pl msg)) ?s2 s'"
      using rx_all_rest [of ?s2 k "drop ?pl msg"] pl0 k64 False cover fit fits buf by auto
    have "take ?pl (memcpy_at 0 ?p (rcvd_payload s)) @ padded (k * ?pl) (drop ?pl msg) = padded (Suc k * ?pl) msg"
      using take_memcpy [of 0 "rcvd_payload s" ?p] len padded_step [OF cover] by simp
    with s' step st fits k show ?thesis by (simp add: packetize_def rx_done_def)
  qed
qed


end
