(* ===== verification/DatalinkInv.thy ===== *)
theory DatalinkInv
  imports DatalinkRx
begin

text \<open>
  The data link as a state machine: its events, the invariant they keep, and that no event makes
  the driver fault, with one exception that is shown to happen.
\<close>

section \<open>The invariant\<close>

definition link_ok :: "mods_spi_dl_s \<Rightarrow> bool" where
  "link_ok s \<longleftrightarrow>
     (\<exists>qs fs. tx_ring s qs fs) \<and> (pkt_size s = 36 \<or> pkt_size s = 68) \<and>
     (new_pkt_size s = 0 \<or> new_pkt_size s = 36 \<or> new_pkt_size s = 68) \<and>
     (\<exists>b. rx_buf s = Some b \<and> length b = pkt_size s) \<and>
     length (rcvd_payload s) = MODS_DL_PAYLOAD_MAX_SZ \<and> rcvd_payload_idx s \<le> MODS_DL_PAYLOAD_MAX_SZ"

text \<open>Outside the handshake the two pins belong to the SPI port, or go back to it.\<close>

definition pins_ok :: "mods_spi_dl_s \<Rightarrow> bool" where
  "pins_ok s \<longleftrightarrow>
     (xfer_setup s \<or> \<not> ack_supported s \<longrightarrow> tack_cfg s = None \<and> rack_cfg s = None) \<and>
     gpio_cfg_restore (tack_cfg s) (tack_pin s) = Spi_function \<and>
     gpio_cfg_restore (rack_cfg s) (rack_pin s) = Spi_function"

text \<open>A queued work item is in the queue once; the end of a transaction is queued once per transfer.\<close>

definition work_ok :: "mods_spi_dl_s \<Rightarrow> bool" where
  "work_ok s \<longleftrightarrow>
     distinct (work_q s) \<and> (\<forall>w. queued s w \<longleftrightarrow> w \<in> set (work_q s)) \<and>
     \<not> (queued s Tend_work \<and> queued s Terr_work) \<and>
     (queued s Tend_work \<or> queued s Terr_work \<longrightarrow> xfer_setup s \<and> spi_tx s = None)"

definition dl_inv :: "mods_spi_dl_s \<Rightarrow> bool" where
  "dl_inv s \<longleftrightarrow> link_ok s \<and> pins_ok s \<and> work_ok s"

text \<open>The payload size divides the position in the receive buffer.\<close>

definition aligned :: "mods_spi_dl_s \<Rightarrow> bool" where
  "aligned s \<longleftrightarrow> PL_SIZE (pkt_size s) dvd rcvd_payload_idx s"

text \<open>The next packet fits behind what is in the receive buffer, unless the buffer is full.\<close>

definition fits :: "mods_spi_dl_s \<Rightarrow> bool" where
  "fits s \<longleftrightarrow> (rcvd_payload_idx s < MODS_DL_PAYLOAD_MAX_SZ \<longrightarrow>
     rcvd_payload_idx s + PL_SIZE (pkt_size s) \<le> MODS_DL_PAYLOAD_MAX_SZ)"

definition env_ok :: "dl_env \<Rightarrow> bool" where
  "env_ok e \<longleftrightarrow> mem_ok e \<and> clock_ok e"

text \<open>The fields that the pins and the work queue depend on are those of another state.\<close>

definition same_ctl :: "mods_spi_dl_s \<Rightarrow> mods_spi_dl_s \<Rightarrow> bool" where
  "same_ctl s s' \<longleftrightarrow>
     tack_cfg s' = tack_cfg s \<and> rack_cfg s' = rack_cfg s \<and> tack_pin s' = tack_pin s \<and>
     rack_pin s' = rack_pin s \<and> (ack_supported s \<longrightarrow> ack_supported s') \<and> work_q s' = work_q s \<and>
     queued s' = queued s \<and> xfer_setup s' = xfer_setup s \<and> spi_tx s' = spi_tx s \<and> bstate s' = bstate s"

lemma same_ctl_refl [simp]: "same_ctl s s"
  by (simp add: same_ctl_def)

lemma same_ctl_trans: "same_ctl s t \<Longrightarrow> same_ctl t u \<Longrightarrow> same_ctl s u"
  by (simp add: same_ctl_def)

lemma same_ctl_ok: "same_ctl s s' \<Longrightarrow> pins_ok s \<Longrightarrow> pins_ok s'" "same_ctl s s' \<Longrightarrow> work_ok s \<Longrightarrow> work_ok s'"
  by (auto simp: same_ctl_def pins_ok_def work_ok_def)

lemma link_okE:
  assumes "link_ok s"
  obtains qs fs where "tx_ring s qs fs" "0 < PL_SIZE (pkt_size s)" "HDR_SIZE \<le> pkt_size s"
    "pkt_size s = 36 \<or> pkt_size s = 68"
  using assms that by (auto simp: link_ok_def dl_consts)

lemma link_ok_frame:
  assumes "link_ok s" and "tx_ring s' qs fs"
    and "pkt_size s' = pkt_size s" "new_pkt_size s' = new_pkt_size s" "rx_buf s' = rx_buf s"
      "rcvd_payload s' = rcvd_payload s" "rcvd_payload_idx s' = rcvd_payload_idx s"
  shows "link_ok s'"
  using assms unfolding link_ok_def by auto

section \<open>Operations\<close>

lemma reset_txc_rb_entry_ok:
  assumes "link_ok s"
  shows "\<exists>s'. reset_txc_rb_entry s = Some s' \<and> link_ok s' \<and> same_ctl s s' \<and>
           pkt_size s' = pkt_size s \<and> rcvd_payload_idx s' = rcvd_payload_idx s"
proof -
  obtain qs fs where r: "tx_ring s qs fs" using assms by (rule link_okE)
  show ?thesis
  proof (cases qs)
    case Nil
    with r reset_txc_rb_entry_empty [of s fs] assms show ?thesis by simp
  next
    case (Cons q qs')
    with r obtain H p where "reset_txc_rb_entry s = Some (s\<lparr>heap := H, txc_rb := Some p\<rparr>)"
      "tx_ring (s\<lparr>heap := H, txc_rb := Some p\<rparr>) qs' (fs @ [q])"
      using reset_txc_rb_entry_consume [of s q qs' fs] by blast
    with assms show ?thesis by (simp add: same_ctl_def link_ok_frame)
  qed
qed

lemma queue_data_ok:
  assumes "link_ok s"
  shows "\<exists>r s'. queue_data t buf s = Some (r, s') \<and> link_ok s' \<and> same_ctl s s' \<and>
           pkt_size s' = pkt_size s \<and> rcvd_payload_idx s' = rcvd_payload_idx s"
proof (cases "bstate s = BASE_ATTACHED \<and> length buf \<le> MODS_DL_PAYLOAD_MAX_SZ")
  case True
  obtain qs fs where r: "tx_ring s qs fs" "0 < PL_SIZE (pkt_size s)" using assms by (rule link_okE)
  let ?k = "length (packetize (pkt_size s) t buf)"
  obtain H p where q: "queue_data t buf s = Some (if ?k \<le> length fs then OK else - ENOMEM, tx_upd H p s)"
      "tx_ring (tx_upd H p s) (qs @ take ?k fs) (drop ?k fs)"
    using queue_data_ring [OF r, of buf t] True by blast
  moreover have "link_ok (tx_upd H p s)"
    by (rule link_ok_frame [OF assms q(2)]) (simp_all add: tx_upd_def)
  moreover have "same_ctl s (tx_upd H p s)" "rcvd_payload_idx (tx_upd H p s) = rcvd_payload_idx s"
    by (simp_all add: same_ctl_def tx_upd_def)
  ultimately show ?thesis by simp
next
  case False
  with assms show ?thesis by (auto simp: queue_data_def Let_def)
qed

lemma pwr_of_two_table:
  "\<forall>k \<in> set [0..<65]. IS_PWR_OF_TWO (of_nat k) \<and> k \<ge> DEFAULT_PAYLOAD_SZ \<longrightarrow> k = 32 \<or> k = 64"
  by code_simp

lemma negotiated_size:
  assumes "pl = min CONFIG_GREYBUS_MODS_DESIRED_PKT_SIZE x" and "IS_PWR_OF_TWO pl"
    and "unat pl \<ge> DEFAULT_PAYLOAD_SZ"
  shows "PKT_SIZE (unat pl) = 36 \<or> PKT_SIZE (unat pl) = 68"
proof -
  have "pl \<le> 64" using assms(1) by (simp add: dl_consts)
  then have "unat pl \<in> set [0..<65]" by (simp add: word_le_nat_alt)
  moreover have "of_nat (unat pl) = pl" by simp
  ultimately have "unat pl = 32 \<or> unat pl = 64" using pwr_of_two_table assms(2,3) by metis
  then show ?thesis by (auto simp: dl_consts)
qed

lemma dl_recv_ok:
  assumes "link_ok s"
  shows "\<exists>r s'. dl_recv buf s = Some (r, s') \<and> link_ok s' \<and> same_ctl s s' \<and>
           pkt_size s' = pkt_size s \<and> rcvd_payload_idx s' = rcvd_payload_idx s"
proof -
  let ?req = "take 9 (buf @ replicate 9 0)"
  let ?pl = "min CONFIG_GREYBUS_MODS_DESIRED_PKT_SIZE (le16_at ?req 1)"
  let ?ok = "IS_PWR_OF_TWO ?pl \<and> unat ?pl \<ge> DEFAULT_PAYLOAD_SZ"
  define s3 where "s3 = s\<lparr>proto_ver := ?req ! 4,
      new_pkt_size := if ?ok then PKT_SIZE (unat ?pl) else new_pkt_size s,
      ack_supported := ?req ! 3 AND DL_BIT_ACK \<noteq> 0 \<or> ack_supported s\<rparr>"
  have "tx_ring s3 = tx_ring s" by (intro ext tx_ring_frame) (simp_all add: s3_def)
  then have "link_ok s3"
    using assms negotiated_size [OF refl, of "le16_at ?req 1"] by (auto simp: link_ok_def s3_def)
  from queue_data_ok [OF this] obtain r s' where q:
    "queue_data MSG_TYPE_DL (bus_cfg_resp (if ?ok then ?pl else 0)
        (if ?req ! 3 AND DL_BIT_ACK \<noteq> 0 then DL_BIT_ACK else 0)) s3 = Some (r, s')"
    "link_ok s'" "same_ctl s3 s'" "pkt_size s' = pkt_size s3" "rcvd_payload_idx s' = rcvd_payload_idx s3"
    by blast
  have "same_ctl s s3" by (simp add: same_ctl_def s3_def)
  with q have s': "link_ok s'" "same_ctl s s'" "pkt_size s' = pkt_size s" "rcvd_payload_idx s' = rcvd_payload_idx s"
    by (auto intro: same_ctl_trans simp: s3_def)
  have s3: "(if ?req ! 3 AND DL_BIT_ACK \<noteq> 0
        then (if ?ok then s\<lparr>proto_ver := ?req ! 4\<rparr>\<lparr>new_pkt_size := PKT_SIZE (unat ?pl)\<rparr>
              else s\<lparr>proto_ver := ?req ! 4\<rparr>)\<lparr>ack_supported := True\<rparr>
        else (if ?ok then s\<lparr>proto_ver := ?req ! 4\<rparr>\<lparr>new_pkt_size := PKT_SIZE (unat ?pl)\<rparr>
              else s\<lparr>proto_ver := ?req ! 4\<rparr>)) = s3"
    by (auto simp: s3_def intro!: mods_spi_dl_s.equality)
  show ?thesis
  proof (cases "?req ! 0 \<noteq> DL_MSG_ID_BUS_CFG_REQ \<or> ?req ! 4 < MIN_PROTO_VER")
    case True
    with assms show ?thesis by (auto simp: dl_recv_def Let_def)
  next
    case False
    then have "dl_recv buf s = Some (r, s')"
      unfolding dl_recv_def Let_def s3 using q(1) by simp
    with s' show ?thesis by blast
  qed
qed

lemma aligned_fits: "link_ok s \<Longrightarrow> aligned s \<Longrightarrow> fits s"
  by (auto simp: link_ok_def aligned_def fits_def dl_consts elim!: dvdE)

lemma rx_store_ok:
  assumes "link_ok s" and "fits s \<or> rx_store b payload s \<noteq> None" and "length payload = PL_SIZE (pkt_size s)"
  shows "\<exists>s'. rx_store b payload s = Some s' \<and> link_ok s' \<and> same_ctl s s' \<and>
           pkt_size s' = pkt_size s \<and> (aligned s \<longrightarrow> aligned s')"
proof (cases "rcvd_payload_idx s \<ge> MODS_DL_PAYLOAD_MAX_SZ")
  case True
  with assms(1) show ?thesis
    by (auto simp: rx_store_def link_ok_def same_ctl_def aligned_def tx_ring_def)
next
  case False
  let ?pl = "PL_SIZE (pkt_size s)" and ?i = "rcvd_payload_idx s"
  have len: "length (rcvd_payload s) = 2048"
    using assms(1) by (auto simp: link_ok_def dl_consts)
  have fit: "?i + ?pl \<le> 2048"
    using False assms(2,3) len by (auto simp: fits_def rx_store_def MODS_DL_PAYLOAD_MAX_SZ_def split: if_splits)
  define s1 where "s1 = s\<lparr>rcvd_payload := memcpy_at ?i payload (rcvd_payload s), rcvd_payload_idx := ?i + ?pl\<rparr>"
  have "tx_ring s1 = tx_ring s" by (intro ext tx_ring_frame) (simp_all add: s1_def)
  then have ok: "link_ok s1" using assms(1,3) fit len by (auto simp: link_ok_def s1_def dl_consts)
  have s1: "same_ctl s s1" "pkt_size s1 = pkt_size s" "aligned s \<longrightarrow> aligned s1"
    by (simp_all add: same_ctl_def s1_def aligned_def)
  obtain r s2 where d: "dl_recv (take (?i + ?pl) (rcvd_payload s1)) s1 = Some (r, s2)" "link_ok s2"
      "same_ctl s1 s2" "pkt_size s2 = pkt_size s1"
    using dl_recv_ok [OF ok] by blast
  have "tx_ring (s2\<lparr>rcvd_payload_idx := 0\<rparr>) = tx_ring s2" "tx_ring (s1\<lparr>delivered := x, rcvd_payload_idx := 0\<rparr>) = tx_ring s1" for x
    by (intro ext tx_ring_frame; simp)+
  then have "link_ok (s2\<lparr>rcvd_payload_idx := 0\<rparr>)" "link_ok (s1\<lparr>delivered := x, rcvd_payload_idx := 0\<rparr>)" for x
    using d(2) ok by (simp_all add: link_ok_def)
  moreover have "same_ctl s (s2\<lparr>rcvd_payload_idx := 0\<rparr>)" "same_ctl s (s1\<lparr>delivered := x, rcvd_payload_idx := 0\<rparr>)" for x
    using d(3) s1(1) by (simp_all add: same_ctl_def)
  moreover have "rx_store b payload s =
     (if b AND HDR_BIT_PKTS \<noteq> 0 then Some s1
      else if b AND HDR_BIT_TYPE = MSG_TYPE_DL then Some (s2\<lparr>rcvd_payload_idx := 0\<rparr>)
      else Some (s1\<lparr>delivered := delivered s1 @ [take (?i + ?pl) (rcvd_payload s1)], rcvd_payload_idx := 0\<rparr>))"
    using False fit len assms(3) d(1) by (simp add: rx_store_def Let_def s1_def)
  ultimately show ?thesis using ok s1 d(4) by (simp add: aligned_def)
qed

lemma rx_packet_ok:
  assumes "link_ok s" and "fits s \<or> rx_packet b payload s \<noteq> None" and "length payload = PL_SIZE (pkt_size s)"
  shows "\<exists>s'. rx_packet b payload s = Some s' \<and> link_ok s' \<and> same_ctl s s' \<and>
           pkt_size s' = pkt_size s \<and> (aligned s \<longrightarrow> aligned s')"
proof -
  let ?first = "\<lambda>n. s\<lparr>rcvd_payload_idx := 0, pkts_remaining := n\<rparr>" and ?more = "\<lambda>n. s\<lparr>pkts_remaining := n\<rparr>"
  have ok: "link_ok (?first n)" "link_ok (?more n)" "aligned (?first n)" "aligned s \<longrightarrow> aligned (?more n)"
    "same_ctl s (?first n)" "same_ctl s (?more n)" "fits (?more n) = fits s" for n
    using assms(1) by (auto simp: link_ok_def aligned_def same_ctl_def tx_ring_def fits_def)
  have st: "\<exists>s'. rx_store b payload t = Some s' \<and> link_ok s' \<and> same_ctl s s' \<and> pkt_size s' = pkt_size s \<and>
      (aligned t \<longrightarrow> aligned s')"
    if "link_ok t" "fits t \<or> rx_store b payload t \<noteq> None" "same_ctl s t" "pkt_size t = pkt_size s" for t
    using rx_store_ok [OF that(1,2)] assms(3) that(3,4) same_ctl_trans by auto
  consider "b AND HDR_BIT_PKT1 \<noteq> 0" | "b AND HDR_BIT_PKT1 = 0" "rcvd_payload_idx s = 0"
    | "b AND HDR_BIT_PKT1 = 0" "rcvd_payload_idx s \<noteq> 0" "b AND HDR_BIT_PKTS \<noteq> ucast (pkts_remaining s - 1)"
    | "b AND HDR_BIT_PKT1 = 0" "rcvd_payload_idx s \<noteq> 0" "b AND HDR_BIT_PKTS = ucast (pkts_remaining s - 1)" by blast
  then show ?thesis
  proof cases
    case 1
    let ?t = "?first (ucast (b AND HDR_BIT_PKTS))"
    have "fits ?t" using aligned_fits ok(1,3) by blast
    with st [OF ok(1) _ ok(5)] 1 ok(3) show ?thesis by (auto simp: rx_packet_def)
  next
    case 2
    with assms(1) show ?thesis by (simp add: rx_packet_def)
  next
    case 3
    with ok(1,3,5) [of 0] show ?thesis by (simp add: rx_packet_def Let_def)
  next
    case 4
    let ?t = "?more (pkts_remaining s - 1)"
    from 4 have eq: "rx_packet b payload s = rx_store b payload ?t"
      by (simp add: rx_packet_def Let_def)
    have "fits ?t \<or> rx_store b payload ?t \<noteq> None" using assms(2) ok(7) eq by metis
    moreover have "pkt_size ?t = pkt_size s" by simp
    ultimately show ?thesis using st [OF ok(2) _ ok(6)] ok(4) eq by metis
  qed
qed

lemma set_pkt_size_ok:
  assumes "link_ok s" and "n = 36 \<or> n = 68" and "mem_ok e"
  shows "\<exists>s'. set_pkt_size e n s = Some s' \<and> link_ok s' \<and> same_ctl s s' \<and>
           pkt_size s' = n \<and> rcvd_payload_idx s' = rcvd_payload_idx s \<and> new_pkt_size s' = new_pkt_size s"
proof (cases "n = pkt_size s \<and> txp_rb s = txc_rb s")
  case True
  with assms(1) show ?thesis by (simp add: set_pkt_size_def)
next
  case False
  obtain qs fs where r: "tx_ring s qs fs" using assms(1) by (rule link_okE)
  obtain H p where q: "set_pkt_size e n s = Some (s\<lparr>heap := H, rx_buf := Some (replicate n 0),
             txp_rb := Some p, txc_rb := Some p, pkt_size := n\<rparr>)"
      "tx_ring (s\<lparr>heap := H, rx_buf := Some (replicate n 0), txp_rb := Some p, txc_rb := Some p,
             pkt_size := n\<rparr>) [] [p ..< p + 160]"
    using set_pkt_size_change [OF r assms(3,2)] False by blast
  let ?s = "s\<lparr>heap := H, rx_buf := Some (replicate n 0), txp_rb := Some p, txc_rb := Some p, pkt_size := n\<rparr>"
  have "\<exists>b. rx_buf ?s = Some b \<and> length b = pkt_size ?s" by simp
  moreover have "pkt_size ?s = 36 \<or> pkt_size ?s = 68" using assms(2) by simp
  moreover have "\<exists>qs fs. tx_ring ?s qs fs" using q(2) by blast
  ultimately have "link_ok ?s"
    using assms(1) unfolding link_ok_def by (elim conjE, intro conjI) simp_all
  with q(1) show ?thesis by (simp add: same_ctl_def)
qed

lemma armed_ok:
  assumes ok: "dl_inv s" and "\<not> xfer_setup s" and "tx_ring t qs fs" and "same_ctl s t"
    and "pkt_size t = pkt_size s" "new_pkt_size t = new_pkt_size s" "rx_buf t = rx_buf s"
      "rcvd_payload t = rcvd_payload s" "rcvd_payload_idx t = rcvd_payload_idx s"
      "ack_supported t = ack_supported s"
  shows "dl_inv (armed pkt i t)"
proof -
  have "link_ok (armed pkt i t)"
    by (rule link_ok_frame [where s = s and qs = qs and fs = fs])
      (use assms in \<open>simp_all add: armed_def restore_pins_def dl_inv_def tx_ring_def\<close>)
  moreover have "work_ok (armed pkt i t)"
    using assms(1,2,4) by (auto simp: dl_inv_def work_ok_def same_ctl_def armed_def restore_pins_def)
  moreover have "pins_ok (armed pkt i t)"
    using assms(1,4,10)
    by (cases "ack_supported s")
      (auto simp: dl_inv_def pins_ok_def same_ctl_def armed_def restore_pins_def gpio_cfg_restore_def)
  ultimately show ?thesis by (simp add: dl_inv_def)
qed

lemma xfer_ok:
  assumes "dl_inv s"
  shows "\<exists>s'. xfer e s = Some s' \<and> dl_inv s' \<and> pkt_size s' = pkt_size s \<and>
           rcvd_payload_idx s' = rcvd_payload_idx s \<and> bstate s' = bstate s"
proof -
  have ok: "link_ok s" "pins_ok s" "work_ok s" using assms by (simp_all add: dl_inv_def)
  obtain qs fs where r: "tx_ring s qs fs" "HDR_SIZE \<le> pkt_size s" using ok(1) by (rule link_okE)
  consider "xfer_setup s \<or> qs = [] \<and> wake_n e" | "\<not> xfer_setup s" "qs = []" "\<not> wake_n e"
    | q qs' where "\<not> xfer_setup s" "qs = q # qs'" by (cases qs) auto
  then show ?thesis
  proof cases
    case 1
    with xfer_idle [OF r(1)] assms show ?thesis by blast
  next
    case 2
    then obtain H p f fs' where x: "xfer e s = Some (armed (mk_packet (pkt_size s) HDR_BIT_DUMMY []) False (tx_upd H p s))"
      "tx_ring (tx_upd H p s) [f] fs'" using xfer_dummy [of s fs e] r by blast
    have "dl_inv (armed (mk_packet (pkt_size s) HDR_BIT_DUMMY []) False (tx_upd H p s))"
      by (rule armed_ok [OF assms _ x(2)]) (use 2 in \<open>simp_all add: tx_upd_def same_ctl_def\<close>)
    with x(1) show ?thesis by (simp add: armed_def restore_pins_def tx_upd_def)
  next
    case (3 q qs')
    then have x: "xfer e s = Some (armed (data_bytes (heap s) q) True s)" using xfer_data [of s q qs' fs] r by blast
    moreover have "dl_inv (armed (data_bytes (heap s) q) True s)"
      by (rule armed_ok [OF assms _ r(1)]) (use 3 in simp_all)
    ultimately show ?thesis by (simp add: armed_def restore_pins_def)
  qed
qed

text \<open>
  A transaction has just ended: the transfer is set up, and neither of the items that report the
  end is queued any more.
\<close>

definition txn_over :: "mods_spi_dl_s \<Rightarrow> bool" where
  "txn_over s \<longleftrightarrow> dl_inv s \<and> xfer_setup s \<and> \<not> queued s Tend_work \<and> \<not> queued s Terr_work"

text \<open>The states the handshake can leave.\<close>

definition shaken :: "mods_spi_dl_s \<Rightarrow> mods_spi_dl_s \<Rightarrow> bool" where
  "shaken s t \<longleftrightarrow>
     (if ack_supported s then \<exists>c n. t = (take_pins c (deassert_rfr_int s))\<lparr>tx_tries_remaining := n\<rparr>
      else t = deassert_rfr_int s)"

lemma shaken_simps:
  assumes "shaken s t"
  shows "heap t = heap s" "txp_rb t = txp_rb s" "txc_rb t = txc_rb s" "pkt_size t = pkt_size s"
    "new_pkt_size t = new_pkt_size s" "rx_buf t = rx_buf s" "rcvd_payload t = rcvd_payload s"
    "rcvd_payload_idx t = rcvd_payload_idx s" "work_q t = work_q s" "queued t = queued s"
    "bstate t = bstate s" "ack_supported t = ack_supported s"
  using assms by (auto simp: shaken_def take_pins_def deassert_rfr_int_def split: if_splits)

lemma shaken_pins_ok:
  assumes "shaken s t" and "pins_ok s" and "xfer_setup s"
  shows "pins_ok (t\<lparr>xfer_setup := False\<rparr>)"
proof (cases "ack_supported s")
  case True
  then obtain c n where "t = (take_pins c (deassert_rfr_int s))\<lparr>tx_tries_remaining := n\<rparr>"
    using assms(1) by (auto simp: shaken_def)
  with True assms(2,3) show ?thesis
    by (auto simp: take_pins_def deassert_rfr_int_def pins_ok_def gpio_cfg_restore_def)
next
  case False
  with assms show ?thesis by (auto simp: shaken_def deassert_rfr_int_def pins_ok_def)
qed

lemma shaken_work_ok:
  "shaken s t \<Longrightarrow> txn_over s \<Longrightarrow> work_ok (t\<lparr>xfer_setup := False\<rparr>)"
  using shaken_simps(9,10) [of s t] by (auto simp: txn_over_def dl_inv_def work_ok_def)

lemma shaken_link_ok:
  assumes "shaken s t" and "link_ok s"
  shows "link_ok t"
proof -
  obtain qs fs where "tx_ring s qs fs" using assms(2) by (rule link_okE)
  then have "tx_ring t qs fs" using tx_ring_frame shaken_simps [OF assms(1)] by metis
  then show ?thesis by (rule link_ok_frame [OF assms(2)]) (rule shaken_simps [OF assms(1)])+
qed

lemma ack_handler_shaken:
  assumes "link_ok s" and "clock_ok e"
  shows "\<exists>ok t. ack_handler e a (deassert_rfr_int s) = Some (ok, t) \<and> shaken s t"
proof -
  obtain qs fs where r: "tx_ring s qs fs" using assms(1) by (rule link_okE)
  let ?s = "deassert_rfr_int s"
  obtain v where v: "txc_rb_is_valid ?s = Some v"
    using r by (auto simp: txc_rb_is_valid_def tx_ring_def deassert_rfr_int_def)
  show ?thesis
  proof (cases "ack_supported s")
    case False
    then have "ack_handler e a ?s = Some (True, ?s)"
      by (intro ack_handler_off) (simp add: deassert_rfr_int_def)
    with False show ?thesis by (auto simp: shaken_def)
  next
    case True
    then have "ack_supported ?s" by (simp add: deassert_rfr_int_def)
    from ack_handler_on [OF assms(2) this v, of a]
    obtain k n where "ack_handler e a ?s = Some (k, (take_pins (a = ACK_NEEDED) ?s)\<lparr>tx_tries_remaining := n\<rparr>)"
      by (auto split: if_splits)
    with True show ?thesis by (auto simp: shaken_def)
  qed
qed

text \<open>After the handshake the packet sent is dropped or kept, and the transfer is over.\<close>

lemma txn_head_ok:
  assumes "txn_over s" and "clock_ok e"
  shows "\<exists>ok s1 s2. ack_handler e a (deassert_rfr_int s) = Some (ok, s1) \<and>
           (if ok then reset_txc_rb_entry s1 else Some s1) = Some s2 \<and> dl_inv (s2\<lparr>xfer_setup := False\<rparr>) \<and>
           pkt_size s2 = pkt_size s \<and> rcvd_payload_idx s2 = rcvd_payload_idx s"
proof -
  have inv: "link_ok s" "pins_ok s" "xfer_setup s" using assms(1) by (simp_all add: txn_over_def dl_inv_def)
  obtain ok s1 where h: "ack_handler e a (deassert_rfr_int s) = Some (ok, s1)" "shaken s s1"
    using ack_handler_shaken [OF inv(1) assms(2)] by blast
  note a = h(1) shaken_link_ok [OF h(2) inv(1)] shaken_pins_ok [OF h(2) inv(2,3)]
    shaken_work_ok [OF h(2) assms(1)] shaken_simps(4,8) [OF h(2)]
  obtain s2 where s2: "(if ok then reset_txc_rb_entry s1 else Some s1) = Some s2" "link_ok s2" "same_ctl s1 s2"
      "pkt_size s2 = pkt_size s1" "rcvd_payload_idx s2 = rcvd_payload_idx s1"
    using reset_txc_rb_entry_ok [OF a(2)] a(2) by (cases ok) auto
  have "same_ctl (s1\<lparr>xfer_setup := False\<rparr>) (s2\<lparr>xfer_setup := False\<rparr>)"
    using s2(3) by (simp add: same_ctl_def)
  moreover have "link_ok (s2\<lparr>xfer_setup := False\<rparr>)"
    using s2(2) by (auto simp: link_ok_def tx_ring_def)
  ultimately have "dl_inv (s2\<lparr>xfer_setup := False\<rparr>)"
    using a(3,4) same_ctl_ok by (auto simp: dl_inv_def)
  with a s2 show ?thesis by auto
qed

lemma txn_error_worker_ok:
  assumes "txn_over s" and "clock_ok e"
  shows "\<exists>s'. txn_error_worker e s = Some s' \<and> dl_inv s' \<and> aligned s' \<and> pkt_size s' = pkt_size s"
proof -
  obtain ok s1 s2 where h: "ack_handler e ACK_ERROR (deassert_rfr_int s) = Some (ok, s1)"
      "(if ok then reset_txc_rb_entry s1 else Some s1) = Some s2" "dl_inv (s2\<lparr>xfer_setup := False\<rparr>)"
      "pkt_size s2 = pkt_size s"
    using txn_head_ok [OF assms] by blast
  have "dl_inv (s2\<lparr>rcvd_payload_idx := 0, pkts_remaining := 0, xfer_setup := False\<rparr>)"
    using h(3) by (auto simp: dl_inv_def link_ok_def pins_ok_def work_ok_def tx_ring_def)
  from xfer_ok [OF this, of e] h show ?thesis by (auto simp: txn_error_worker_def aligned_def)
qed

text \<open>What happens to the packet received, or to the packet size where there is none.\<close>

lemma txn_body_ok:
  assumes ok: "link_ok s" and mem: "mem_ok e" and len: "length payload = PL_SIZE (pkt_size s)"
    and fit: "fits s \<or> rx_packet b payload s \<noteq> None \<or> classify b \<noteq> ACK_NEEDED"
  shows "\<exists>s'. (if classify b \<noteq> ACK_NEEDED
              then (if new_pkt_size s > 0 \<and> txp_rb s = txc_rb s
                    then do { t \<leftarrow> set_pkt_size e (new_pkt_size s) s; Some (t\<lparr>new_pkt_size := 0\<rparr>) }
                    else Some s)
              else rx_packet b payload s) = Some s' \<and> link_ok s' \<and> same_ctl s s' \<and>
           (aligned s \<and> (rcvd_payload_idx s = 0 \<or> pkt_size s' = pkt_size s) \<longrightarrow> aligned s')"
proof (cases "classify b \<noteq> ACK_NEEDED")
  case False
  with rx_packet_ok [OF ok _ len, of b] fit show ?thesis by auto
next
  case True
  show ?thesis
  proof (cases "new_pkt_size s > 0 \<and> txp_rb s = txc_rb s")
    case False
    with True ok show ?thesis by auto
  next
    case change: True
    then have "new_pkt_size s = 36 \<or> new_pkt_size s = 68" using ok by (auto simp: link_ok_def)
    from set_pkt_size_ok [OF ok this mem] obtain t where
      t: "set_pkt_size e (new_pkt_size s) s = Some t" "link_ok t" "same_ctl s t"
         "rcvd_payload_idx t = rcvd_payload_idx s" by blast
    have "link_ok (t\<lparr>new_pkt_size := 0\<rparr>)" using t(2) by (auto simp: link_ok_def tx_ring_def)
    moreover have "same_ctl s (t\<lparr>new_pkt_size := 0\<rparr>)" using t(3) by (simp add: same_ctl_def)
    ultimately show ?thesis using True change t by (auto simp: aligned_def)
  qed
qed

lemma txn_finished_worker_ok:
  assumes over: "txn_over s" and env: "env_ok e" and fit: "fits s \<or> txn_finished_worker e s \<noteq> None"
  shows "\<exists>s'. txn_finished_worker e s = Some s' \<and> dl_inv s' \<and>
           (aligned s \<and> (rcvd_payload_idx s = 0 \<or> pkt_size s' = pkt_size s) \<longrightarrow> aligned s')"
proof -
  obtain rx where rx: "rx_buf s = Some rx" "length rx = pkt_size s"
    using over by (auto simp: txn_over_def dl_inv_def link_ok_def)
  let ?b = "le16_at rx 0" and ?p = "take (PL_SIZE (pkt_size s)) (drop HDR_SIZE rx)"
  obtain ok s1 s2 where h: "ack_handler e (classify ?b) (deassert_rfr_int s) = Some (ok, s1)"
      "(if ok then reset_txc_rb_entry s1 else Some s1) = Some s2" "dl_inv (s2\<lparr>xfer_setup := False\<rparr>)"
      "pkt_size s2 = pkt_size s" "rcvd_payload_idx s2 = rcvd_payload_idx s"
    using txn_head_ok [OF over, of e "classify ?b"] env by (auto simp: env_ok_def)
  define s3 where "s3 = s2\<lparr>xfer_setup := False\<rparr>"
  have s3: "link_ok s3" "pins_ok s3" "work_ok s3" "pkt_size s3 = pkt_size s" "rcvd_payload_idx s3 = rcvd_payload_idx s"
    using h(3-5) by (simp_all add: s3_def dl_inv_def)
  let ?body = "if classify ?b \<noteq> ACK_NEEDED
              then (if new_pkt_size s3 > 0 \<and> txp_rb s3 = txc_rb s3
                    then do { t \<leftarrow> set_pkt_size e (new_pkt_size s3) s3; Some (t\<lparr>new_pkt_size := 0\<rparr>) }
                    else Some s3)
              else rx_packet ?b ?p s3"
  have run: "txn_finished_worker e s = do { s4 \<leftarrow> ?body; xfer e s4 }"
    using rx(1) h(1,2) unfolding s3_def by (simp add: txn_finished_worker_def Let_def)
  then have "fits s3 \<or> rx_packet ?b ?p s3 \<noteq> None \<or> classify ?b \<noteq> ACK_NEEDED"
    using fit s3(4,5) by (auto simp: fits_def)
  moreover have "length ?p = PL_SIZE (pkt_size s3)" using rx(2) s3(4) by (simp add: dl_consts)
  ultimately obtain s4 where s4: "?body = Some s4" "link_ok s4" "same_ctl s3 s4"
    "aligned s3 \<and> (rcvd_payload_idx s3 = 0 \<or> pkt_size s4 = pkt_size s3) \<longrightarrow> aligned s4"
    using txn_body_ok [OF s3(1), of e ?p ?b] env unfolding env_ok_def by blast
  have "dl_inv s4" using s4(2,3) s3(2,3) same_ctl_ok by (auto simp: dl_inv_def)
  from xfer_ok [OF this, of e] obtain s' where x: "xfer e s4 = Some s'" "dl_inv s'"
    "pkt_size s' = pkt_size s4" "rcvd_payload_idx s' = rcvd_payload_idx s4" by blast
  moreover have "aligned s' = aligned s4" "aligned s3 = aligned s"
    using x(3,4) s3(4,5) by (simp_all add: aligned_def)
  then have "aligned s \<and> (rcvd_payload_idx s = 0 \<or> pkt_size s' = pkt_size s) \<longrightarrow> aligned s'"
    using s4(4) x(3) s3(4,5) by simp
  moreover have "txn_finished_worker e s = xfer e s4" unfolding run s4(1) by simp
  ultimately show ?thesis by simp
qed

section \<open>Attach, detach, and the worker thread\<close>

lemma dl_work_cancel_simps:
  "heap (dl_work_cancel w s) = heap s" "txp_rb (dl_work_cancel w s) = txp_rb s"
  "txc_rb (dl_work_cancel w s) = txc_rb s" "pkt_size (dl_work_cancel w s) = pkt_size s"
  "new_pkt_size (dl_work_cancel w s) = new_pkt_size s" "rx_buf (dl_work_cancel w s) = rx_buf s"
  "rcvd_payload (dl_work_cancel w s) = rcvd_payload s" "rcvd_payload_idx (dl_work_cancel w s) = rcvd_payload_idx s"
  "xfer_setup (dl_work_cancel w s) = xfer_setup s" "spi_tx (dl_work_cancel w s) = spi_tx s"
  "tack_cfg (dl_work_cancel w s) = tack_cfg s" "rack_cfg (dl_work_cancel w s) = rack_cfg s"
  "tack_pin (dl_work_cancel w s) = tack_pin s" "rack_pin (dl_work_cancel w s) = rack_pin s"
  "ack_supported (dl_work_cancel w s) = ack_supported s" "bstate (dl_work_cancel w s) = bstate s"
  "queued (dl_work_cancel w s) w' = (queued s w' \<and> w' \<noteq> w)"
  "tx_tries_remaining (dl_work_cancel w s) = tx_tries_remaining s"
  "rfr (dl_work_cancel w s) = rfr s" "host_int (dl_work_cancel w s) = host_int s"
  by (auto simp: dl_work_cancel_def)

definition cancel_all :: "mods_spi_dl_s \<Rightarrow> mods_spi_dl_s" where
  "cancel_all s = dl_work_cancel Terr_work (dl_work_cancel Tend_work (dl_work_cancel Wake_work s))"

lemma cancel_all_simps:
  "heap (cancel_all s) = heap s" "txp_rb (cancel_all s) = txp_rb s"
  "txc_rb (cancel_all s) = txc_rb s" "pkt_size (cancel_all s) = pkt_size s"
  "new_pkt_size (cancel_all s) = new_pkt_size s" "rx_buf (cancel_all s) = rx_buf s"
  "rcvd_payload (cancel_all s) = rcvd_payload s" "rcvd_payload_idx (cancel_all s) = rcvd_payload_idx s"
  "xfer_setup (cancel_all s) = xfer_setup s" "spi_tx (cancel_all s) = spi_tx s"
  "tack_cfg (cancel_all s) = tack_cfg s" "rack_cfg (cancel_all s) = rack_cfg s"
  "tack_pin (cancel_all s) = tack_pin s" "rack_pin (cancel_all s) = rack_pin s"
  "ack_supported (cancel_all s) = ack_supported s" "bstate (cancel_all s) = bstate s"
  "tx_tries_remaining (cancel_all s) = tx_tries_remaining s"
  "rfr (cancel_all s) = rfr s" "host_int (cancel_all s) = host_int s"
  by (simp_all add: cancel_all_def dl_work_cancel_simps)

definition wq_ok :: "mods_spi_dl_s \<Rightarrow> bool" where
  "wq_ok s \<longleftrightarrow> distinct (work_q s) \<and> (\<forall>w. queued s w \<longleftrightarrow> w \<in> set (work_q s))"

lemma wq_ok_cancel: "wq_ok s \<Longrightarrow> wq_ok (dl_work_cancel w s)"
  by (auto simp: wq_ok_def dl_work_cancel_def distinct_remove1 set_remove1_eq)

lemma cancel_all_work:
  assumes "wq_ok s"
  shows "work_q (cancel_all s) = [] \<and> (\<forall>w. \<not> queued (cancel_all s) w)"
proof -
  have none: "\<not> queued (cancel_all s) w" for w
    by (cases w) (simp_all add: cancel_all_def dl_work_cancel_simps)
  have "wq_ok (cancel_all s)"
    unfolding cancel_all_def by (intro wq_ok_cancel assms)
  with none have "w \<notin> set (work_q (cancel_all s))" for w by (auto simp: wq_ok_def)
  then have "work_q (cancel_all s) = []" by (cases "work_q (cancel_all s)") auto
  with none show ?thesis by blast
qed

definition quiesced :: "mods_spi_dl_s \<Rightarrow> mods_spi_dl_s" where
  "quiesced s =
     (let s1 = deassert_rfr_int s;
          s2 = (if ack_supported s1 then restore_pins s1\<lparr>ack_supported := False\<rparr> else s1)
                 \<lparr>tx_tries_remaining := NUM_TRIES\<rparr>;
          s3 = (if xfer_setup s2 then s2\<lparr>spi_tx := None, xfer_setup := False\<rparr> else s2)
      in cancel_all s3)"

lemma quiesced_simps:
  "heap (quiesced s) = heap s" "txp_rb (quiesced s) = txp_rb s" "txc_rb (quiesced s) = txc_rb s"
  "pkt_size (quiesced s) = pkt_size s" "new_pkt_size (quiesced s) = new_pkt_size s"
  "rx_buf (quiesced s) = rx_buf s" "rcvd_payload (quiesced s) = rcvd_payload s"
  "rcvd_payload_idx (quiesced s) = rcvd_payload_idx s" "\<not> xfer_setup (quiesced s)"
  "\<not> ack_supported (quiesced s)" "\<not> rfr (quiesced s)" "\<not> host_int (quiesced s)"
  "tx_tries_remaining (quiesced s) = NUM_TRIES"
  by (simp_all add: quiesced_def Let_def cancel_all_simps deassert_rfr_int_def restore_pins_def)

lemma quiesced_pins:
  "pins_ok s \<Longrightarrow> pins_ok (quiesced s) \<and> tack_pin (quiesced s) = Spi_function \<and> rack_pin (quiesced s) = Spi_function"
  by (cases "ack_supported s")
    (auto simp: quiesced_def Let_def cancel_all_simps deassert_rfr_int_def restore_pins_def pins_ok_def
      gpio_cfg_restore_def)

lemma quiesced_work:
  "work_ok s \<Longrightarrow> work_ok (quiesced s) \<and> work_q (quiesced s) = []"
  using cancel_all_work
  by (simp add: quiesced_def Let_def work_ok_def wq_ok_def deassert_rfr_int_def restore_pins_def)

text \<open>What a link without a base looks like: nothing queued, nothing set up, everything at default.\<close>

definition link_idle :: "mods_spi_dl_s \<Rightarrow> bool" where
  "link_idle s \<longleftrightarrow>
     (\<exists>room. tx_queue s [] room) \<and> pkt_size s = PKT_SIZE DEFAULT_PAYLOAD_SZ \<and> \<not> xfer_setup s \<and>
     work_q s = [] \<and> \<not> rfr s \<and> \<not> host_int s \<and> \<not> ack_supported s \<and>
     tack_pin s = Spi_function \<and> rack_pin s = Spi_function \<and>
     tx_tries_remaining s = NUM_TRIES \<and> proto_ver s = MIN_PROTO_VER"

lemma attach_cb_attached: "attach_cb e BASE_ATTACHED s = Some (s\<lparr>bstate := BASE_ATTACHED\<rparr>)"
  by (simp add: attach_cb_def)

lemma resize_drained:
  assumes "tx_ring s [] fs" and "mem_ok e" and "n = 36 \<or> n = 68" and "\<exists>b. rx_buf s = Some b \<and> length b = pkt_size s"
  shows "\<exists>H p rx fs'. set_pkt_size e n s =
             Some (s\<lparr>heap := H, rx_buf := Some rx, txp_rb := Some p, txc_rb := Some p, pkt_size := n\<rparr>) \<and>
           tx_ring (s\<lparr>heap := H, rx_buf := Some rx, txp_rb := Some p, txc_rb := Some p, pkt_size := n\<rparr>) [] fs' \<and>
           length rx = n"
proof (cases "n = pkt_size s")
  case True
  obtain b where b: "rx_buf s = Some b" "length b = pkt_size s" using assms(4) by blast
  have p: "txp_rb s = Some (hd fs)" "txc_rb s = Some (hd fs)" using assms(1) by (simp_all add: tx_ring_def)
  then have "s\<lparr>heap := heap s, rx_buf := Some b, txp_rb := Some (hd fs), txc_rb := Some (hd fs), pkt_size := n\<rparr> = s"
    using True b by simp
  moreover have "set_pkt_size e n s = Some s" using True p by (simp add: set_pkt_size_def)
  ultimately show ?thesis using assms(1) b(2) True
    by (intro exI [of _ "heap s"] exI [of _ "hd fs"] exI [of _ b] exI [of _ fs]) (simp only:)
next
  case False
  then obtain H p where "set_pkt_size e n s = Some (s\<lparr>heap := H, rx_buf := Some (replicate n 0),
        txp_rb := Some p, txc_rb := Some p, pkt_size := n\<rparr>)"
      "tx_ring (s\<lparr>heap := H, rx_buf := Some (replicate n 0), txp_rb := Some p, txc_rb := Some p,
        pkt_size := n\<rparr>) [] [p ..< p + 160]"
    using set_pkt_size_change [OF assms(1-3)] by blast
  moreover have "length (replicate n (0 :: u8)) = n" by simp
  ultimately show ?thesis by blast
qed

lemma attach_cb_other:
  "st \<noteq> BASE_ATTACHED \<Longrightarrow> attach_cb e st s =
     do { s4 \<leftarrow> drain_tx (quiesced s);
          s5 \<leftarrow> set_pkt_size e (PKT_SIZE DEFAULT_PAYLOAD_SZ) s4;
          Some (s5\<lparr>proto_ver := MIN_PROTO_VER, bstate := st\<rparr>) }"
  unfolding attach_cb_def quiesced_def cancel_all_def Let_def by simp

lemma attach_cb_detached:
  assumes inv: "dl_inv s" and mem: "mem_ok e" and st: "st \<noteq> BASE_ATTACHED"
  shows "\<exists>s'. attach_cb e st s = Some s' \<and> dl_inv s' \<and> link_idle s' \<and> bstate s' = st \<and>
           new_pkt_size s' = new_pkt_size s \<and> rcvd_payload_idx s' = rcvd_payload_idx s"
proof -
  let ?q = "quiesced s"
  have ok: "link_ok s" "pins_ok s" "work_ok s" using inv by (simp_all add: dl_inv_def)
  obtain qs fs where r: "tx_ring s qs fs" using ok(1) by (rule link_okE)
  have q: "tx_ring ?q qs fs" using r tx_ring_frame quiesced_simps(1-4) by metis
  obtain H c where d: "drain_tx ?q = Some (?q\<lparr>heap := H, txc_rb := Some c\<rparr>)"
      "tx_ring (?q\<lparr>heap := H, txc_rb := Some c\<rparr>) [] (fs @ qs)"
    using drain_tx_empties [OF q] by blast
  let ?d = "?q\<lparr>heap := H, txc_rb := Some c\<rparr>"
  have sz: "PKT_SIZE DEFAULT_PAYLOAD_SZ = 36 \<or> PKT_SIZE DEFAULT_PAYLOAD_SZ = 68" by (simp add: dl_consts)
  have "\<exists>b. rx_buf ?d = Some b \<and> length b = pkt_size ?d"
    using ok(1) by (auto simp: quiesced_simps link_ok_def)
  from resize_drained [OF d(2) mem sz this] obtain H' p rx fs' where
    z: "set_pkt_size e (PKT_SIZE DEFAULT_PAYLOAD_SZ) ?d = Some (?d\<lparr>heap := H', rx_buf := Some rx,
          txp_rb := Some p, txc_rb := Some p, pkt_size := PKT_SIZE DEFAULT_PAYLOAD_SZ\<rparr>)"
       "tx_ring (?d\<lparr>heap := H', rx_buf := Some rx, txp_rb := Some p, txc_rb := Some p,
          pkt_size := PKT_SIZE DEFAULT_PAYLOAD_SZ\<rparr>) [] fs'" "length rx = PKT_SIZE DEFAULT_PAYLOAD_SZ" by blast
  let ?s = "?d\<lparr>heap := H', rx_buf := Some rx, txp_rb := Some p, txc_rb := Some p,
      pkt_size := PKT_SIZE DEFAULT_PAYLOAD_SZ, proto_ver := MIN_PROTO_VER, bstate := st\<rparr>"
  have run: "attach_cb e st s = Some ?s"
    unfolding attach_cb_other [OF st] d(1) bind.simps z(1) by simp
  have ring: "tx_ring ?s [] fs'" using z(2) by (simp add: tx_ring_def)
  have "rx_buf ?s = Some rx" "length rx = pkt_size ?s" "pkt_size ?s = 36 \<or> pkt_size ?s = 68"
    "new_pkt_size ?s = new_pkt_size s" "rcvd_payload ?s = rcvd_payload s" "rcvd_payload_idx ?s = rcvd_payload_idx s"
    using z(3) sz by (simp_all add: quiesced_simps)
  with ok(1) ring have "link_ok ?s" unfolding link_ok_def by metis
  moreover have "pins_ok ?s = pins_ok ?q" "work_ok ?s = work_ok ?q"
    by (simp_all add: pins_ok_def work_ok_def)
  ultimately have "dl_inv ?s"
    using quiesced_pins [OF ok(2)] quiesced_work [OF ok(3)] by (simp only: dl_inv_def)
  moreover have "\<exists>room. tx_queue ?s [] room" using ring by (auto simp: tx_queue_def)
  then have "link_idle ?s"
    using quiesced_pins [OF ok(2)] quiesced_work [OF ok(3)] by (simp add: link_idle_def quiesced_simps)
  moreover have "bstate ?s = st" "new_pkt_size ?s = new_pkt_size s" "rcvd_payload_idx ?s = rcvd_payload_idx s"
    by (simp_all add: quiesced_simps)
  ultimately show ?thesis using run by blast
qed

section \<open>The link as a state machine\<close>

text \<open>
  The events: the network layer sends; the base asserts its wake line; the SPI slave ends a
  transaction it was set up for, well (with the packet received) or badly; the worker thread takes
  an item from the queue; the base comes or goes. The semaphore of the driver makes each of them
  one step.
\<close>

inductive dl_step :: "mods_spi_dl_s \<Rightarrow> mods_spi_dl_s \<Rightarrow> bool" where
  send: "env_ok e \<Longrightarrow> queue_data_nw e buf s = Some (r, s') \<Longrightarrow> dl_step s s'"
| wake: "dl_step s (wake_isr s)"
| txn_done: "xfer_setup s \<Longrightarrow> spi_tx s = Some pkt \<Longrightarrow> length rx = pkt_size s \<Longrightarrow>
    dl_step s (txn_finished_cb (s\<lparr>rx_buf := Some rx, spi_tx := None\<rparr>))"
| txn_err: "xfer_setup s \<Longrightarrow> spi_tx s = Some pkt \<Longrightarrow> length rx = pkt_size s \<Longrightarrow>
    dl_step s (txn_error_cb (s\<lparr>rx_buf := Some rx, spi_tx := None\<rparr>))"
| thread: "env_ok e \<Longrightarrow> work_process e s = Some s' \<Longrightarrow> dl_step s s'"
| attach: "env_ok e \<Longrightarrow> attach_cb e st s = Some s' \<Longrightarrow> dl_step s s'"

inductive dl_reach :: "mods_spi_dl_s \<Rightarrow> bool" where
  init: "env_ok e \<Longrightarrow> heap_ok H \<Longrightarrow> mods_dl_init e BASE_INVALID (mods_spi_dl H) = Some s \<Longrightarrow> dl_reach s"
| step: "dl_reach s \<Longrightarrow> dl_step s s' \<Longrightarrow> dl_reach s'"

lemma init_set_pkt_size:
  assumes "mem_ok e" and "heap_ok H"
  shows "\<exists>s. set_pkt_size e (PKT_SIZE DEFAULT_PAYLOAD_SZ) (mods_spi_dl H) = Some s \<and> dl_inv (s\<lparr>rfr := False\<rparr>) \<and>
           rcvd_payload_idx s = 0"
proof -
  let ?n = "PKT_SIZE DEFAULT_PAYLOAD_SZ" and ?ini = "mods_spi_dl H"
  have n: "?n = 36 \<or> ?n = 68" and n0: "0 < ?n" by (simp_all add: dl_consts)
  have m: "0 < (160 :: nat)" by simp
  obtain p H' x where al: "ring_buf_alloc_ring (rb_oom e) 160 4 ?n 0 (Some alloc_callback) None (H, 0) = (Some p, H', x)"
      "tx_ring (?ini\<lparr>heap := H', rx_buf := Some (replicate ?n 0), txp_rb := Some p, txc_rb := Some p, pkt_size := ?n\<rparr>)
             [] [p ..< p + 160]"
    using alloc_tx_ring [OF assms(2,1) m n0, of "replicate ?n 0" ?ini] by metis
  let ?s = "?ini\<lparr>heap := H', rx_buf := Some (replicate ?n 0), txp_rb := Some p, txc_rb := Some p, pkt_size := ?n\<rparr>"
  have "pkt_size ?ini = 0" by (simp add: mods_spi_dl_def)
  then have "(?n = pkt_size ?ini \<and> txp_rb ?ini = txc_rb ?ini) = False" using n0 by auto
  then have "set_pkt_size e ?n ?ini = Some ?s"
    using al(1) assms(1)
    by (simp add: set_pkt_size_def rb_entries_pos [OF n] mem_ok_def ring_buf_free_ring_def) (simp add: mods_spi_dl_def)
  moreover have "tx_ring (?s\<lparr>rfr := False\<rparr>) [] [p ..< p + 160]" using al(2) by (simp only: tx_ring_def) simp
  then have "link_ok (?s\<lparr>rfr := False\<rparr>)"
    using n unfolding link_ok_def by (intro conjI) (blast | simp add: mods_spi_dl_def)+
  moreover have "pins_ok (?s\<lparr>rfr := False\<rparr>)" "work_ok (?s\<lparr>rfr := False\<rparr>)" "rcvd_payload_idx ?s = 0"
    by (simp_all add: mods_spi_dl_def pins_ok_def work_ok_def gpio_cfg_restore_def)
  ultimately show ?thesis by (auto simp: dl_inv_def)
qed

lemma mods_dl_init_ok:
  assumes "env_ok e" and "heap_ok H" and "st \<noteq> BASE_ATTACHED"
  shows "\<exists>s. mods_dl_init e st (mods_spi_dl H) = Some s \<and> dl_inv s \<and> link_idle s \<and> bstate s = st \<and>
           rcvd_payload_idx s = 0"
proof -
  have mem: "mem_ok e" using assms(1) by (simp add: env_ok_def)
  obtain s where s: "set_pkt_size e (PKT_SIZE DEFAULT_PAYLOAD_SZ) (mods_spi_dl H) = Some s"
      "dl_inv (s\<lparr>rfr := False\<rparr>)" "rcvd_payload_idx s = 0"
    using init_set_pkt_size [OF mem assms(2)] by blast
  from attach_cb_detached [OF s(2) mem assms(3)] s(1,3) show ?thesis by (auto simp: mods_dl_init_def)
qed

lemma dl_work_queue_frame:
  "link_ok (dl_work_queue w s) = link_ok s" "pins_ok (dl_work_queue w s) = pins_ok s"
  by (simp_all add: link_ok_def pins_ok_def dl_work_queue_def tx_ring_def)

lemma dl_work_queue_work:
  assumes "work_ok s"
    and "w = Wake_work \<or> \<not> queued s Tend_work \<and> \<not> queued s Terr_work \<and> xfer_setup s \<and> spi_tx s = None"
  shows "work_ok (dl_work_queue w s)"
  using assms by (cases "queued s w"; cases w) (simp_all add: work_ok_def dl_work_queue_def)

lemma dl_work_queue_ok:
  assumes "dl_inv s"
  shows "dl_inv (wake_isr s)"
    "xfer_setup s \<Longrightarrow> spi_tx s = Some pkt \<Longrightarrow> length rx = pkt_size s \<Longrightarrow>
      dl_inv (txn_finished_cb (s\<lparr>rx_buf := Some rx, spi_tx := None\<rparr>))"
    "xfer_setup s \<Longrightarrow> spi_tx s = Some pkt \<Longrightarrow> length rx = pkt_size s \<Longrightarrow>
      dl_inv (txn_error_cb (s\<lparr>rx_buf := Some rx, spi_tx := None\<rparr>))"
proof -
  let ?t = "s\<lparr>rx_buf := Some rx, spi_tx := None\<rparr>"
  show "dl_inv (wake_isr s)"
    using assms dl_work_queue_work [of s Wake_work] by (simp add: dl_inv_def wake_isr_def dl_work_queue_frame)
  assume x: "xfer_setup s" "spi_tx s = Some pkt" "length rx = pkt_size s"
  have "link_ok ?t" "pins_ok ?t"
    using assms x(3) by (simp_all add: dl_inv_def link_ok_def pins_ok_def tx_ring_def)
  moreover have none: "\<not> queued s Tend_work \<and> \<not> queued s Terr_work"
    using assms x(2) by (auto simp: dl_inv_def work_ok_def)
  then have "work_ok ?t" using assms by (auto simp: dl_inv_def work_ok_def)
  ultimately show "dl_inv (txn_finished_cb ?t)" "dl_inv (txn_error_cb ?t)"
    using dl_work_queue_work [of ?t] none x(1)
    by (simp_all add: dl_inv_def txn_finished_cb_def txn_error_cb_def dl_work_queue_frame)
qed

lemma queue_data_nw_ok:
  assumes "dl_inv s"
  shows "\<exists>r s'. queue_data_nw e buf s = Some (r, s') \<and> dl_inv s'"
proof -
  obtain r s1 where q: "queue_data MSG_TYPE_NW buf s = Some (r, s1)" "link_ok s1" "same_ctl s s1"
    using queue_data_ok assms unfolding dl_inv_def by blast
  have i: "dl_inv s1" using q(2,3) assms same_ctl_ok by (auto simp: dl_inv_def)
  from xfer_ok [OF this, of e] q(1) i show ?thesis by (auto simp: queue_data_nw_def)
qed

text \<open>Taking an item off the queue.\<close>

definition dequeue :: "work \<Rightarrow> work list \<Rightarrow> mods_spi_dl_s \<Rightarrow> mods_spi_dl_s" where
  "dequeue w q s = s\<lparr>work_q := q, queued := (queued s)(w := False)\<rparr>"

lemma dequeue_ok:
  assumes "dl_inv s" and "work_q s = w # q"
  shows "work_process e s = run_work e w (dequeue w q s)" "dl_inv (dequeue w q s)"
    "w \<noteq> Wake_work \<Longrightarrow> txn_over (dequeue w q s)"
proof -
  have wk: "queued s w" using assms by (auto simp: dl_inv_def work_ok_def)
  show "work_process e s = run_work e w (dequeue w q s)"
    using assms(2) wk by (simp add: work_process_def dequeue_def Let_def)
  show inv: "dl_inv (dequeue w q s)"
    using assms by (auto simp: dl_inv_def link_ok_def pins_ok_def work_ok_def dequeue_def tx_ring_def)
  show "txn_over (dequeue w q s)" if "w \<noteq> Wake_work"
    using inv that wk assms(1)
    by (cases w) (auto simp: txn_over_def dequeue_def dl_inv_def work_ok_def)
qed

lemma work_process_ok:
  assumes inv: "dl_inv s" and env: "env_ok e" and fit: "fits s \<or> work_process e s \<noteq> None"
  shows "\<exists>s'. work_process e s = Some s' \<and> dl_inv s'"
proof (cases "work_q s")
  case Nil
  with inv show ?thesis by (simp add: work_process_def)
next
  case (Cons w q)
  note d = dequeue_ok [OF inv Cons]
  have "fits (dequeue w q s) = fits s" by (simp add: fits_def dequeue_def)
  with fit d(1) have fit': "fits (dequeue w q s) \<or> run_work e w (dequeue w q s) \<noteq> None" by simp
  show ?thesis
  proof (cases w)
    case Wake_work
    with xfer_ok [OF d(2), of e] d(1) show ?thesis by (auto simp: wake_worker_def)
  next
    case Tend_work
    with txn_finished_worker_ok [of "dequeue w q s" e] d fit' env show ?thesis by auto
  next
    case Terr_work
    with txn_error_worker_ok [of "dequeue w q s" e] d env show ?thesis by (auto simp: env_ok_def)
  qed
qed

lemma dl_step_inv: "dl_step s s' \<Longrightarrow> dl_inv s \<Longrightarrow> dl_inv s'"
proof (induction rule: dl_step.induct)
  case (send e buf s r s')
  with queue_data_nw_ok [of s e buf] show ?case by auto
next
  case (thread e s s')
  with work_process_ok [of s e] show ?case by auto
next
  case (attach e st s s')
  show ?case
  proof (cases "st = BASE_ATTACHED")
    case True
    with attach attach_cb_attached [of e s] have "s' = s\<lparr>bstate := BASE_ATTACHED\<rparr>" by simp
    with attach.prems show ?thesis
      by (auto simp: dl_inv_def link_ok_def pins_ok_def work_ok_def tx_ring_def)
  next
    case False
    with attach_cb_detached [of s e st] attach show ?thesis by (auto simp: env_ok_def)
  qed
qed (simp_all add: dl_work_queue_ok)

lemma dl_reach_inv: "dl_reach s \<Longrightarrow> dl_inv s"
proof (induction rule: dl_reach.induct)
  case (init e H s)
  with mods_dl_init_ok [of e H BASE_INVALID] show ?case by auto
next
  case (step s s')
  then show ?case using dl_step_inv by blast
qed

section \<open>Retries\<close>

lemma unacked_kept:
  assumes over: "txn_over s" and ring: "tx_ring s (q # qs) fs" and "clock_ok e" and "no_ack e s"
    and tries: "tx_tries_remaining s - 1 > 0"
  shows "\<exists>s'. txn_error_worker e s = Some s' \<and> txn_over s' \<and> tx_ring s' (q # qs) fs \<and> heap s' = heap s \<and>
           tx_tries_remaining s' = tx_tries_remaining s - 1 \<and> ack_supported s' \<and>
           spi_tx s' = Some (data_bytes (heap s) q)"
proof -
  let ?t = "(take_pins False (deassert_rfr_int s))\<lparr>tx_tries_remaining := tx_tries_remaining s - 1\<rparr>"
  let ?u = "?t\<lparr>rcvd_payload_idx := 0, pkts_remaining := 0, xfer_setup := False\<rparr>"
  have a: "ack_supported s" "txc_rb_is_valid s = Some True" using assms(4) by (simp_all add: no_ack_def)
  have "no_ack e (deassert_rfr_int s)" "txc_rb_is_valid (deassert_rfr_int s) = Some True"
    using assms(4) by (simp_all add: no_ack_def txc_rb_is_valid_def deassert_rfr_int_def)
  with ack_handler_on [OF assms(3), of "deassert_rfr_int s" True ACK_ERROR] a(1) tries
  have h: "ack_handler e ACK_ERROR (deassert_rfr_int s) = Some (False, ?t)"
    by (simp add: deassert_rfr_int_def)
  have u: "tx_ring ?u (q # qs) fs" "\<not> xfer_setup ?u"
    using ring by (simp_all add: tx_ring_def take_pins_def deassert_rfr_int_def)
  have run: "txn_error_worker e s = Some (armed (data_bytes (heap s) q) True ?u)"
    using h xfer_data [OF u, of e] by (simp add: txn_error_worker_def) (simp add: take_pins_def deassert_rfr_int_def)
  moreover have "txn_over (armed (data_bytes (heap s) q) True ?u)"
    using txn_error_worker_ok [OF over assms(3)] run over
    by (auto simp: txn_over_def armed_def restore_pins_def take_pins_def deassert_rfr_int_def)
  ultimately show ?thesis using u(1) a(1) by (simp add: take_pins_def deassert_rfr_int_def)
qed

lemma unacked_dropped:
  assumes over: "txn_over s" and ring: "tx_ring s (q # p # qs) fs" and "clock_ok e" and "no_ack e s"
    and tries: "tx_tries_remaining s = 1"
  shows "\<exists>s'. txn_error_worker e s = Some s' \<and> tx_ring s' (p # qs) (fs @ [q]) \<and>
           map (data_bytes (heap s')) (p # qs) = map (data_bytes (heap s)) (p # qs) \<and>
           tx_tries_remaining s' = NUM_TRIES \<and> spi_tx s' = Some (data_bytes (heap s) p)"
proof -
  let ?t = "(take_pins False (deassert_rfr_int s))\<lparr>tx_tries_remaining := NUM_TRIES\<rparr>"
  have a: "ack_supported s" using assms(4) by (simp add: no_ack_def)
  have "no_ack e (deassert_rfr_int s)" "txc_rb_is_valid (deassert_rfr_int s) = Some True"
    using assms(4) by (simp_all add: no_ack_def txc_rb_is_valid_def deassert_rfr_int_def)
  with ack_handler_on [OF assms(3), of "deassert_rfr_int s" True ACK_ERROR] a tries
  have h: "ack_handler e ACK_ERROR (deassert_rfr_int s) = Some (True, ?t)"
    by (simp add: deassert_rfr_int_def)
  have "tx_ring ?t (q # p # qs) fs" using ring by (simp add: tx_ring_def take_pins_def deassert_rfr_int_def)
  from reset_txc_rb_entry_consume [OF this] obtain H c where
    r: "reset_txc_rb_entry ?t = Some (?t\<lparr>heap := H, txc_rb := Some c\<rparr>)"
       "tx_ring (?t\<lparr>heap := H, txc_rb := Some c\<rparr>) (p # qs) (fs @ [q])"
       "map (data_bytes H) (p # qs) = map (data_bytes (heap ?t)) (p # qs)" by blast
  let ?u = "?t\<lparr>heap := H, txc_rb := Some c, rcvd_payload_idx := 0, pkts_remaining := 0, xfer_setup := False\<rparr>"
  have u: "tx_ring ?u (p # qs) (fs @ [q])" "\<not> xfer_setup ?u" using r(2) by (simp_all add: tx_ring_def)
  have d: "map (data_bytes H) (p # qs) = map (data_bytes (heap s)) (p # qs)"
    using r(3) by (simp add: take_pins_def deassert_rfr_int_def)
  have "txn_error_worker e s = Some (armed (data_bytes H p) True ?u)"
    using h r(1) xfer_data [OF u, of e] by (simp add: txn_error_worker_def)
  with u(1) d show ?thesis by (intro exI [of _ "armed (data_bytes H p) True ?u"]) simp
qed

section \<open>A packet size that changes in the middle of a message\<close>

lemma rx_all_append: "rx_all (xs @ ys) s = do { s1 \<leftarrow> rx_all xs s; rx_all ys s1 }"
  by (induction xs arbitrary: s) (auto simp: bind_eq_None_conv split: Option.bind_splits)

definition nw_packet :: "nat \<Rightarrow> u8 list" where
  "nw_packet k = mk_packet 68 (pkt_bitmask MSG_TYPE_NW k False) []"

lemma rx_nw_packet:
  assumes "pkt_size s = 68" and "0 < rcvd_payload_idx s" and "pkts_remaining s = of_nat (Suc k)" and "0 < k" and "k < 63"
    and "rcvd_payload_idx s < 2048" and "length (rcvd_payload s) = 2048"
  shows "rx_bytes (nw_packet k) s =
     (if rcvd_payload_idx s + 64 \<le> 2048
      then Some (s\<lparr>pkts_remaining := of_nat k, rcvd_payload_idx := rcvd_payload_idx s + 64,
                   rcvd_payload := memcpy_at (rcvd_payload_idx s) (replicate 64 0) (rcvd_payload s)\<rparr>)
      else None)"
proof -
  have k: "k < 64" using assms(5) by simp
  note b = pkt_bitmask_fields [OF k, of MSG_TYPE_NW False]
  have pl: "PL_SIZE 68 = 64" by (simp add: dl_consts)
  have "take 64 (drop HDR_SIZE (nw_packet k)) = replicate 64 0"
    using mk_packet_payload [of "[]" 68 "pkt_bitmask MSG_TYPE_NW k False"] pl
    by (simp add: nw_packet_def padded_def)
  then have "rx_bytes (nw_packet k) s = rx_packet (pkt_bitmask MSG_TYPE_NW k False) (replicate 64 0) s"
    using assms(1) pl by (simp add: rx_bytes_def nw_packet_def)
  also have "\<dots> = rx_store (pkt_bitmask MSG_TYPE_NW k False) (replicate 64 0) (s\<lparr>pkts_remaining := of_nat k\<rparr>)"
    using b assms(2,3) k by (simp add: rx_packet_def Let_def ucast_of_nat_small)
  finally show ?thesis
    using assms(4-7) b(2) of_nat_small_neq_0 [OF assms(4) k] by (simp add: rx_store_def Let_def dl_consts)
qed

lemma rx_nw_packets:
  assumes "pkt_size s = 68" and "rcvd_payload_idx s = 32" and "pkts_remaining s = 63" and "length (rcvd_payload s) = 2048"
    and "m \<le> 31"
  shows "\<exists>s'. rx_all (map nw_packet (rev [63 - m ..< 63])) s = Some s' \<and> pkt_size s' = 68 \<and>
           rcvd_payload_idx s' = 32 + 64 * m \<and> pkts_remaining s' = of_nat (63 - m) \<and> length (rcvd_payload s') = 2048"
  using assms(5)
proof (induction m)
  case 0
  with assms show ?case by simp
next
  case (Suc m)
  then obtain s' where s': "rx_all (map nw_packet (rev [63 - m ..< 63])) s = Some s'" "pkt_size s' = 68"
      "rcvd_payload_idx s' = 32 + 64 * m" "pkts_remaining s' = of_nat (63 - m)" "length (rcvd_payload s') = 2048" by auto
  have "63 - m = Suc (63 - Suc m)" using Suc.prems by simp
  then have "[63 - Suc m ..< 63] = (63 - Suc m) # [63 - m ..< 63]"
    using Suc.prems by (metis diff_less upt_conv_Cons zero_less_Suc zero_less_numeral)
  moreover have "rx_bytes (nw_packet (63 - Suc m)) s' =
      Some (s'\<lparr>pkts_remaining := of_nat (63 - Suc m), rcvd_payload_idx := 32 + 64 * m + 64,
              rcvd_payload := memcpy_at (32 + 64 * m) (replicate 64 0) (rcvd_payload s')\<rparr>)"
    using rx_nw_packet [of s' "63 - Suc m"] s' Suc.prems \<open>63 - m = Suc (63 - Suc m)\<close> by simp
  ultimately show ?case using s' Suc.prems by (simp add: rx_all_append)
qed

section \<open>Properties\<close>

text \<open>
  C1. Whatever the network layer, the base, the SPI slave and the worker thread do, in any order,
  the link stays consistent: the transmit ring is a queue of packets between the two pointers, the
  packet size is 36 or 68, the buffers have the lengths their users rely on, the position in the
  receive buffer is inside it, the two shared pins belong to the SPI port whenever a transfer is set
  up, and the end of each transaction is queued at most once.
\<close>

theorem link_invariant:
  assumes "dl_reach s"
  shows "dl_inv s"
  using assms by (rule dl_reach_inv)


text \<open>
  C23. When the base goes away the link is back in its initial condition: the transmit queue is empty,
  the packet size is the default, no transfer and no work is pending, both lines to the base are low and
  the pins are with the SPI port. Two fields keep their old values, the packet size agreed on with the
  base that left and the position in the receive buffer, so the next base starts with them.
\<close>

theorem detach_resets_link:
  assumes "dl_reach s" and "env_ok e" and "st \<noteq> BASE_ATTACHED"
  shows "\<exists>s'. attach_cb e st s = Some s' \<and> link_idle s' \<and> bstate s' = st \<and>
           new_pkt_size s' = new_pkt_size s \<and> rcvd_payload_idx s' = rcvd_payload_idx s"
  using attach_cb_detached [OF dl_reach_inv [OF assms(1)]] assms(2,3) by (auto simp: env_ok_def)


text \<open>
  C25. The receive buffer can be overrun. If, 32 bytes into a message of 64 packets, the transmit queue
  runs empty and the agreed change from 32 to 64 byte payloads takes effect, 31 more packets of that
  message fill the buffer up to byte 2016, and the copy of the next one writes past its end: the test of
  the position against the size of the buffer does not see it.
\<close>

theorem resize_mid_message_overruns:
  assumes "link_ok s" and "tx_queue s [] room" and "mem_ok e" and "pkt_size s = 36"
    and "rcvd_payload_idx s = 32" and "pkts_remaining s = 63"
  shows "\<exists>s' s''. set_pkt_size e 68 s = Some s' \<and> rx_all (map nw_packet (rev [32 ..< 63])) s' = Some s'' \<and>
           rcvd_payload_idx s'' < MODS_DL_PAYLOAD_MAX_SZ \<and> rx_bytes (nw_packet 31) s'' = None"
proof -
  obtain fs where r: "tx_ring s [] fs" using assms(2) by (auto simp: tx_queue_def)
  obtain H p where z: "set_pkt_size e 68 s = Some (s\<lparr>heap := H, rx_buf := Some (replicate 68 0),
        txp_rb := Some p, txc_rb := Some p, pkt_size := 68\<rparr>)"
    using set_pkt_size_change [OF r assms(3), of 68] assms(4) by auto
  let ?s = "s\<lparr>heap := H, rx_buf := Some (replicate 68 0), txp_rb := Some p, txc_rb := Some p, pkt_size := 68\<rparr>"
  have len: "length (rcvd_payload s) = 2048" using assms(1) by (simp add: link_ok_def dl_consts)
  have n: "63 - 31 = (32 :: nat)" "32 + 64 * 31 = (2016 :: nat)" and n': "32 = Suc 31" by simp_all
  have "\<exists>s'. rx_all (map nw_packet (rev [63 - 31 ..< 63])) ?s = Some s' \<and> pkt_size s' = 68 \<and>
      rcvd_payload_idx s' = 32 + 64 * 31 \<and> pkts_remaining s' = of_nat (63 - 31) \<and> length (rcvd_payload s') = 2048"
    by (rule rx_nw_packets) (use assms(5,6) len in simp_all)
  then obtain s'' where s'': "rx_all (map nw_packet (rev [32 ..< 63])) ?s = Some s''" "pkt_size s'' = 68"
      "rcvd_payload_idx s'' = 2016" "pkts_remaining s'' = of_nat 32" "length (rcvd_payload s'') = 2048"
    unfolding n by blast
  have "rx_bytes (nw_packet 31) s'' = None"
    using rx_nw_packet [of s'' 31] s''(2-5) unfolding n' by simp
  then show ?thesis using z s''(1) s''(3) unfolding MODS_DL_PAYLOAD_MAX_SZ_def
    by (intro exI [of _ ?s] exI [of _ s'']) (simp del: upt_rec_numeral)
qed

text \<open>
  A change of the packet size can throw away a full transmit queue. The code takes equal producer and
  consumer pointers for an empty ring, but they are also equal when it is full: with every entry in use, a
  packet just sent that is to be retried, and a dummy packet received, the new size takes effect and all
  queued packets are lost.
\<close>

theorem resize_loses_full_queue:
  assumes over: "txn_over s" and full: "tx_ring s (q # qs) []" and env: "env_ok e" "wake_n e" and na: "no_ack e s"
    and "tx_tries_remaining s = NUM_TRIES" and rx: "rx_buf s = Some rx" "classify (le16_at rx 0) = ACK_NOT_NEEDED"
    and sz: "pkt_size s = 36" "new_pkt_size s = 68"
  shows "\<exists>s'. txn_finished_worker e s = Some s' \<and> tx_queue s' [] 160"
proof -
  let ?d = "deassert_rfr_int s"
  let ?t = "(take_pins False ?d)\<lparr>tx_tries_remaining := tx_tries_remaining s - 1\<rparr>"
  let ?u = "?t\<lparr>xfer_setup := False\<rparr>"
  have clk: "clock_ok e" "mem_ok e" using env(1) by (simp_all add: env_ok_def)
  have "ack_supported ?d" "no_ack e ?d" "txc_rb_is_valid ?d = Some True"
    using na by (simp_all add: no_ack_def txc_rb_is_valid_def deassert_rfr_int_def)
  with ack_handler_on [OF clk(1), of ?d True ACK_NOT_NEEDED] assms(6)
  have h: "ack_handler e ACK_NOT_NEEDED ?d = Some (False, ?t)"
    by (simp add: deassert_rfr_int_def NUM_TRIES_def)
  have u: "tx_ring ?u (q # qs) []" "txp_rb ?u = txc_rb ?u" "pkt_size ?u = 36" "new_pkt_size ?u = 68"
    using full sz by (simp_all add: tx_ring_def take_pins_def deassert_rfr_int_def)
  have ne: "68 \<noteq> pkt_size ?u \<or> txp_rb ?u \<noteq> txc_rb ?u" unfolding u(3) by simp
  obtain H p where z: "set_pkt_size e 68 ?u = Some (?u\<lparr>heap := H, rx_buf := Some (replicate 68 0),
        txp_rb := Some p, txc_rb := Some p, pkt_size := 68\<rparr>)"
      "tx_ring (?u\<lparr>heap := H, rx_buf := Some (replicate 68 0), txp_rb := Some p, txc_rb := Some p,
        pkt_size := 68\<rparr>) [] [p ..< p + 160]"
    using set_pkt_size_change [OF u(1) clk(2) _ ne] by blast
  let ?v = "?u\<lparr>heap := H, rx_buf := Some (replicate 68 0), txp_rb := Some p, txc_rb := Some p, pkt_size := 68,
      new_pkt_size := 0\<rparr>"
  have v: "tx_ring ?v [] [p ..< p + 160]" using z(2) by (simp add: tx_ring_def)
  have "txn_finished_worker e s = xfer e ?v"
    using rx h u(2,4) z(1) by (simp add: txn_finished_worker_def Let_def)
  also have "\<dots> = Some ?v" using xfer_idle [OF v] env(2) by simp
  finally show ?thesis using v by (auto simp: tx_queue_def)
qed

section \<open>Concrete instances\<close>

text \<open>
  A heap nothing has been allocated from, and an environment in which allocations succeed, the clock
  ticks once per reading, the base asserts no line and never acknowledges.
\<close>

definition empty_heap :: rb_heap where
  "empty_heap = \<lparr>rb = (\<lambda>_. zeroed_ring_buf), live = (\<lambda>_. False), brk = 0\<rparr>"

definition quiet_env :: dl_env where
  "quiet_env = \<lparr>wake_n = True, start_usec = 0, rack_at = (\<lambda>_. False), wake_at = (\<lambda>_. True),
     usec_at = of_nat, wake2_at = (\<lambda>_. True), usec2_at = of_nat, rb_oom = (\<lambda>_. False), rx_oom = (\<lambda>_. False)\<rparr>"

lemma quiet_env_ok: "env_ok quiet_env" "mem_ok quiet_env" "clock_ok quiet_env"
  by (simp_all add: env_ok_def mem_ok_def clock_ok_def ticking_def quiet_env_def word_le_nat_alt)

lemma empty_heap_ok: "heap_ok empty_heap"
  by (simp add: heap_ok_def empty_heap_def)

lemma some_link: "\<exists>s. dl_reach s \<and> dl_inv s \<and> link_idle s \<and> rcvd_payload_idx s = 0"
  using mods_dl_init_ok [OF quiet_env_ok(1) empty_heap_ok, of BASE_INVALID]
    dl_reach.init [OF quiet_env_ok(1) empty_heap_ok] by blast

lemma some_attached_link:
  "\<exists>s. dl_reach s \<and> dl_inv s \<and> bstate s = BASE_ATTACHED \<and> pkt_size s = 36 \<and> aligned s \<and> (\<exists>room. tx_queue s [] room)"
proof -
  obtain s where s: "dl_reach s" "link_idle s" "rcvd_payload_idx s = 0" using some_link by blast
  let ?s = "s\<lparr>bstate := BASE_ATTACHED\<rparr>"
  have "dl_reach ?s" using dl_reach.step [OF s(1) dl_step.attach [OF quiet_env_ok(1) attach_cb_attached]] .
  moreover have "tx_queue ?s = tx_queue s" by (simp add: fun_eq_iff tx_queue_def tx_ring_def)
  then have "\<exists>room. tx_queue ?s [] room" using s(2) by (simp add: link_idle_def)
  moreover have "pkt_size ?s = 36" "aligned ?s" "bstate ?s = BASE_ATTACHED"
    using s(2,3) by (simp_all add: link_idle_def aligned_def dl_consts)
  ultimately show ?thesis using dl_reach_inv by blast
qed

theorem queue_data_spec_witness:
  "\<exists>s room s'. tx_queue s [] room \<and> bstate s = BASE_ATTACHED \<and>
     queue_data MSG_TYPE_NW [1, 2, 3] s =
       Some (if length (packetize 36 MSG_TYPE_NW [1, 2, 3]) \<le> room then OK else - ENOMEM, s') \<and>
     tx_queue s' (take room (packetize 36 MSG_TYPE_NW [1, 2, 3])) (room - length (packetize 36 MSG_TYPE_NW [1, 2, 3]))"
proof -
  obtain s room where s: "tx_queue s [] room" "bstate s = BASE_ATTACHED" "pkt_size s = 36"
    using some_attached_link by blast
  have "0 < PL_SIZE (pkt_size s)" "length [1, 2, 3 :: u8] \<le> MODS_DL_PAYLOAD_MAX_SZ"
    using s(3) by (simp_all add: dl_consts)
  from queue_data_spec [OF s(1) this(1) s(2) this(2), of MSG_TYPE_NW] s(1,2) show ?thesis
    unfolding s(3) append_Nil by blast
qed


theorem link_invariant_witness: "\<exists>s. dl_reach s \<and> dl_inv s"
  using some_link link_invariant by blast


theorem detach_resets_link_witness:
  "\<exists>s s'. dl_reach s \<and> bstate s = BASE_ATTACHED \<and> attach_cb quiet_env BASE_DETACHED s = Some s' \<and> link_idle s'"
  using some_attached_link detach_resets_link [OF _ quiet_env_ok(1), of _ BASE_DETACHED] by blast

lemma ack_wait_timeout:
  assumes "\<And>k. \<not> rack_at e k" and "\<And>k. wake_at e k"
    and "\<not> usec_at e k - start_usec e < ACK_TIMEOUT_US" and "j \<le> k"
  shows "ack_wait e j = Some True"
  using assms(4)
proof (induction "k - j" arbitrary: j)
  case 0
  with assms(1-3) show ?case by (subst ack_wait.simps) simp
next
  case (Suc n)
  then have "ack_wait e (Suc j) = Some True" by simp
  with assms(1,2) show ?case by (subst ack_wait.simps) simp
qed

lemma quiet_env_no_ack: "ack_wait quiet_env 0 = Some True"
  by (rule ack_wait_timeout [of _ 200000]) (simp_all add: quiet_env_def dl_consts)

text \<open>A link with two packets in a ring of two entries, the first of them just sent.\<close>

definition sample_link :: "u8 list \<Rightarrow> mods_spi_dl_s" where
  "sample_link rx = (mods_spi_dl empty_heap)\<lparr>bstate := BASE_ATTACHED, ack_supported := True,
     tx_tries_remaining := NUM_TRIES, new_pkt_size := 68, pkts_remaining := 63, rcvd_payload_idx := 32,
     rx_buf := Some rx\<rparr>"

lemma some_ring_link:
  assumes "length rx = 36"
  shows "\<exists>H p. let s = (sample_link rx)\<lparr>heap := H, txp_rb := Some p, txc_rb := Some p, pkt_size := 36\<rparr>
               in tx_ring s [] [p, Suc p] \<and> dl_inv s"
proof -
  have m: "0 < (2 :: nat)" and n: "0 < (36 :: nat)" by simp_all
  obtain p H where r: "tx_ring ((sample_link rx)\<lparr>heap := H, rx_buf := Some rx, txp_rb := Some p, txc_rb := Some p,
      pkt_size := 36\<rparr>) [] [p ..< p + 2]"
    using alloc_tx_ring [OF empty_heap_ok quiet_env_ok(2) m n, of rx "sample_link rx"] by blast
  let ?s = "(sample_link rx)\<lparr>heap := H, txp_rb := Some p, txc_rb := Some p, pkt_size := 36\<rparr>"
  have ring: "tx_ring ?s [] [p, Suc p]" using r by (simp add: tx_ring_def upt_conv_Cons)
  have "link_ok ?s" unfolding link_ok_def
    using ring assms by (intro conjI) (blast | simp add: sample_link_def mods_spi_dl_def dl_consts)+
  moreover have "pins_ok ?s" "work_ok ?s"
    by (simp_all add: pins_ok_def work_ok_def sample_link_def mods_spi_dl_def gpio_cfg_restore_def)
  ultimately have "dl_inv ?s" by (simp add: dl_inv_def)
  with ring show ?thesis unfolding Let_def by blast
qed

lemma two_packets:
  "packetize 36 MSG_TYPE_NW (replicate 33 7) =
     [mk_packet 36 (pkt_bitmask MSG_TYPE_NW 1 True) (replicate 32 7), mk_packet 36 (pkt_bitmask MSG_TYPE_NW 0 False) [7]]"
proof -
  have pl: "PL_SIZE 36 = 32" by (simp add: dl_consts)
  have k: "num_pkts 32 33 = Suc (Suc 0)" by (simp add: num_pkts_def)
  have m: "min 32 33 = (32 :: nat)" "33 - 32 = Suc 0" by simp_all
  show ?thesis
    unfolding packetize_def pl length_replicate k pkt_list.simps take_replicate drop_replicate m
    by (simp add: take_Cons')
qed

lemma some_full_link:
  assumes "length rx = 36"
  shows "\<exists>s q q'. txn_over s \<and> tx_ring s [q, q'] [] \<and> no_ack quiet_env s \<and> tx_tries_remaining s = NUM_TRIES \<and>
           rx_buf s = Some rx \<and> pkt_size s = 36 \<and> new_pkt_size s = 68"
proof -
  obtain H p where s: "tx_ring ((sample_link rx)\<lparr>heap := H, txp_rb := Some p, txc_rb := Some p, pkt_size := 36\<rparr>) [] [p, Suc p]"
      "dl_inv ((sample_link rx)\<lparr>heap := H, txp_rb := Some p, txc_rb := Some p, pkt_size := 36\<rparr>)"
    using some_ring_link [OF assms] unfolding Let_def by blast
  define s where "s = (sample_link rx)\<lparr>heap := H, txp_rb := Some p, txc_rb := Some p, pkt_size := 36\<rparr>"
  have f: "pkt_size s = 36" "bstate s = BASE_ATTACHED" "ack_supported s" "tx_tries_remaining s = NUM_TRIES"
    "new_pkt_size s = 68" "\<not> xfer_setup s" "rx_buf s = Some rx" "\<not> queued s w" for w
    by (simp_all add: s_def sample_link_def mods_spi_dl_def)
  have pl: "0 < PL_SIZE (pkt_size s)" "length (replicate 33 7 :: u8 list) \<le> MODS_DL_PAYLOAD_MAX_SZ"
    unfolding f(1) length_replicate by (simp_all add: dl_consts)
  let ?k = "length (packetize (pkt_size s) MSG_TYPE_NW (replicate 33 7))"
  have k: "?k = 2" unfolding f(1) two_packets by simp
  obtain H' p' where q: "tx_ring (tx_upd H' p' s) ([] @ take ?k [p, Suc p]) (drop ?k [p, Suc p])"
      "map (data_bytes H') ([] @ take ?k [p, Suc p]) = map (data_bytes (heap s)) [] @
         take (length [p, Suc p]) (packetize (pkt_size s) MSG_TYPE_NW (replicate 33 7))"
    using queue_data_ring [OF s(1) [folded s_def] pl(1) f(2) pl(2), of MSG_TYPE_NW] by blast
  have ring: "tx_ring (tx_upd H' p' s) [p, Suc p] []" using q(1) unfolding k by simp
  have d: "data_bytes H' p = mk_packet 36 (pkt_bitmask MSG_TYPE_NW 1 True) (replicate 32 7)"
    using q(2) unfolding f(1) two_packets by simp
  let ?t = "armed (data_bytes H' p) True (tx_upd H' p' s)"
  have "dl_inv ?t"
    by (rule armed_ok [OF s(2) [folded s_def] _ ring]) (use f in \<open>simp_all add: tx_upd_def same_ctl_def\<close>)
  then have "txn_over ?t" using f(8) by (simp add: txn_over_def armed_def restore_pins_def tx_upd_def)
  moreover have "txc_rb ?t = Some p" "heap ?t = H'" using ring by (simp_all add: tx_ring_def)
  then have "txc_rb_is_valid ?t = Some True"
    using d by (simp add: txc_rb_is_valid_def) (simp add: pkt_bitmask_def dl_consts)
  then have "no_ack quiet_env ?t" using f(3) quiet_env_no_ack by (simp add: no_ack_def tx_upd_def)
  moreover have "rx_buf ?t = Some rx" "new_pkt_size ?t = 68"
    using f by (simp_all add: armed_def restore_pins_def tx_upd_def)
  ultimately show ?thesis using ring f(1,4)
    by (intro exI [of _ ?t] exI [of _ p] exI [of _ "Suc p"]) (simp add: tx_upd_def)
qed


theorem resize_mid_message_overruns_witness:
  "\<exists>s s' s''. link_ok s \<and> set_pkt_size quiet_env 68 s = Some s' \<and>
     rx_all (map nw_packet (rev [32 ..< 63])) s' = Some s'' \<and> rx_bytes (nw_packet 31) s'' = None"
proof -
  have "length (replicate 36 (0 :: u8)) = 36" by (rule length_replicate)
  then obtain H p where s: "tx_ring ((sample_link (replicate 36 0))\<lparr>heap := H, txp_rb := Some p, txc_rb := Some p, pkt_size := 36\<rparr>) [] [p, Suc p]"
      "dl_inv ((sample_link (replicate 36 0))\<lparr>heap := H, txp_rb := Some p, txc_rb := Some p, pkt_size := 36\<rparr>)"
    using some_ring_link unfolding Let_def by blast
  define s where "s = (sample_link (replicate 36 0))\<lparr>heap := H, txp_rb := Some p, txc_rb := Some p, pkt_size := 36\<rparr>"
  have f: "pkt_size s = 36" "rcvd_payload_idx s = 32" "pkts_remaining s = 63"
    by (simp_all add: s_def sample_link_def)
  have "tx_queue s [] 2" unfolding tx_queue_def
    using s(1) [folded s_def] by (intro exI [of _ "[]"] exI [of _ "[p, Suc p]"]) simp
  moreover have "link_ok s" using s(2) [folded s_def] by (simp add: dl_inv_def)
  ultimately show ?thesis
    using resize_mid_message_overruns [OF _ _ quiet_env_ok(2) f] by blast
qed

theorem resize_loses_full_queue_witness:
  "\<exists>s q q' s'. tx_ring s [q, q'] [] \<and> txn_finished_worker quiet_env s = Some s' \<and> tx_queue s' [] 160"
proof -
  have len: "length (mk_packet 36 HDR_BIT_DUMMY []) = 36" by (simp add: length_mk_packet dl_consts)
  have c: "classify (le16_at (mk_packet 36 HDR_BIT_DUMMY []) 0) = ACK_NOT_NEEDED"
    unfolding mk_packet_header by (simp add: classify_def dl_consts)
  obtain s q q' where s: "txn_over s" "tx_ring s [q, q'] []" "no_ack quiet_env s" "tx_tries_remaining s = NUM_TRIES"
      "rx_buf s = Some (mk_packet 36 HDR_BIT_DUMMY [])" "pkt_size s = 36" "new_pkt_size s = 68"
    using some_full_link [OF len] by blast
  have w: "wake_n quiet_env" by (simp add: quiet_env_def)
  from resize_loses_full_queue [OF s(1,2) quiet_env_ok(1) w s(3,4,5) c s(6,7)] s(2) show ?thesis by blast
qed

end
