(* ===== verification/Network.thy ===== *)
theory Network
  imports GbCoreProps DatalinkInv
begin

text \<open>
  The network layer, \<^verbatim>\<open>drivers/greybus/mods/network.c\<close>: the transport of the greybus core over the
  SPI data link. A message travels behind the number of its cport, which is written into the headroom
  in front of the message.
\<close>

section \<open>Model\<close>

text \<open>The size of \<^verbatim>\<open>struct mods_msg_hdr\<close>, and the headroom, rounded up to a multiple of 4.\<close>

definition mods_msg_hdr_size :: nat where "mods_msg_hdr_size = 2"
definition network_headroom :: nat where "network_headroom = (mods_msg_hdr_size + 3) div 4 * 4"

text \<open>A payload shorter than the header would make the length wrap around.\<close>

definition network_recv :: "('cb, 'w) gb_env \<Rightarrow> u8 list \<Rightarrow> ('cb, 'w) gb \<Rightarrow> (int \<times> ('cb, 'w) gb) option" where
  "network_recv E buf s =
     (if length buf < mods_msg_hdr_size then None
      else greybus_rx_handler E (ucast (le16_at buf 0)) (Some (drop mods_msg_hdr_size buf)) s)"

definition network_init :: "dl_env \<Rightarrow> base_attached_e \<Rightarrow> mods_spi_dl_s \<Rightarrow> mods_spi_dl_s option" where
  "network_init e st dl = mods_dl_init e st dl"

definition network_send :: "dl_env \<Rightarrow> u32 \<Rightarrow> u8 list \<Rightarrow> mods_spi_dl_s \<Rightarrow> (int \<times> mods_spi_dl_s) option" where
  "network_send e cp buf dl = queue_data_nw e (le16_bytes (ucast cp) @ buf) dl"

definition network_listen :: "u32 \<Rightarrow> mods_spi_dl_s \<Rightarrow> int \<times> mods_spi_dl_s" where
  "network_listen cp dl = (0, dl)"

definition network_stop_listening :: "u32 \<Rightarrow> mods_spi_dl_s \<Rightarrow> int \<times> mods_spi_dl_s" where
  "network_stop_listening cp dl = (0, dl)"

text \<open>The transport as an environment of the core: its other parameters are left as they are.\<close>

definition mods_network :: "dl_env \<Rightarrow> base_attached_e \<Rightarrow> ('cb, mods_spi_dl_s) gb_env \<Rightarrow> ('cb, mods_spi_dl_s) gb_env" where
  "mods_network e st E =
     E\<lparr>headroom := network_headroom, backend_init := network_init e st, backend_exit := None,
       gb_send := network_send e, backend_listen := network_listen,
       backend_stop_listening := Some network_stop_listening\<rparr>"

definition mods_network_init ::
    "dl_env \<Rightarrow> base_attached_e \<Rightarrow> ('cb, mods_spi_dl_s) gb_env \<Rightarrow> bool \<times> bool \<Rightarrow> ('cb, mods_spi_dl_s) gb \<Rightarrow>
     (int \<times> ('cb, mods_spi_dl_s) gb) option" where
  "mods_network_init e st E mem s = gb_init (mods_network e st E) True mem s"

section \<open>Properties\<close>



end
