(* ===== verification/Si4713.thy ===== *)
theory Si4713
  imports Prelude "HOL-Library.Monad_Syntax"
begin

text \<open>
  The driver of the SI4713 FM transmitter chip, \<^verbatim>\<open>src/SI4713.c\<close>. Its header
  \<^verbatim>\<open>si4713.h\<close> and the Linux kernel are not part of the repository: the command and property
  codes, the bit masks and timeouts of the header, and the kernel services (I2C transfers,
  completion, sleeping, jiffies, regulators) are the fields of a parameter. The driver's state
  is the fields of \<^verbatim>\<open>struct si4713_device\<close> the code uses, together with the outside world
  \<open>'w\<close> the services act on. An operation returns \<open>None\<close> where the code accesses an array
  out of its bounds or never returns. \<^verbatim>\<open>char\<close> is unsigned, as on ARM.
\<close>

section \<open>The header and the kernel\<close>

datatype si4713_cmd =
  CMD_POWER_UP | CMD_GET_REV | CMD_POWER_DOWN | CMD_SET_PROPERTY | CMD_GET_PROPERTY
| CMD_TX_TUNE_FREQ | CMD_TX_TUNE_POWER | CMD_TX_TUNE_MEASURE | CMD_TX_TUNE_STATUS
| CMD_TX_RDS_BUFF | CMD_TX_RDS_PS | CMD_GET_INT_STATUS

datatype si4713_prop =
  GPO_IEN | TX_COMPONENT_ENABLE | TX_AUDIO_DEVIATION | TX_PILOT_DEVIATION | TX_RDS_DEVIATION
| TX_LINE_INPUT_MUTE | TX_PREEMPHASIS | TX_PILOT_FREQUENCY | TX_ACOMP_ENABLE | TX_ACOMP_THRESHOLD
| TX_ACOMP_ATTACK_TIME | TX_ACOMP_RELEASE_TIME | TX_ACOMP_GAIN | TX_LIMITER_RELEASE_TIME
| TX_RDS_PI | TX_RDS_PS_MISC | TX_RDS_PS_REPEAT_COUNT | TX_RDS_PS_MESSAGE_COUNT | TX_RDS_PS_AF

datatype regulator = Vdd | Vio

datatype ctrl_id =
  CID_AUDIO_MUTE | CID_RDS_TX_PI | CID_RDS_TX_PTY | CID_RDS_TX_COMPRESSED | CID_RDS_TX_ARTIFICIAL_HEAD
| CID_RDS_TX_MONO_STEREO | CID_RDS_TX_TRAFFIC_PROGRAM | CID_RDS_TX_TRAFFIC_ANNOUNCEMENT
| CID_RDS_TX_MUSIC_SPEECH | CID_RDS_TX_DYNAMIC_PTY | CID_RDS_TX_ALT_FREQS_ENABLE | CID_RDS_TX_ALT_FREQS
| CID_RDS_TX_DEVIATION | CID_RDS_TX_PS_NAME | CID_RDS_TX_RADIO_TEXT | CID_AUDIO_LIMITER_ENABLED
| CID_AUDIO_LIMITER_RELEASE_TIME | CID_AUDIO_LIMITER_DEVIATION | CID_AUDIO_COMPRESSION_ENABLED
| CID_AUDIO_COMPRESSION_GAIN | CID_AUDIO_COMPRESSION_THRESHOLD | CID_AUDIO_COMPRESSION_ATTACK_TIME
| CID_AUDIO_COMPRESSION_RELEASE_TIME | CID_PILOT_TONE_ENABLED | CID_PILOT_TONE_DEVIATION
| CID_PILOT_TONE_FREQUENCY | CID_TUNE_PREEMPHASIS | CID_TUNE_POWER_LEVEL | CID_TUNE_ANTENNA_CAPACITOR
| CID_OTHER nat

record 'w si_env =
  irq :: bool
  adapter :: bool
  i2c_master_send :: "u8 list \<Rightarrow> 'w \<Rightarrow> int \<times> 'w"
  i2c_master_recv :: "nat \<Rightarrow> 'w \<Rightarrow> int \<times> u8 list \<times> 'w"
  wait_for_completion_timeout :: "u32 \<Rightarrow> 'w \<Rightarrow> 'w"
  usleep_range :: "nat \<Rightarrow> nat \<Rightarrow> 'w \<Rightarrow> 'w"
  jiffies :: "'w \<Rightarrow> u32"
  usecs_to_jiffies :: "nat \<Rightarrow> u32"
  jiffies_to_usecs :: "u32 \<Rightarrow> nat"
  regulator_enable :: "regulator \<Rightarrow> 'w \<Rightarrow> int \<times> 'w"
  regulator_disable :: "regulator \<Rightarrow> 'w \<Rightarrow> int \<times> 'w"
  cmd_code :: "si4713_cmd \<Rightarrow> u8"
  cmd_nargs :: "si4713_cmd \<Rightarrow> nat"
  cmd_nresp :: "si4713_cmd \<Rightarrow> nat"
  prop_code :: "si4713_prop \<Rightarrow> u16"
  SI4713_CTS :: u8
  SI4713_ERR :: u8
  SI4713_STC_INT :: u8
  SI4713_PWUP_GPO2OEN :: u8
  SI4713_PWUP_FUNC_TX :: u8
  SI4713_PWUP_OPMOD_ANALOG :: u8
  SI4713_PWUP_CTSIEN :: u8
  SI4713_PRODUCT_NUMBER :: u8
  SI4713_MIN_POWER :: u8
  SI4713_MAX_ANTCAP :: u8
  SI4713_INTACK_MASK :: u8
  SI4713_RDSBUFF_MODE_MASK :: u8
  SI4713_RDSPS_PSID_MASK :: u8
  MAX_RDS_PS_NAME :: nat
  DEFAULT_TIMEOUT :: nat
  TIMEOUT_SET_PROPERTY :: nat
  TIMEOUT_POWER_UP :: nat
  TIMEOUT_TX_TUNE :: nat
  TIMEOUT_TX_TUNE_POWER :: nat
  POWER_UP :: u8
  POWER_DOWN :: u8
  ENOIOCTLCMD :: int
  FMPE_table :: "(u32 \<times> u32) list"
  V4L2_TUNER_SUB_MONO :: u32
  V4L2_TUNER_SUB_STEREO :: u32
  V4L2_TUNER_SUB_RDS :: u32
  V4L2_MODULATOR_CAP :: u32
  V4L2_PREEMPHASIS_50_uS :: u32
  EPROBE_DEFER :: int
  cluster_order :: "ctrl_id list"

text \<open>
  \<open>FMPE_table\<close> is \<^verbatim>\<open>preemphasis_values\<close>, whose entries are constants of the two headers;
  \<open>V4L2_MODULATOR_CAP\<close> is the disjunction of the four capability bits; \<open>cluster_order\<close> is the order of
  the control pointers in \<^verbatim>\<open>struct si4713_device\<close>, which makes the cluster. \<^verbatim>\<open>msleep\<close> and
  \<^verbatim>\<open>udelay\<close> are \<open>usleep_range\<close> with the same bounds on both sides.
\<close>

section \<open>State\<close>

text \<open>
  A control as the driver sees it. \<open>p_char\<close> is the buffer of a string control, with the
  terminating zero; \<open>p_u32\<close> the array of the alternative frequencies.
\<close>

record v4l2_ctrl =
  cid :: ctrl_id
  ctrl_val :: "32 word"
  is_new :: bool
  p_char :: "u8 list"
  p_u32 :: "u32 list"

text \<open>
  \<open>vdd\<close>, \<open>vio\<close> and \<open>gpio_reset\<close> say whether the optional supplies and the reset line are there
  (\<^verbatim>\<open>gpiod_set_value\<close> of an absent line does nothing). \<open>enabled\<close>, \<open>reset_level\<close> and \<open>sent\<close>
  record what the driver did to the supplies, the line and the bus: how often each supply was
  enabled and not disabled, the last level set, the messages sent (newest first).
\<close>

record 'w si4713_device =
  power_state :: u8
  vdd :: bool
  vio :: bool
  gpio_reset :: bool
  frequency :: u32
  stereo :: u32
  rds_enabled :: u32
  tune_rnl :: u32
  cluster :: "v4l2_ctrl list"
  enabled :: "regulator \<Rightarrow> int"
  reset_level :: bool
  sent :: "u8 list list"
  world :: 'w

section \<open>Constants and macros\<close>

named_theorems si_consts \<open>the constants of SI4713.c\<close>

definition DEFAULT_RDS_PS_REPEAT_COUNT :: u16 where [si_consts]: "DEFAULT_RDS_PS_REPEAT_COUNT = 0x0003"
definition DEFAULT_FREQUENCY :: u32 where [si_consts]: "DEFAULT_FREQUENCY = 8800"
definition DEFAULT_TUNE_RNL :: u32 where [si_consts]: "DEFAULT_TUNE_RNL = 0xFF"
definition FREQDEV_UNIT :: u32 where [si_consts]: "FREQDEV_UNIT = 100000"
definition FREQV4L2_MULTI :: u32 where [si_consts]: "FREQV4L2_MULTI = 625"
definition FREQ_RANGE_LOW :: u16 where [si_consts]: "FREQ_RANGE_LOW = 7600"
definition FREQ_RANGE_HIGH :: u16 where [si_consts]: "FREQ_RANGE_HIGH = 10800"
definition MAX_ARGS :: nat where [si_consts]: "MAX_ARGS = 7"
definition RDS_BLOCK :: nat where [si_consts]: "RDS_BLOCK = 8"
definition RDS_BLOCK_CLEAR :: u8 where [si_consts]: "RDS_BLOCK_CLEAR = 0x03"
definition RDS_BLOCK_LOAD :: u8 where [si_consts]: "RDS_BLOCK_LOAD = 0x04"
definition RDS_RADIOTEXT_2A :: u8 where [si_consts]: "RDS_RADIOTEXT_2A = 0x20"
definition RDS_RADIOTEXT_BLK_SIZE :: nat where [si_consts]: "RDS_RADIOTEXT_BLK_SIZE = 4"
definition RDS_RADIOTEXT_INDEX_MAX :: nat where [si_consts]: "RDS_RADIOTEXT_INDEX_MAX = 0x0F"
definition RDS_CARRIAGE_RETURN :: u8 where [si_consts]: "RDS_CARRIAGE_RETURN = 0x0D"
definition ATTACK_TIME_UNIT :: u32 where [si_consts]: "ATTACK_TIME_UNIT = 500"
definition POWER_OFF :: u8 where [si_consts]: "POWER_OFF = 0x00"
definition POWER_ON :: u8 where [si_consts]: "POWER_ON = 0x01"

definition si4713_to_v4l2 :: "u32 \<Rightarrow> u32" where
  "si4713_to_v4l2 f = (f * FREQDEV_UNIT) div FREQV4L2_MULTI"

definition v4l2_to_si4713 :: "u32 \<Rightarrow> u32" where
  "v4l2_to_si4713 f = (f * FREQV4L2_MULTI) div FREQDEV_UNIT"

definition rds_ps_nblocks :: "nat \<Rightarrow> nat" where
  "rds_ps_nblocks len = len div RDS_BLOCK + (if len mod RDS_BLOCK \<noteq> 0 then 1 else 0)"

definition get_status_bit :: "u32 \<Rightarrow> nat \<Rightarrow> u32 \<Rightarrow> u32" where
  "get_status_bit p b m = drop_bit b (p AND m)"

definition set_bits :: "u32 \<Rightarrow> u32 \<Rightarrow> nat \<Rightarrow> u32 \<Rightarrow> u32" where
  "set_bits p v b m = (p AND NOT m) OR push_bit b v"

definition msb :: "u16 \<Rightarrow> u8" where "msb x = ucast (drop_bit 8 x)"
definition lsb :: "u16 \<Rightarrow> u8" where "lsb x = ucast (x AND 0x00FF)"

definition compose_u16 :: "u8 \<Rightarrow> u8 \<Rightarrow> u16" where
  "compose_u16 h l = push_bit 8 (ucast h) OR ucast l"

definition check_command_failed :: "'w si_env \<Rightarrow> u8 \<Rightarrow> bool" where
  "check_command_failed E status \<longleftrightarrow> status AND SI4713_CTS E = 0 \<or> status AND SI4713_ERR E \<noteq> 0"

definition set_mute :: "u16 \<Rightarrow> u16" where
  "set_mute p = (p AND 1) OR push_bit 1 (p AND 1)"

definition limiter_times :: "(u32 \<times> u32) list" where
  "limiter_times =
     [(2000, 250), (1000, 500), (510, 1000), (255, 2000), (170, 3000), (127, 4020), (102, 5010),
      (85, 6020), (73, 7010), (64, 7990), (57, 8970), (51, 10030), (25, 20470), (17, 30110),
      (13, 39380), (10, 51190), (8, 63690), (7, 73140), (6, 85330), (5, 102390)]"

definition acomp_rtimes :: "(u32 \<times> u32) list" where
  "acomp_rtimes = [(0, 100000), (1, 200000), (2, 350000), (3, 525000), (4, 1000000)]"

text \<open>The tables are flat arrays of pairs in the source, indexed \<^verbatim>\<open>2 * i\<close> and \<^verbatim>\<open>2 * i + 1\<close>.\<close>

fun usecs_to_dev :: "u32 \<Rightarrow> (u32 \<times> u32) list \<Rightarrow> int" where
  "usecs_to_dev usecs [] = - EINVAL"
| "usecs_to_dev usecs ((dev, time) # tab) = (if time \<ge> usecs then sint dev else usecs_to_dev usecs tab)"

text \<open>An array of the given size with these initialisers, and a read that has to stay inside.\<close>

definition c_array :: "nat \<Rightarrow> u8 list \<Rightarrow> u8 list" where
  "c_array n xs = take n (xs @ replicate n 0)"

definition byte_at :: "u8 list \<Rightarrow> nat \<Rightarrow> u8 option" where
  "byte_at xs i = (if i < length xs then Some (xs ! i) else None)"

section \<open>Commands\<close>

definition time_is_after_jiffies :: "'w si_env \<Rightarrow> u32 \<Rightarrow> 'w \<Rightarrow> bool" where
  "time_is_after_jiffies E t w \<longleftrightarrow> sint (jiffies E w - t) < 0"

text \<open>The loop that reads the response; \<open>resp\<close> is what was read last.\<close>

partial_function (option) send_command_loop ::
    "'w si_env \<Rightarrow> nat \<Rightarrow> nat \<Rightarrow> u32 \<Rightarrow> 'w si4713_device \<Rightarrow>
     (int \<times> u8 list \<times> 'w si4713_device) option" where
  "send_command_loop E respn usecs until_jiffies s =
     (case i2c_master_recv E respn (world s) of (err, resp, w1) \<Rightarrow>
      let s1 = s\<lparr>world := w1\<rparr> in
      if err \<noteq> int respn then Some (if err < 0 then err else - EIO, [], s1)
      else do {
        st \<leftarrow> byte_at resp 0;
        if \<not> check_command_failed E st then Some (0, resp, s1)
        else if irq E then Some (- EBUSY, resp, s1)
        else
          (let w2 = (if usecs \<le> 1000 then usleep_range E usecs 1000 w1 else usleep_range E 1000 2000 w1);
               s2 = s1\<lparr>world := w2\<rparr>
           in if time_is_after_jiffies E until_jiffies w2
              then send_command_loop E respn usecs until_jiffies s2
              else Some (- EBUSY, resp, s2))
      })"

definition si4713_send_command ::
    "'w si_env \<Rightarrow> si4713_cmd \<Rightarrow> u8 list \<Rightarrow> nat \<Rightarrow> 'w si4713_device \<Rightarrow>
     (int \<times> u8 list \<times> 'w si4713_device) option" where
  "si4713_send_command E command args usecs s =
     (let argn = length args; respn = cmd_nresp E command in
      if \<not> adapter E then Some (- ENODEV, [], s)
      else if argn > MAX_ARGS then None
      else
        (let data1 = cmd_code E command # args;
             (err, w1) = i2c_master_send E data1 (world s);
             s1 = s\<lparr>world := w1, sent := data1 # sent s\<rparr>
         in if err \<noteq> int argn + 1 then Some (if err < 0 then err else - EIO, [], s1)
            else
              (let until_jiffies = jiffies E w1 + usecs_to_jiffies E usecs + 1;
                   s2 = (if irq E
                         then s1\<lparr>world := wait_for_completion_timeout E (usecs_to_jiffies E usecs + 1) w1\<rparr>
                         else s1)
               in send_command_loop E respn usecs until_jiffies s2)))"

definition si4713_read_property ::
    "'w si_env \<Rightarrow> si4713_prop \<Rightarrow> 'w si4713_device \<Rightarrow> (int \<times> u32 \<times> 'w si4713_device) option" where
  "si4713_read_property E prop s =
     do { let args = c_array (cmd_nargs E CMD_GET_PROPERTY)
                       [0x00, msb (prop_code E prop), lsb (prop_code E prop)];
          (err, val, s1) \<leftarrow> si4713_send_command E CMD_GET_PROPERTY args (DEFAULT_TIMEOUT E) s;
          if err < 0 then Some (err, 0, s1)
          else do {
            v2 \<leftarrow> byte_at val 2;
            v3 \<leftarrow> byte_at val 3;
            Some (err, ucast (compose_u16 v2 v3), s1)
          } }"

text \<open>\<open>0\<close> is the result where the caller's variable stays unset; no caller reads it then.\<close>

definition si4713_write_property ::
    "'w si_env \<Rightarrow> si4713_prop \<Rightarrow> u16 \<Rightarrow> 'w si4713_device \<Rightarrow> (int \<times> 'w si4713_device) option" where
  "si4713_write_property E prop v s =
     do { let args = c_array (cmd_nargs E CMD_SET_PROPERTY)
                       [0x00, msb (prop_code E prop), lsb (prop_code E prop), msb v, lsb v];
          (rval, _, s1) \<leftarrow> si4713_send_command E CMD_SET_PROPERTY args (DEFAULT_TIMEOUT E) s;
          if rval < 0 then Some (rval, s1)
          else Some (rval, s1\<lparr>world := usleep_range E (1000 * TIMEOUT_SET_PROPERTY E)
                                        (1000 * TIMEOUT_SET_PROPERTY E) (world s1)\<rparr>) }"

section \<open>Power\<close>

definition set_gpio_reset :: "bool \<Rightarrow> 'w si4713_device \<Rightarrow> 'w si4713_device" where
  "set_gpio_reset v s = (if gpio_reset s then s\<lparr>reset_level := v\<rparr> else s)"

definition reg_enable :: "'w si_env \<Rightarrow> regulator \<Rightarrow> 'w si4713_device \<Rightarrow> int \<times> 'w si4713_device" where
  "reg_enable E r s =
     (let (err, w1) = regulator_enable E r (world s)
      in (err, s\<lparr>world := w1, enabled := if err = 0 then (enabled s)(r := enabled s r + 1) else enabled s\<rparr>))"

definition reg_disable :: "'w si_env \<Rightarrow> regulator \<Rightarrow> 'w si4713_device \<Rightarrow> int \<times> 'w si4713_device" where
  "reg_disable E r s =
     (let (err, w1) = regulator_disable E r (world s)
      in (err, s\<lparr>world := w1, enabled := if err = 0 then (enabled s)(r := enabled s r - 1) else enabled s\<rparr>))"

text \<open>Switching both supplies off at the end of \<^verbatim>\<open>si4713_powerup\<close> and \<^verbatim>\<open>si4713_powerdown\<close>:
  \<open>err\<close> keeps its value where a supply is absent, and is overwritten where it is there.\<close>

definition supplies_off :: "'w si_env \<Rightarrow> int \<Rightarrow> 'w si4713_device \<Rightarrow> int \<times> 'w si4713_device" where
  "supplies_off E err s =
     (let (err1, s1) = (if vdd s then reg_disable E Vdd s else (err, s))
      in if vio s1 then reg_disable E Vio s1 else (err1, s1))"

definition si4713_powerup :: "'w si_env \<Rightarrow> 'w si4713_device \<Rightarrow> (int \<times> 'w si4713_device) option" where
  "si4713_powerup E s =
     (if power_state s \<noteq> 0 then Some (0, s)
      else
        (let (err, s1) = (if vdd s then reg_enable E Vdd s else (0, s)) in
         if err \<noteq> 0 then Some (err, s1)
         else
           (let (err, s2) = (if vio s1 then reg_enable E Vio s1 else (0, s1)) in
            if err \<noteq> 0 then Some (err, s2)
            else do {
              let s3 = (if gpio_reset s2
                        then set_gpio_reset True (s2\<lparr>world := usleep_range E 50 50 (world s2)\<rparr>) else s2);
              let a0 = (SI4713_PWUP_GPO2OEN E OR SI4713_PWUP_FUNC_TX E) OR
                       (if irq E then SI4713_PWUP_CTSIEN E else 0);
              let args = c_array (cmd_nargs E CMD_POWER_UP) [a0, SI4713_PWUP_OPMOD_ANALOG E];
              (err, _, s4) \<leftarrow> si4713_send_command E CMD_POWER_UP args (TIMEOUT_POWER_UP E) s3;
              if err = 0
              then (let s5 = s4\<lparr>power_state := POWER_ON\<rparr>
                    in if irq E
                       then si4713_write_property E GPO_IEN (ucast (SI4713_STC_INT E OR SI4713_CTS E)) s5
                       else Some (err, s5))
              else Some (supplies_off E err (set_gpio_reset False s4))
            })))"

definition si4713_powerdown :: "'w si_env \<Rightarrow> 'w si4713_device \<Rightarrow> (int \<times> 'w si4713_device) option" where
  "si4713_powerdown E s =
     (if power_state s = 0 then Some (0, s)
      else do {
        (err, _, s1) \<leftarrow> si4713_send_command E CMD_POWER_DOWN [] (DEFAULT_TIMEOUT E) s;
        if err = 0
        then (let (err, s2) = supplies_off E err (set_gpio_reset False s1)
              in Some (err, s2\<lparr>power_state := POWER_OFF\<rparr>))
        else Some (err, s1)
      })"

definition si4713_checkrev :: "'w si_env \<Rightarrow> 'w si4713_device \<Rightarrow> (int \<times> 'w si4713_device) option" where
  "si4713_checkrev E s =
     do { (rval, resp, s1) \<leftarrow> si4713_send_command E CMD_GET_REV [] (DEFAULT_TIMEOUT E) s;
          if rval < 0 then Some (rval, s1)
          else do {
            pn \<leftarrow> byte_at resp 1;
            Some (if pn = SI4713_PRODUCT_NUMBER E then rval else - EINVAL, s1)
          } }"

section \<open>Tuning\<close>

partial_function (option) wait_stc_loop ::
    "'w si_env \<Rightarrow> nat \<Rightarrow> u32 \<Rightarrow> 'w si4713_device \<Rightarrow> (int \<times> 'w si4713_device) option" where
  "wait_stc_loop E usecs start_jiffies s =
     do { (err, resp, s1) \<leftarrow> si4713_send_command E CMD_GET_INT_STATUS [] (DEFAULT_TIMEOUT E) s;
          stc \<leftarrow> (if err \<ge> 0 then do { st \<leftarrow> byte_at resp 0; Some (st AND SI4713_STC_INT E \<noteq> 0) }
                  else Some False);
          if stc then Some (0, s1)
          else if jiffies_to_usecs E (jiffies E (world s1) - start_jiffies) > usecs
          then Some (if err < 0 then err else - EIO, s1)
          else wait_stc_loop E usecs start_jiffies (s1\<lparr>world := usleep_range E 3000 4000 (world s1)\<rparr>) }"

definition si4713_wait_stc :: "'w si_env \<Rightarrow> nat \<Rightarrow> 'w si4713_device \<Rightarrow> (int \<times> 'w si4713_device) option" where
  "si4713_wait_stc E usecs s =
     (let start_jiffies = jiffies E (world s);
          s1 = (if irq E
                then s\<lparr>world := wait_for_completion_timeout E (usecs_to_jiffies E usecs + 1) (world s)\<rparr>
                else s)
      in wait_stc_loop E usecs start_jiffies s1)"

definition si4713_tx_tune_freq :: "'w si_env \<Rightarrow> u16 \<Rightarrow> 'w si4713_device \<Rightarrow> (int \<times> 'w si4713_device) option" where
  "si4713_tx_tune_freq E freq s =
     do { let args = c_array (cmd_nargs E CMD_TX_TUNE_FREQ) [0x00, msb freq, lsb freq];
          (err, _, s1) \<leftarrow> si4713_send_command E CMD_TX_TUNE_FREQ args (DEFAULT_TIMEOUT E) s;
          if err < 0 then Some (err, s1)
          else do {
            (err, s2) \<leftarrow> si4713_wait_stc E (TIMEOUT_TX_TUNE E) s1;
            if err < 0 then Some (err, s2)
            else do {
              a1 \<leftarrow> byte_at args 1;
              a2 \<leftarrow> byte_at args 2;
              Some (int (unat (compose_u16 a1 a2)), s2)
            }
          } }"

definition si4713_tx_tune_power ::
    "'w si_env \<Rightarrow> u8 \<Rightarrow> u8 \<Rightarrow> 'w si4713_device \<Rightarrow> (int \<times> 'w si4713_device) option" where
  "si4713_tx_tune_power E pwr antcap s =
     do { let pwr1 = (if pwr > 0 \<and> pwr < SI4713_MIN_POWER E then SI4713_MIN_POWER E else pwr);
          let args = c_array (cmd_nargs E CMD_TX_TUNE_POWER) [0x00, 0x00, pwr1, antcap];
          (err, _, s1) \<leftarrow> si4713_send_command E CMD_TX_TUNE_POWER args (DEFAULT_TIMEOUT E) s;
          if err < 0 then Some (err, s1)
          else si4713_wait_stc E (TIMEOUT_TX_TUNE_POWER E) s1 }"

definition si4713_tx_tune_measure ::
    "'w si_env \<Rightarrow> u16 \<Rightarrow> u8 \<Rightarrow> 'w si4713_device \<Rightarrow> (int \<times> 'w si4713_device) option" where
  "si4713_tx_tune_measure E freq antcap s =
     (let args = c_array (cmd_nargs E CMD_TX_TUNE_MEASURE) [0x00, msb freq, lsb freq, antcap];
          s1 = s\<lparr>tune_rnl := DEFAULT_TUNE_RNL\<rparr>
      in if antcap > SI4713_MAX_ANTCAP E then Some (- EDOM, s1)
         else do {
           (err, _, s2) \<leftarrow> si4713_send_command E CMD_TX_TUNE_MEASURE args (DEFAULT_TIMEOUT E) s1;
           if err < 0 then Some (err, s2)
           else si4713_wait_stc E (TIMEOUT_TX_TUNE E) s2
         })"

text \<open>The four values returned through pointers, where the command succeeds.\<close>

record tune_status =
  ts_frequency :: u16
  ts_power :: u8
  ts_antcap :: u8
  ts_noise :: u8

definition si4713_tx_tune_status ::
    "'w si_env \<Rightarrow> u8 \<Rightarrow> tune_status \<Rightarrow> 'w si4713_device \<Rightarrow>
     (int \<times> tune_status \<times> 'w si4713_device) option" where
  "si4713_tx_tune_status E intack ts s =
     do { let args = c_array (cmd_nargs E CMD_TX_TUNE_STATUS) [intack AND SI4713_INTACK_MASK E];
          (err, val, s1) \<leftarrow> si4713_send_command E CMD_TX_TUNE_STATUS args (DEFAULT_TIMEOUT E) s;
          if err = 0
          then do {
            v2 \<leftarrow> byte_at val 2; v3 \<leftarrow> byte_at val 3;
            v5 \<leftarrow> byte_at val 5; v6 \<leftarrow> byte_at val 6; v7 \<leftarrow> byte_at val 7;
            let f = compose_u16 v2 v3;
            Some (err, \<lparr>ts_frequency = f, ts_power = v5, ts_antcap = v6, ts_noise = v7\<rparr>,
                  s1\<lparr>frequency := ucast f\<rparr>)
          }
          else Some (err, ts, s1) }"

section \<open>Radio data system\<close>

text \<open>The last component of the result is \<^verbatim>\<open>*cbleft\<close>, a signed byte; unset where the command fails.\<close>

definition si4713_tx_rds_buff ::
    "'w si_env \<Rightarrow> u8 \<Rightarrow> u16 \<Rightarrow> u16 \<Rightarrow> u16 \<Rightarrow> u8 \<Rightarrow> 'w si4713_device \<Rightarrow>
     (int \<times> u8 \<times> 'w si4713_device) option" where
  "si4713_tx_rds_buff E mode rdsb rdsc rdsd cbleft s =
     do { let args = c_array (cmd_nargs E CMD_TX_RDS_BUFF)
                       [mode AND SI4713_RDSBUFF_MODE_MASK E, msb rdsb, lsb rdsb, msb rdsc, lsb rdsc,
                        msb rdsd, lsb rdsd];
          (err, val, s1) \<leftarrow> si4713_send_command E CMD_TX_RDS_BUFF args (DEFAULT_TIMEOUT E) s;
          if err = 0
          then do { v2 \<leftarrow> byte_at val 2; v3 \<leftarrow> byte_at val 3; Some (err, v2 - v3, s1) }
          else Some (err, cbleft, s1) }"

definition si4713_tx_rds_ps ::
    "'w si_env \<Rightarrow> u8 \<Rightarrow> u8 list \<Rightarrow> 'w si4713_device \<Rightarrow> (int \<times> 'w si4713_device) option" where
  "si4713_tx_rds_ps E psid pschar s =
     do { p0 \<leftarrow> byte_at pschar 0; p1 \<leftarrow> byte_at pschar 1; p2 \<leftarrow> byte_at pschar 2; p3 \<leftarrow> byte_at pschar 3;
          let args = c_array (cmd_nargs E CMD_TX_RDS_PS) [psid AND SI4713_RDSPS_PSID_MASK E, p0, p1, p2, p3];
          (err, _, s1) \<leftarrow> si4713_send_command E CMD_TX_RDS_PS args (DEFAULT_TIMEOUT E) s;
          Some (err, s1) }"

definition si4713_set_power_state :: "'w si_env \<Rightarrow> u8 \<Rightarrow> 'w si4713_device \<Rightarrow> (int \<times> 'w si4713_device) option" where
  "si4713_set_power_state E v s = (if v \<noteq> 0 then si4713_powerup E s else si4713_powerdown E s)"

definition si4713_set_mute :: "'w si_env \<Rightarrow> u16 \<Rightarrow> 'w si4713_device \<Rightarrow> (int \<times> 'w si4713_device) option" where
  "si4713_set_mute E mute s =
     (if power_state s \<noteq> 0 then si4713_write_property E TX_LINE_INPUT_MUTE (set_mute mute) s
      else Some (0, s))"

text \<open>The length of the string in a buffer; no terminating zero inside is a read past the end.\<close>

fun strlen :: "u8 list \<Rightarrow> nat option" where
  "strlen [] = None"
| "strlen (c # cs) = (if c = 0 then Some 0 else map_option Suc (strlen cs))"

fun rds_ps_loop ::
    "'w si_env \<Rightarrow> nat list \<Rightarrow> int \<Rightarrow> u8 list \<Rightarrow> 'w si4713_device \<Rightarrow> (int \<times> 'w si4713_device) option" where
  "rds_ps_loop E [] rval ps_name s = Some (rval, s)"
| "rds_ps_loop E (i # is) rval ps_name s =
     do { (rval, s1) \<leftarrow> si4713_tx_rds_ps E (of_nat (i div (RDS_BLOCK div 2))) (drop i ps_name) s;
          if rval < 0 then Some (rval, s1) else rds_ps_loop E is rval ps_name s1 }"

text \<open>The values \<^verbatim>\<open>i\<close> takes in the loop: the multiples of half a block below the maximal length.\<close>

definition ps_indices :: "'w si_env \<Rightarrow> nat list" where
  "ps_indices E = map (\<lambda>k. k * (RDS_BLOCK div 2))
     [0..<(MAX_RDS_PS_NAME E + (RDS_BLOCK div 2 - 1)) div (RDS_BLOCK div 2)]"

text \<open>
  An empty name clears the buffer, which has to hold the maximal length and the terminating zero.
  The cleared buffer is the control's own; its contents beyond the first zero are not looked at by
  any other operation, so the control is left as it is.
\<close>

definition si4713_set_rds_ps_name ::
    "'w si_env \<Rightarrow> u8 list \<Rightarrow> 'w si4713_device \<Rightarrow> (int \<times> 'w si4713_device) option" where
  "si4713_set_rds_ps_name E ps_name0 s =
     do { n \<leftarrow> strlen ps_name0;
          ps_name \<leftarrow> (if n \<noteq> 0 then Some ps_name0
                      else if length ps_name0 < MAX_RDS_PS_NAME E + 1 then None
                      else Some (replicate (MAX_RDS_PS_NAME E + 1) 0 @ drop (MAX_RDS_PS_NAME E + 1) ps_name0));
          if power_state s \<noteq> 0
          then do {
            (rval, s1) \<leftarrow> rds_ps_loop E (ps_indices E) 0 ps_name s;
            if rval < 0 then Some (rval, s1)
            else do {
              let len = (if n \<noteq> 0 then of_nat (n - 1) else 1 :: u8);
              (rval, s2) \<leftarrow> si4713_write_property E TX_RDS_PS_MESSAGE_COUNT
                              (of_nat (rds_ps_nblocks (unat len))) s1;
              if rval < 0 then Some (rval, s2)
              else si4713_write_property E TX_RDS_PS_REPEAT_COUNT (DEFAULT_RDS_PS_REPEAT_COUNT * 2) s2
            }
          }
          else Some (0, s) }"

text \<open>
  The loop over the text. The scan of a block stops at the first zero or carriage return; then the
  pointer \<^verbatim>\<open>rt\<close> itself is redirected to the four-byte array \<^verbatim>\<open>cr\<close>, and the block is read from
  there, at the same index.
\<close>

definition cr :: "u8 list" where
  "cr = [RDS_CARRIAGE_RETURN, 0, 0, 0]"

fun scan_block :: "u8 list \<Rightarrow> nat \<Rightarrow> nat \<Rightarrow> bool option" where
  "scan_block rt t 0 = Some False"
| "scan_block rt t (Suc n) =
     do { c \<leftarrow> byte_at rt t; if c = 0 \<or> c = RDS_CARRIAGE_RETURN then Some True else scan_block rt (Suc t) n }"

partial_function (option) rds_radio_text_loop ::
    "'w si_env \<Rightarrow> u8 list \<Rightarrow> u16 \<Rightarrow> u8 \<Rightarrow> u8 \<Rightarrow> 'w si4713_device \<Rightarrow> (int \<times> 'w si4713_device) option" where
  "rds_radio_text_loop E rt t_index b_index left s =
     do { cr_inserted \<leftarrow>
            (if unat t_index < RDS_RADIOTEXT_INDEX_MAX * RDS_RADIOTEXT_BLK_SIZE
             then scan_block rt (unat t_index) RDS_RADIOTEXT_BLK_SIZE else Some False);
          let rt1 = (if cr_inserted then cr else rt);
          c0 \<leftarrow> byte_at rt1 (unat t_index); c1 \<leftarrow> byte_at rt1 (unat t_index + 1);
          c2 \<leftarrow> byte_at rt1 (unat t_index + 2); c3 \<leftarrow> byte_at rt1 (unat t_index + 3);
          (rval, left1, s1) \<leftarrow> si4713_tx_rds_buff E RDS_BLOCK_LOAD (compose_u16 RDS_RADIOTEXT_2A b_index)
                                 (compose_u16 c0 c1) (compose_u16 c2 c3) left s;
          if rval < 0 then Some (rval, s1)
          else if cr_inserted then Some (rval, s1)
          else if 0 < sint left1
          then rds_radio_text_loop E rt1 (t_index + of_nat RDS_RADIOTEXT_BLK_SIZE) (b_index + 1) left1 s1
          else Some (rval, s1) }"

definition si4713_set_rds_radio_text ::
    "'w si_env \<Rightarrow> u8 list \<Rightarrow> 'w si4713_device \<Rightarrow> (int \<times> 'w si4713_device) option" where
  "si4713_set_rds_radio_text E rt s =
     (if power_state s = 0 then Some (0, s)
      else do {
        (rval, left, s1) \<leftarrow> si4713_tx_rds_buff E RDS_BLOCK_CLEAR 0 0 0 0 s;
        if rval < 0 then Some (rval, s1)
        else do {
          n \<leftarrow> strlen rt;
          if n = 0 then Some (rval, s1) else rds_radio_text_loop E rt 0 0 left s1
        }
      })"

definition si4713_update_tune_status :: "'w si_env \<Rightarrow> 'w si4713_device \<Rightarrow> (int \<times> 'w si4713_device) option" where
  "si4713_update_tune_status E s =
     do { (rval, ts, s1) \<leftarrow> si4713_tx_tune_status E 0x00
            \<lparr>ts_frequency = 0, ts_power = 0, ts_antcap = 0, ts_noise = 0\<rparr> s;
          if rval < 0 then Some (rval, s1)
          else Some (rval, s1\<lparr>tune_rnl := ucast (ts_noise ts)\<rparr>) }"

end
