(* ===== verification/Si4713Ctrl.thy ===== *)
theory Si4713Ctrl
  imports Si4713
begin

text \<open>
  The upper half of \<^verbatim>\<open>src/SI4713.c\<close>: the operations the V4L2 framework calls (control cluster,
  private ioctl, modulator, frequency) and the probe and removal of the device.
\<close>

section \<open>Controls\<close>

text \<open>The locals of \<^verbatim>\<open>si4713_s_ctrl\<close> that \<^verbatim>\<open>si4713_choose_econtrol_action\<close> sets through pointers.\<close>

record econtrol =
  ebit :: nat
  emask :: u32
  eproperty :: si4713_prop
  emul :: u32
  etable :: "(u32 \<times> u32) list option"

definition ec_mul :: "si4713_prop \<Rightarrow> u32 \<Rightarrow> econtrol \<Rightarrow> econtrol" where
  "ec_mul p m e = e\<lparr>eproperty := p, emul := m\<rparr>"

definition ec_bit :: "si4713_prop \<Rightarrow> nat \<Rightarrow> u32 \<Rightarrow> econtrol \<Rightarrow> econtrol" where
  "ec_bit p b m e = e\<lparr>eproperty := p, ebit := b, emask := push_bit b m\<rparr>"

definition ec_table :: "si4713_prop \<Rightarrow> (u32 \<times> u32) list \<Rightarrow> econtrol \<Rightarrow> econtrol" where
  "ec_table p t e = e\<lparr>eproperty := p, etable := Some t\<rparr>"

fun si4713_choose_econtrol_action :: "'w si_env \<Rightarrow> ctrl_id \<Rightarrow> econtrol \<Rightarrow> int \<times> econtrol" where
  "si4713_choose_econtrol_action E CID_RDS_TX_PI e = (0, ec_mul TX_RDS_PI 1 e)"
| "si4713_choose_econtrol_action E CID_AUDIO_COMPRESSION_THRESHOLD e = (0, ec_mul TX_ACOMP_THRESHOLD 1 e)"
| "si4713_choose_econtrol_action E CID_AUDIO_COMPRESSION_GAIN e = (0, ec_mul TX_ACOMP_GAIN 1 e)"
| "si4713_choose_econtrol_action E CID_PILOT_TONE_FREQUENCY e = (0, ec_mul TX_PILOT_FREQUENCY 1 e)"
| "si4713_choose_econtrol_action E CID_AUDIO_COMPRESSION_ATTACK_TIME e =
     (0, ec_mul TX_ACOMP_ATTACK_TIME ATTACK_TIME_UNIT e)"
| "si4713_choose_econtrol_action E CID_PILOT_TONE_DEVIATION e = (0, ec_mul TX_PILOT_DEVIATION 10 e)"
| "si4713_choose_econtrol_action E CID_AUDIO_LIMITER_DEVIATION e = (0, ec_mul TX_AUDIO_DEVIATION 10 e)"
| "si4713_choose_econtrol_action E CID_RDS_TX_DEVIATION e = (0, ec_mul TX_RDS_DEVIATION 1 e)"
| "si4713_choose_econtrol_action E CID_RDS_TX_PTY e = (0, ec_bit TX_RDS_PS_MISC 5 0x1F e)"
| "si4713_choose_econtrol_action E CID_RDS_TX_DYNAMIC_PTY e = (0, ec_bit TX_RDS_PS_MISC 15 1 e)"
| "si4713_choose_econtrol_action E CID_RDS_TX_COMPRESSED e = (0, ec_bit TX_RDS_PS_MISC 14 1 e)"
| "si4713_choose_econtrol_action E CID_RDS_TX_ARTIFICIAL_HEAD e = (0, ec_bit TX_RDS_PS_MISC 13 1 e)"
| "si4713_choose_econtrol_action E CID_RDS_TX_MONO_STEREO e = (0, ec_bit TX_RDS_PS_MISC 12 1 e)"
| "si4713_choose_econtrol_action E CID_RDS_TX_TRAFFIC_PROGRAM e = (0, ec_bit TX_RDS_PS_MISC 10 1 e)"
| "si4713_choose_econtrol_action E CID_RDS_TX_TRAFFIC_ANNOUNCEMENT e = (0, ec_bit TX_RDS_PS_MISC 4 1 e)"
| "si4713_choose_econtrol_action E CID_RDS_TX_MUSIC_SPEECH e = (0, ec_bit TX_RDS_PS_MISC 3 1 e)"
| "si4713_choose_econtrol_action E CID_AUDIO_LIMITER_ENABLED e = (0, ec_bit TX_ACOMP_ENABLE 1 1 e)"
| "si4713_choose_econtrol_action E CID_AUDIO_COMPRESSION_ENABLED e = (0, ec_bit TX_ACOMP_ENABLE 0 1 e)"
| "si4713_choose_econtrol_action E CID_PILOT_TONE_ENABLED e = (0, ec_bit TX_COMPONENT_ENABLE 0 1 e)"
| "si4713_choose_econtrol_action E CID_AUDIO_LIMITER_RELEASE_TIME e =
     (0, ec_table TX_LIMITER_RELEASE_TIME limiter_times e)"
| "si4713_choose_econtrol_action E CID_AUDIO_COMPRESSION_RELEASE_TIME e =
     (0, ec_table TX_ACOMP_RELEASE_TIME acomp_rtimes e)"
| "si4713_choose_econtrol_action E CID_TUNE_PREEMPHASIS e = (0, ec_table TX_PREEMPHASIS (FMPE_table E) e)"
| "si4713_choose_econtrol_action E _ e = (- EINVAL, e)"

section \<open>Frequency and modulator\<close>

definition clamp16 :: "u16 \<Rightarrow> u16 \<Rightarrow> u16 \<Rightarrow> u16" where
  "clamp16 v lo hi = min (max v lo) hi"

definition si4713_s_frequency ::
    "'w si_env \<Rightarrow> u32 \<Rightarrow> u32 \<Rightarrow> 'w si4713_device \<Rightarrow> (int \<times> 'w si4713_device) option" where
  "si4713_s_frequency E tuner f s =
     (if tuner \<noteq> 0 then Some (- EINVAL, s)
      else
        (let freq = clamp16 (ucast (v4l2_to_si4713 f)) FREQ_RANGE_LOW FREQ_RANGE_HIGH in
         if power_state s \<noteq> 0
         then do {
           (rval, s1) \<leftarrow> si4713_tx_tune_freq E freq s;
           if rval < 0 then Some (rval, s1)
           else Some (0, s1\<lparr>frequency := ucast (of_int rval :: u16)\<rparr>)
         }
         else Some (0, s\<lparr>frequency := ucast freq\<rparr>)))"

text \<open>The value returned in \<^verbatim>\<open>f->frequency\<close> is set only where the operation succeeds.\<close>

definition si4713_g_frequency ::
    "'w si_env \<Rightarrow> u32 \<Rightarrow> 'w si4713_device \<Rightarrow> (int \<times> u32 option \<times> 'w si4713_device) option" where
  "si4713_g_frequency E tuner s =
     (if tuner \<noteq> 0 then Some (- EINVAL, None, s)
      else if power_state s \<noteq> 0
      then do {
        (rval, ts, s1) \<leftarrow> si4713_tx_tune_status E 0x00
           \<lparr>ts_frequency = 0, ts_power = 0, ts_antcap = 0, ts_noise = 0\<rparr> s;
        if rval < 0 then Some (rval, None, s1)
        else (let s2 = s1\<lparr>frequency := ucast (ts_frequency ts)\<rparr>
              in Some (rval, Some (si4713_to_v4l2 (frequency s2)), s2))
      }
      else Some (0, Some (si4713_to_v4l2 (frequency s)), s))"

record v4l2_modulator =
  vm_index :: u32
  capability :: u32
  rangelow :: u32
  rangehigh :: u32
  txsubchans :: u32

definition si4713_g_modulator ::
    "'w si_env \<Rightarrow> v4l2_modulator \<Rightarrow> 'w si4713_device \<Rightarrow> (int \<times> v4l2_modulator \<times> 'w si4713_device) option" where
  "si4713_g_modulator E vm s =
     (if vm_index vm > 0 then Some (- EINVAL, vm, s)
      else do {
        let vm1 = vm\<lparr>capability := V4L2_MODULATOR_CAP E,
                     rangelow := si4713_to_v4l2 (ucast FREQ_RANGE_LOW),
                     rangehigh := si4713_to_v4l2 (ucast FREQ_RANGE_HIGH)\<rparr>;
        (rval, s1) \<leftarrow>
          (if power_state s \<noteq> 0
           then do {
             (rval, comp_en, s1) \<leftarrow> si4713_read_property E TX_COMPONENT_ENABLE s;
             Some (rval, if rval < 0 then s1 else s1\<lparr>stereo := get_status_bit comp_en 1 (push_bit 1 1)\<rparr>)
           }
           else Some (0, s));
        if rval < 0 then Some (rval, vm1, s1)
        else
          (let sub = (if stereo s1 \<noteq> 0 then V4L2_TUNER_SUB_STEREO E else V4L2_TUNER_SUB_MONO E)
           in Some (rval, vm1\<lparr>txsubchans := (if rds_enabled s1 \<noteq> 0 then sub OR V4L2_TUNER_SUB_RDS E
                                              else sub AND NOT (V4L2_TUNER_SUB_RDS E))\<rparr>, s1))
      })"

definition si4713_s_modulator ::
    "'w si_env \<Rightarrow> u32 \<Rightarrow> u32 \<Rightarrow> 'w si4713_device \<Rightarrow> (int \<times> 'w si4713_device) option" where
  "si4713_s_modulator E index subchans s =
     (if index > 0 then Some (- EINVAL, s)
      else if subchans AND V4L2_TUNER_SUB_STEREO E = 0 \<and> subchans AND V4L2_TUNER_SUB_MONO E = 0
      then Some (- EINVAL, s)
      else do {
        let st = (if subchans AND V4L2_TUNER_SUB_STEREO E \<noteq> 0 then 1 else 0);
        let rds = (if subchans AND V4L2_TUNER_SUB_RDS E \<noteq> 0 then 1 else 0);
        (rval, s1) \<leftarrow>
          (if power_state s \<noteq> 0
           then do {
             (rval, p, s1) \<leftarrow> si4713_read_property E TX_COMPONENT_ENABLE s;
             if rval < 0 then Some (rval, s1)
             else si4713_write_property E TX_COMPONENT_ENABLE
                    (ucast (set_bits (set_bits p st 1 (push_bit 1 1)) rds 2 (push_bit 2 1))) s1
           }
           else Some (0, s));
        if rval < 0 then Some (rval, s1)
        else Some (rval, s1\<lparr>stereo := st, rds_enabled := rds\<rparr>)
      })"

definition si4713_setup :: "'w si_env \<Rightarrow> 'w si4713_device \<Rightarrow> (int \<times> 'w si4713_device) option" where
  "si4713_setup E s =
     do { let f = (if frequency s \<noteq> 0 then frequency s else DEFAULT_FREQUENCY);
          (rval, s1) \<leftarrow> si4713_s_frequency E 0 (si4713_to_v4l2 f) s;
          let sub = (if stereo s1 \<noteq> 0 then V4L2_TUNER_SUB_STEREO E else V4L2_TUNER_SUB_MONO E);
          let sub = (if rds_enabled s1 \<noteq> 0 then sub OR V4L2_TUNER_SUB_RDS E else sub);
          (_, s2) \<leftarrow> si4713_s_modulator E 0 sub s1;
          Some (rval, s2) }"

definition si4713_initialize :: "'w si_env \<Rightarrow> 'w si4713_device \<Rightarrow> (int \<times> 'w si4713_device) option" where
  "si4713_initialize E s =
     do { (rval, s1) \<leftarrow> si4713_set_power_state E POWER_ON s;
          if rval < 0 then Some (rval, s1)
          else do {
            (rval, s2) \<leftarrow> si4713_checkrev E s1;
            if rval < 0 then Some (rval, s2)
            else do {
              (rval, s3) \<leftarrow> si4713_set_power_state E POWER_OFF s2;
              if rval < 0 then Some (rval, s3)
              else Some (0, s3\<lparr>frequency := DEFAULT_FREQUENCY, stereo := 1, tune_rnl := DEFAULT_TUNE_RNL\<rparr>)
            }
          } }"

section \<open>Setting the control cluster\<close>

definition ctrl_of :: "ctrl_id \<Rightarrow> v4l2_ctrl list \<Rightarrow> v4l2_ctrl option" where
  "ctrl_of i cs = find (\<lambda>c. cid c = i) cs"

definition clear_tune_new :: "v4l2_ctrl list \<Rightarrow> v4l2_ctrl list" where
  "clear_tune_new = map (\<lambda>c. if cid c = CID_TUNE_ANTENNA_CAPACITOR \<or> cid c = CID_TUNE_POWER_LEVEL
                             then c\<lparr>is_new := False\<rparr> else c)"

text \<open>The cases \<^verbatim>\<open>V4L2_CID_TUNE_POWER_LEVEL\<close>, the two of the alternative frequencies, and the default.\<close>

definition s_ctrl_tune_power :: "'w si_env \<Rightarrow> 'w si4713_device \<Rightarrow> (int \<times> 'w si4713_device) option" where
  "s_ctrl_tune_power E s =
     do { p \<leftarrow> ctrl_of CID_TUNE_POWER_LEVEL (cluster s);
          a \<leftarrow> ctrl_of CID_TUNE_ANTENNA_CAPACITOR (cluster s);
          (ret, s1) \<leftarrow> si4713_tx_tune_power E (ucast (ctrl_val p)) (ucast (ctrl_val a)) s;
          Some (ret, if ret = 0 then s1\<lparr>cluster := clear_tune_new (cluster s1)\<rparr> else s1) }"

definition s_ctrl_alt_freqs :: "'w si_env \<Rightarrow> 'w si4713_device \<Rightarrow> (int \<times> 'w si4713_device) option" where
  "s_ctrl_alt_freqs E s =
     do { en \<leftarrow> ctrl_of CID_RDS_TX_ALT_FREQS_ENABLE (cluster s);
          af \<leftarrow> ctrl_of CID_RDS_TX_ALT_FREQS (cluster s);
          val \<leftarrow> (if ctrl_val en \<noteq> 0
                  then (case p_u32 af of [] \<Rightarrow> None | v # _ \<Rightarrow> Some (v div 100 - 876 + 0xe101))
                  else Some 0xe0e0);
          si4713_write_property E TX_RDS_PS_AF (ucast val) s }"

definition s_ctrl_default ::
    "'w si_env \<Rightarrow> v4l2_ctrl \<Rightarrow> econtrol \<Rightarrow> 'w si4713_device \<Rightarrow> (int \<times> econtrol \<times> 'w si4713_device) option" where
  "s_ctrl_default E c e s =
     (let (ret, e1) = si4713_choose_econtrol_action E (cid c) e in
      if ret < 0 then Some (ret, e1, s)
      else
        (let (ret, val) =
               (if emul e1 \<noteq> 0 then (ret, ctrl_val c div emul e1)
                else case etable e1 of
                       None \<Rightarrow> (ret, ctrl_val c)
                     | Some t \<Rightarrow> (let r = usecs_to_dev (ctrl_val c) t
                                  in if r < 0 then (r, ctrl_val c) else (0, of_int r)))
         in if ret < 0 then Some (ret, e1, s)
            else do {
              (ret, val, s1) \<leftarrow>
                (if emask e1 \<noteq> 0
                 then do {
                   (ret, v, s1) \<leftarrow> si4713_read_property E (eproperty e1) s;
                   Some (ret, set_bits v (ctrl_val c) (ebit e1) (emask e1), s1)
                 }
                 else Some (ret, val, s));
              if ret < 0 then Some (ret, e1, s1)
              else do {
                (ret, s2) \<leftarrow> si4713_write_property E (eproperty e1) (ucast val) s1;
                Some (ret, e1, s2)
              }
            }))"

definition s_ctrl_one ::
    "'w si_env \<Rightarrow> bool \<Rightarrow> v4l2_ctrl \<Rightarrow> econtrol \<Rightarrow> 'w si4713_device \<Rightarrow>
     (int \<times> econtrol \<times> 'w si4713_device) option" where
  "s_ctrl_one E force c e s =
     (if \<not> force \<and> \<not> is_new c then Some (0, e, s)
      else if cid c = CID_RDS_TX_PS_NAME
      then do { (ret, s1) \<leftarrow> si4713_set_rds_ps_name E (p_char c) s; Some (ret, e, s1) }
      else if cid c = CID_RDS_TX_RADIO_TEXT
      then do { (ret, s1) \<leftarrow> si4713_set_rds_radio_text E (p_char c) s; Some (ret, e, s1) }
      else if cid c = CID_TUNE_ANTENNA_CAPACITOR \<and> force then Some (0, e, s)
      else if cid c = CID_TUNE_ANTENNA_CAPACITOR \<or> cid c = CID_TUNE_POWER_LEVEL
      then do { (ret, s1) \<leftarrow> s_ctrl_tune_power E s; Some (ret, e, s1) }
      else if cid c = CID_RDS_TX_ALT_FREQS_ENABLE \<or> cid c = CID_RDS_TX_ALT_FREQS
      then do { (ret, s1) \<leftarrow> s_ctrl_alt_freqs E s; Some (ret, e, s1) }
      else s_ctrl_default E c e s)"

text \<open>
  The loop, over the positions that are left. The locals \<open>e\<close> go from one control to the next:
  they are initialised once, before the loop.
\<close>

fun s_ctrl_loop ::
    "'w si_env \<Rightarrow> bool \<Rightarrow> nat list \<Rightarrow> econtrol \<Rightarrow> 'w si4713_device \<Rightarrow> (int \<times> 'w si4713_device) option" where
  "s_ctrl_loop E force [] e s = Some (0, s)"
| "s_ctrl_loop E force (c # cs) e s =
     do { (ret, e1, s1) \<leftarrow> s_ctrl_one E force (cluster s ! c) e s;
          if ret = 0 then s_ctrl_loop E force cs e1 s1 else Some (ret, s1) }"

text \<open>\<open>eproperty\<close> starts as the code \<^verbatim>\<open>0\<close> in the source; it is always set before it is used.\<close>

definition econtrol0 :: econtrol where
  "econtrol0 = \<lparr>ebit = 0, emask = 0, eproperty = GPO_IEN, emul = 0, etable = None\<rparr>"

definition si4713_s_ctrl :: "'w si_env \<Rightarrow> v4l2_ctrl \<Rightarrow> 'w si4713_device \<Rightarrow> (int \<times> 'w si4713_device) option" where
  "si4713_s_ctrl E c s =
     (if cid c \<noteq> CID_AUDIO_MUTE then Some (- EINVAL, s)
      else if is_new c \<and> ctrl_val c \<noteq> 0
      then do {
        (ret, s1) \<leftarrow> si4713_set_mute E (ucast (ctrl_val c)) s;
        if ret = 0 then si4713_set_power_state E (POWER_DOWN E) s1 else Some (ret, s1)
      }
      else do {
        (ret, s1) \<leftarrow>
          (if is_new c
           then do {
             (ret, s1) \<leftarrow> si4713_set_power_state E (POWER_UP E) s;
             (ret, s2) \<leftarrow> (if ret = 0 then si4713_set_mute E (ucast (ctrl_val c)) s1 else Some (ret, s1));
             if ret = 0 then si4713_setup E s2 else Some (ret, s2)
           }
           else Some (0, s));
        if ret \<noteq> 0 then Some (ret, s1)
        else if power_state s1 = 0 then Some (0, s1)
        else s_ctrl_loop E (is_new c) [1..<length (cluster s1)] econtrol0 s1
      })"

section \<open>Private ioctl\<close>

text \<open>\<open>meas\<close> says that the request is \<^verbatim>\<open>SI4713_IOC_MEASURE_RNL\<close>; the argument carries the
  frequency and receives the noise level.\<close>

definition si4713_ioctl ::
    "'w si_env \<Rightarrow> bool \<Rightarrow> (u32 \<times> u32) option \<Rightarrow> 'w si4713_device \<Rightarrow>
     (int \<times> (u32 \<times> u32) option \<times> 'w si4713_device) option" where
  "si4713_ioctl E meas arg s =
     (case arg of
        None \<Rightarrow> Some (- EINVAL, None, s)
      | Some (f, rnl) \<Rightarrow>
          if \<not> meas then Some (- ENOIOCTLCMD E, arg, s)
          else do {
            (rval, s1) \<leftarrow>
              (if power_state s \<noteq> 0
               then do {
                 (rval, s1) \<leftarrow> si4713_tx_tune_measure E (ucast (v4l2_to_si4713 f)) 0 s;
                 if rval < 0 then Some (rval, s1) else si4713_update_tune_status E s1
               }
               else Some (0, s));
            if rval < 0 then Some (rval, arg, s1)
            else Some (rval, Some (f, tune_rnl s1), s1)
          })"

section \<open>Probe and removal\<close>

text \<open>The controls the probe creates, with their initial values.\<close>

definition si4713_controls :: "'w si_env \<Rightarrow> (ctrl_id \<times> u32) list" where
  "si4713_controls E =
     [(CID_AUDIO_MUTE, 0x01), (CID_RDS_TX_PI, 0x00), (CID_RDS_TX_PTY, 0x00), (CID_RDS_TX_COMPRESSED, 0),
      (CID_RDS_TX_ARTIFICIAL_HEAD, 0), (CID_RDS_TX_MONO_STEREO, 1), (CID_RDS_TX_TRAFFIC_PROGRAM, 0),
      (CID_RDS_TX_TRAFFIC_ANNOUNCEMENT, 0), (CID_RDS_TX_MUSIC_SPEECH, 1), (CID_RDS_TX_DYNAMIC_PTY, 0),
      (CID_RDS_TX_ALT_FREQS_ENABLE, 0), (CID_RDS_TX_ALT_FREQS, 87600), (CID_RDS_TX_DEVIATION, 0x00C8),
      (CID_RDS_TX_PS_NAME, 0), (CID_RDS_TX_RADIO_TEXT, 0), (CID_AUDIO_LIMITER_ENABLED, 1),
      (CID_AUDIO_LIMITER_RELEASE_TIME, 0x1392), (CID_AUDIO_LIMITER_DEVIATION, 0x102CA),
      (CID_AUDIO_COMPRESSION_ENABLED, 1), (CID_AUDIO_COMPRESSION_GAIN, 0x0F),
      (CID_AUDIO_COMPRESSION_THRESHOLD, - 0x28), (CID_AUDIO_COMPRESSION_ATTACK_TIME, 0x0000),
      (CID_AUDIO_COMPRESSION_RELEASE_TIME, 0xF4240), (CID_PILOT_TONE_ENABLED, 1),
      (CID_PILOT_TONE_DEVIATION, 0x1A5E), (CID_PILOT_TONE_FREQUENCY, 0x4A38),
      (CID_TUNE_PREEMPHASIS, V4L2_PREEMPHASIS_50_uS E), (CID_TUNE_POWER_LEVEL, 88),
      (CID_TUNE_ANTENNA_CAPACITOR, 0)]"

definition new_ctrl :: "'w si_env \<Rightarrow> ctrl_id \<times> u32 \<Rightarrow> v4l2_ctrl" where
  "new_ctrl E iv = \<lparr>cid = fst iv, ctrl_val = (if fst iv = CID_RDS_TX_ALT_FREQS then 0 else snd iv), is_new = False,
      p_char = (if fst iv = CID_RDS_TX_PS_NAME then replicate (MAX_RDS_PS_NAME E + 1) 0 else [0]),
      p_u32 = (if fst iv = CID_RDS_TX_ALT_FREQS then [snd iv] else [])\<rparr>"

definition new_cluster :: "'w si_env \<Rightarrow> v4l2_ctrl list" where
  "new_cluster E =
     map (\<lambda>i. new_ctrl E (i, case map_of (si4713_controls E) i of Some v \<Rightarrow> v | None \<Rightarrow> 0)) (cluster_order E)"

text \<open>What the kernel answers to the requests of the probe: a result or an error.\<close>

record probe_in =
  kzalloc_ok :: bool
  get_gpio :: "int + bool"
  get_vdd :: "int option"
  get_vio :: "int option"
  hdl_error :: int
  request_irq :: int
  has_np :: bool
  pdata_is_platform_device :: bool
  pdev_alloc_ok :: bool
  pdev_add_data :: int
  pdev_add :: int

text \<open>The device as it is once its resources are there: cleared memory, the controls in their cluster.\<close>

definition new_device :: "'w si_env \<Rightarrow> probe_in \<Rightarrow> bool \<Rightarrow> 'w \<Rightarrow> 'w si4713_device" where
  "new_device E I gpio w =
     \<lparr>power_state = 0, vdd = (get_vdd I = None), vio = (get_vio I = None), gpio_reset = gpio,
      frequency = 0, stereo = 0, rds_enabled = 0, tune_rnl = 0, cluster = new_cluster E,
      enabled = (\<lambda>_. 0), reset_level = False, sent = [], world = w\<rparr>"

datatype probe_undo = PlatformDevicePut | UnregisterSubdev | FreeCtrls

definition si4713_probe ::
    "'w si_env \<Rightarrow> probe_in \<Rightarrow> 'w \<Rightarrow> (int \<times> probe_undo list \<times> 'w si4713_device option) option" where
  "si4713_probe E I w =
     (if \<not> kzalloc_ok I then Some (- ENOMEM, [], None)
      else case get_gpio I of
        Inl e \<Rightarrow> Some (e, [], None)
      | Inr gpio \<Rightarrow>
        (if get_vdd I = Some (- EPROBE_DEFER E) then Some (- EPROBE_DEFER E, [], None)
         else if get_vio I = Some (- EPROBE_DEFER E) then Some (- EPROBE_DEFER E, [], None)
         else
           (let s = new_device E I gpio w
            in if hdl_error I \<noteq> 0 then Some (hdl_error I, [FreeCtrls], Some s)
               else if irq E \<and> request_irq I < 0 then Some (request_irq I, [FreeCtrls], Some s)
               else do {
                 (rval, s1) \<leftarrow> si4713_initialize E s;
                 if rval < 0 then Some (rval, [FreeCtrls], Some s1)
                 else if \<not> has_np I \<and> \<not> pdata_is_platform_device I then Some (0, [], Some s1)
                 else if \<not> pdev_alloc_ok I
                 then Some (- ENOMEM, [PlatformDevicePut, UnregisterSubdev, FreeCtrls], Some s1)
                 else if pdev_add_data I \<noteq> 0
                 then Some (pdev_add_data I, [PlatformDevicePut, UnregisterSubdev, FreeCtrls], Some s1)
                 else if pdev_add I \<noteq> 0
                 then Some (pdev_add I, [PlatformDevicePut, UnregisterSubdev, FreeCtrls], Some s1)
                 else Some (0, [], Some s1)
               })))"

text \<open>Removal: the platform device, the subdevice and the controls are released in any case.\<close>

definition si4713_remove :: "'w si_env \<Rightarrow> 'w si4713_device \<Rightarrow> (int \<times> 'w si4713_device) option" where
  "si4713_remove E s =
     (if power_state s \<noteq> 0
      then do { (_, s1) \<leftarrow> si4713_set_power_state E (POWER_DOWN E) s; Some (0, s1) }
      else Some (0, s))"

end
