(* ===== verification/Si4713Bus.thy ===== *)
theory Si4713Bus
  imports Si4713Ctrl
begin

text \<open>
  What a command does to the driver's state, and how long it takes: every command leaves all
  fields alone but the world and the log of sent messages, its error code is never positive, and
  under a clock that advances while the driver sleeps both polling loops end.
\<close>

section \<open>The interface of a bus operation\<close>

text \<open>\<open>touches s s'\<close>: only the bus was used between the two states.\<close>

definition touches :: "'w si4713_device \<Rightarrow> 'w si4713_device \<Rightarrow> bool" where
  "touches s s' \<longleftrightarrow> (\<exists>w l. s' = s\<lparr>world := w, sent := l @ sent s\<rparr>)"

lemma touches_refl [simp, intro]: "touches s s"
  unfolding touches_def by (rule exI [where x = "world s"], rule exI [where x = "[]"]) simp

lemma touches_world [simp, intro]: "touches s (s\<lparr>world := w\<rparr>)"
  unfolding touches_def by (rule exI [where x = w], rule exI [where x = "[]"]) simp

lemma touches_trans [trans]: "touches s t \<Longrightarrow> touches t u \<Longrightarrow> touches s u"
  unfolding touches_def by (auto, metis append.assoc)

lemma touches_fields:
  assumes "touches s s'"
  shows "power_state s' = power_state s" "vdd s' = vdd s" "vio s' = vio s" "gpio_reset s' = gpio_reset s"
    "frequency s' = frequency s" "stereo s' = stereo s" "rds_enabled s' = rds_enabled s"
    "tune_rnl s' = tune_rnl s" "cluster s' = cluster s" "enabled s' = enabled s" "reset_level s' = reset_level s"
  using assms unfolding touches_def by auto

lemma send_command_loop_frame0:
  assumes "send_command_loop E respn usecs j s = Some y"
  shows "fst y \<le> 0 \<and> touches s (snd (snd y)) \<and> sent (snd (snd y)) = sent s"
  using assms
proof (rule send_command_loop.raw_induct [rotated])
  fix loop :: "'a si_env \<Rightarrow> nat \<Rightarrow> nat \<Rightarrow> u32 \<Rightarrow> 'a si4713_device \<Rightarrow> _" and E respn usecs j s y
  assume IH: "\<And>E respn usecs j s y. loop E respn usecs j s = Some y \<Longrightarrow>
      fst y \<le> 0 \<and> touches s (snd (snd y)) \<and> sent (snd (snd y)) = sent s"
    and eq: "(case i2c_master_recv E respn (world s) of (err, resp, w1) \<Rightarrow>
      let s1 = s\<lparr>world := w1\<rparr> in
      if err \<noteq> int respn then Some (if err < 0 then err else - EIO, [], s1)
      else Option.bind (byte_at resp 0) (\<lambda>st.
        if \<not> check_command_failed E st then Some (0, resp, s1)
        else if irq E then Some (- EBUSY, resp, s1)
        else
          (let w2 = (if usecs \<le> 1000 then usleep_range E usecs 1000 w1 else usleep_range E 1000 2000 w1);
               s2 = s1\<lparr>world := w2\<rparr>
           in if time_is_after_jiffies E j w2 then loop E respn usecs j s2
              else Some (- EBUSY, resp, s2)))) = Some y"
  show "fst y \<le> 0 \<and> touches s (snd (snd y)) \<and> sent (snd (snd y)) = sent s"
    using eq
    by (auto simp: Let_def EIO_def EBUSY_def split: if_splits prod.splits bind_splits
        dest!: IH intro: touches_trans [OF touches_world])
qed

lemma send_command_loop_frame:
  "send_command_loop E respn usecs j s = Some (err, resp, s') \<Longrightarrow>
   err \<le> 0 \<and> touches s s' \<and> sent s' = sent s"
  using send_command_loop_frame0 by fastforce

text \<open>One command: the error code is not positive, and the one message sent is the command and its arguments.\<close>

lemma send_command_frame:
  assumes "si4713_send_command E c args usecs s = Some (err, resp, s')"
  shows "err \<le> 0" "touches s s'"
    "adapter E \<Longrightarrow> sent s' = (cmd_code E c # args) # sent s"
    "adapter E \<Longrightarrow> length args \<le> MAX_ARGS"
proof -
  have log: "touches s (s\<lparr>sent := m # sent s, world := w\<rparr>)" for w m
    unfolding touches_def by (rule exI [where x = w], rule exI [where x = "[m]"]) simp
  have log': "touches s (s\<lparr>world := w, sent := m # sent s\<rparr>)" for w m
    unfolding touches_def by (rule exI [where x = w], rule exI [where x = "[m]"]) simp
  have *: "err \<le> 0 \<and> touches s s' \<and>
      (adapter E \<longrightarrow> sent s' = (cmd_code E c # args) # sent s \<and> length args \<le> MAX_ARGS)"
    using assms unfolding si4713_send_command_def
    by (auto simp: Let_def EIO_def ENODEV_def split: if_splits prod.splits
        dest!: send_command_loop_frame intro: log log' touches_trans [OF log] touches_trans [OF log'])
  then show "err \<le> 0" "touches s s'"
    "adapter E \<Longrightarrow> sent s' = (cmd_code E c # args) # sent s"
    "adapter E \<Longrightarrow> length args \<le> MAX_ARGS" by auto
qed

lemma read_property_frame:
  assumes "si4713_read_property E p s = Some (err, v, s')"
  shows "err \<le> 0" "touches s s'"
  using assms unfolding si4713_read_property_def
  by (auto simp: Let_def split: if_splits bind_splits prod.splits dest: send_command_frame)

lemma write_property_frame:
  assumes "si4713_write_property E p v s = Some (err, s')"
  shows "err \<le> 0" "touches s s'"
  using assms unfolding si4713_write_property_def
  by (auto simp: Let_def split: if_splits bind_splits prod.splits
      dest: send_command_frame(1) intro: touches_trans [OF send_command_frame(2)] send_command_frame(2))

lemma wait_stc_loop_frame0:
  assumes "wait_stc_loop E usecs j s = Some y"
  shows "fst y \<le> 0 \<and> touches s (snd y)"
  using assms
proof (rule wait_stc_loop.raw_induct [rotated])
  fix loop :: "'a si_env \<Rightarrow> nat \<Rightarrow> u32 \<Rightarrow> 'a si4713_device \<Rightarrow> _" and E usecs j s y
  assume IH: "\<And>E usecs j s y. loop E usecs j s = Some y \<Longrightarrow> fst y \<le> 0 \<and> touches s (snd y)"
    and eq: "Option.bind (si4713_send_command E CMD_GET_INT_STATUS [] (DEFAULT_TIMEOUT E) s)
      (\<lambda>(err, resp, s1).
        Option.bind (if 0 \<le> err then Option.bind (byte_at resp 0) (\<lambda>st. Some (st AND SI4713_STC_INT E \<noteq> 0))
                     else Some False)
        (\<lambda>stc. if stc then Some (0, s1)
               else if usecs < jiffies_to_usecs E (jiffies E (world s1) - j)
               then Some (if err < 0 then err else - EIO, s1)
               else loop E usecs j (s1\<lparr>world := usleep_range E 3000 4000 (world s1)\<rparr>))) = Some y"
  obtain err resp s1 where c: "si4713_send_command E CMD_GET_INT_STATUS [] (DEFAULT_TIMEOUT E) s = Some (err, resp, s1)"
    using eq by (auto split: bind_splits)
  note t1 = send_command_frame(2) [OF c]
  then have t2: "touches s (s1\<lparr>world := w\<rparr>)" for w
    by (rule touches_trans) simp
  show "fst y \<le> 0 \<and> touches s (snd y)"
    using eq c t1
    by (auto simp: EIO_def split: if_splits bind_splits dest!: IH intro: touches_trans [OF t2])
qed

lemma wait_stc_frame:
  assumes "si4713_wait_stc E usecs s = Some (err, s')"
  shows "err \<le> 0" "touches s s'"
  using assms wait_stc_loop_frame0 [of E usecs "jiffies E (world s)" _ "(err, s')"]
  unfolding si4713_wait_stc_def
  by (auto simp: Let_def split: if_splits intro: touches_trans [OF touches_world])

section \<open>Time\<close>

text \<open>
  The clock the two polling loops rely on. \<open>us\<close> is real time in microseconds, \<open>tick\<close> the length
  of a jiffy; jiffies count ticks and wrap at 32 bits. No service takes longer than \<open>2^20\<close> jiffies,
  and sleeping takes at least the lower bound asked for (the driver asks for 3 ms at most).
\<close>

definition takes :: "('w \<Rightarrow> nat) \<Rightarrow> nat \<Rightarrow> nat \<Rightarrow> 'w \<Rightarrow> 'w \<Rightarrow> bool" where
  "takes us lo tick w w' \<longleftrightarrow> us w + lo \<le> us w' \<and> us w' \<le> us w + 2 ^ 20 * tick"

definition clock_ok :: "'w si_env \<Rightarrow> ('w \<Rightarrow> nat) \<Rightarrow> nat \<Rightarrow> bool" where
  "clock_ok E us tick \<longleftrightarrow> 0 < tick \<and>
     (\<forall>w. jiffies E w = of_nat (us w div tick)) \<and>
     (\<forall>j. jiffies_to_usecs E j = unat j * tick) \<and>
     (\<forall>n w. takes us 0 tick w (snd (snd (i2c_master_recv E n w)))) \<and>
     (\<forall>bs w. takes us 0 tick w (snd (i2c_master_send E bs w))) \<and>
     (\<forall>j w. unat j \<le> 2 ^ 20 \<longrightarrow> takes us 0 tick w (wait_for_completion_timeout E j w)) \<and>
     (\<forall>lo hi w. lo \<le> 4000 \<longrightarrow> takes us lo tick w (usleep_range E lo hi w))"

text \<open>A timeout that is not zero and below \<open>2^20\<close> jiffies.\<close>

definition timeout_ok :: "'w si_env \<Rightarrow> nat \<Rightarrow> bool" where
  "timeout_ok E usecs \<longleftrightarrow> 0 < usecs \<and> unat (usecs_to_jiffies E usecs) < 2 ^ 20"

lemma timeout_plus_one: "timeout_ok E usecs \<Longrightarrow> unat (usecs_to_jiffies E usecs + 1) \<le> 2 ^ 20"
  using unat_plus_simple [of "usecs_to_jiffies E usecs" 1] word_le_nat_alt
  by (simp add: timeout_ok_def unat_word_ariths(1))

text \<open>What \<^verbatim>\<open>i2c_master_recv\<close> documents: it returns the number of bytes it has put into the buffer.\<close>

definition recv_ok :: "'w si_env \<Rightarrow> bool" where
  "recv_ok E \<longleftrightarrow> (\<forall>n w. fst (i2c_master_recv E n w) = int n \<longrightarrow> length (fst (snd (i2c_master_recv E n w))) = n)"

lemma clock_tick: "clock_ok E us tick \<Longrightarrow> 0 < tick"
  by (simp add: clock_ok_def)

lemma clock_jiffies: "clock_ok E us tick \<Longrightarrow> jiffies E w = of_nat (us w div tick)"
  by (simp add: clock_ok_def)

lemma clock_takes:
  assumes "clock_ok E us tick"
  shows "takes us 0 tick w (snd (snd (i2c_master_recv E n w)))" "takes us 0 tick w (snd (i2c_master_send E bs w))"
    "unat j \<le> 2 ^ 20 \<Longrightarrow> takes us 0 tick w (wait_for_completion_timeout E j w)"
    "lo \<le> 4000 \<Longrightarrow> takes us lo tick w (usleep_range E lo hi w)"
  using assms by (simp_all add: clock_ok_def)

lemma sint_of_nat_diff:
  assumes "a < b + 2 ^ 31" "b \<le> a + 2 ^ 31"
  shows "sint (of_nat a - of_nat b :: u32) = int a - int b"
proof -
  have "(of_nat a - of_nat b :: u32) = word_of_int (int a - int b)" by simp
  moreover have "(int a - int b + 2 ^ 31) mod 2 ^ 32 = int a - int b + 2 ^ 31"
    using assms by simp
  ultimately show ?thesis by (simp only: int_word_sint) simp
qed

lemma deadline_passed:
  assumes "clock_ok E us tick" "us w div tick < deadline + 2 ^ 31" "deadline \<le> us w div tick + 2 ^ 31"
  shows "time_is_after_jiffies E (of_nat deadline) w \<longleftrightarrow> us w div tick < deadline"
  using assms sint_of_nat_diff [of "us w div tick" deadline]
  by (simp add: time_is_after_jiffies_def clock_jiffies)

text \<open>The response loop ends: every round sleeps at least a microsecond before it looks at the deadline.\<close>

definition poll_sleep :: "'w si_env \<Rightarrow> nat \<Rightarrow> 'w \<Rightarrow> 'w" where
  "poll_sleep E usecs w = (if usecs \<le> 1000 then usleep_range E usecs 1000 w else usleep_range E 1000 2000 w)"

lemma poll_sleep_takes:
  assumes "clock_ok E us tick" "0 < usecs"
  shows "us w < us (poll_sleep E usecs w)" "us (poll_sleep E usecs w) \<le> us w + 2 ^ 20 * tick"
  using clock_takes(4) [OF assms(1), where w = w and lo = usecs and hi = 1000]
    clock_takes(4) [OF assms(1), where w = w and lo = 1000 and hi = 2000] assms(2)
  by (auto simp: poll_sleep_def takes_def)

lemma send_command_loop_returns:
  assumes clk: "clock_ok E us tick" and rcv: "recv_ok E" and n: "0 < respn" and u: "0 < usecs"
    and before: "us (world s) div tick < deadline" and d: "deadline \<le> us (world s) div tick + 2 ^ 21"
  shows "\<exists>err resp s'. send_command_loop E respn usecs (of_nat deadline) s = Some (err, resp, s') \<and>
     (err = 0 \<longrightarrow> length resp = respn) \<and>
     us (world s) \<le> us (world s') \<and> us (world s') \<le> deadline * tick + 2 ^ 21 * tick"
  using before d
proof (induction "deadline * tick - us (world s)" arbitrary: s rule: less_induct)
  case less
  obtain e rs w1 where r: "i2c_master_recv E respn (world s) = (e, rs, w1)"
    by (cases "i2c_master_recv E respn (world s)") auto
  have t1: "us (world s) \<le> us w1" "us w1 \<le> us (world s) + 2 ^ 20 * tick"
    using clock_takes(1) [OF clk, where w = "world s" and n = respn] r by (simp_all add: takes_def)
  have now: "us (world s) < deadline * tick"
    using less.prems(1) clock_tick [OF clk] by (metis div_less_iff_less_mult)
  let ?w2 = "poll_sleep E usecs w1"
  have t2: "us w1 < us ?w2" "us ?w2 \<le> us w1 + 2 ^ 20 * tick"
    by (rule poll_sleep_takes [OF clk u])+
  have "us ?w2 \<le> us (world s) + 2 ^ 21 * tick" using t1 t2 by simp
  then have "us ?w2 div tick \<le> us (world s) div tick + 2 ^ 21"
    using clock_tick [OF clk] by (metis div_le_mono div_mult_self3 add.commute not_gr0)
  moreover have "us (world s) div tick \<le> us ?w2 div tick" using t1 t2 by (simp add: div_le_mono)
  ultimately have dl: "time_is_after_jiffies E (of_nat deadline) ?w2 \<longleftrightarrow> us ?w2 div tick < deadline"
    and d2: "deadline \<le> us ?w2 div tick + 2 ^ 21"
    using less.prems by (simp_all add: deadline_passed [OF clk])
  have IH: "us ?w2 div tick < deadline \<Longrightarrow> \<exists>err resp s'.
      send_command_loop E respn usecs (of_nat deadline) (s\<lparr>world := ?w2\<rparr>) = Some (err, resp, s') \<and>
      (err = 0 \<longrightarrow> length resp = respn) \<and>
      us ?w2 \<le> us (world s') \<and> us (world s') \<le> deadline * tick + 2 ^ 21 * tick"
    using less.hyps [of "s\<lparr>world := ?w2\<rparr>"] d2 t1 t2 now by simp
  have len: "e = int respn \<Longrightarrow> length rs = respn"
    using rcv r unfolding recv_ok_def by (metis fst_conv snd_conv)
  have step: "send_command_loop E respn usecs (of_nat deadline) s =
      (if e \<noteq> int respn then Some (if e < 0 then e else - EIO, [], s\<lparr>world := w1\<rparr>)
       else if \<not> check_command_failed E (rs ! 0) then Some (0, rs, s\<lparr>world := w1\<rparr>)
       else if irq E then Some (- EBUSY, rs, s\<lparr>world := w1\<rparr>)
       else if us ?w2 div tick < deadline then send_command_loop E respn usecs (of_nat deadline) (s\<lparr>world := ?w2\<rparr>)
       else Some (- EBUSY, rs, s\<lparr>world := ?w2\<rparr>))"
    using dl len n by (subst send_command_loop.simps) (simp add: r Let_def byte_at_def poll_sleep_def)
  show ?case
    using IH t1 t2 now len unfolding step
    by (auto simp: EIO_def EBUSY_def intro: le_trans)
qed

lemma send_command_loop_irq:
  assumes clk: "clock_ok E us tick" and rcv: "recv_ok E" and n: "0 < respn" and irq: "irq E"
  shows "\<exists>err resp s'. send_command_loop E respn usecs j s = Some (err, resp, s') \<and>
     (err = 0 \<longrightarrow> length resp = respn) \<and>
     us (world s) \<le> us (world s') \<and> us (world s') \<le> us (world s) + 2 ^ 20 * tick"
proof -
  obtain e rs w1 where r: "i2c_master_recv E respn (world s) = (e, rs, w1)"
    by (cases "i2c_master_recv E respn (world s)") auto
  have t1: "us (world s) \<le> us w1" "us w1 \<le> us (world s) + 2 ^ 20 * tick"
    using clock_takes(1) [OF clk, where w = "world s" and n = respn] r by (simp_all add: takes_def)
  have len: "e = int respn \<Longrightarrow> length rs = respn"
    using rcv r unfolding recv_ok_def by (metis fst_conv snd_conv)
  show ?thesis
    using irq n len t1
    by (subst send_command_loop.simps) (auto simp: r Let_def byte_at_def EIO_def EBUSY_def)
qed

text \<open>A command always returns, within \<open>2^23\<close> jiffies, with as many bytes as were asked for.\<close>

lemma send_command_returns:
  assumes clk: "clock_ok E us tick" and rcv: "recv_ok E" and n: "0 < cmd_nresp E c" and tm: "timeout_ok E usecs"
    and a: "length args \<le> MAX_ARGS"
  shows "\<exists>err resp s'. si4713_send_command E c args usecs s = Some (err, resp, s') \<and>
     (err = 0 \<longrightarrow> length resp = cmd_nresp E c) \<and>
     us (world s) \<le> us (world s') \<and> us (world s') \<le> us (world s) + 2 ^ 23 * tick"
proof -
  obtain e w1 where r: "i2c_master_send E (cmd_code E c # args) (world s) = (e, w1)"
    by (cases "i2c_master_send E (cmd_code E c # args) (world s)") auto
  have t1: "us (world s) \<le> us w1" "us w1 \<le> us (world s) + 2 ^ 20 * tick"
    using clock_takes(2) [OF clk, where w = "world s" and bs = "cmd_code E c # args"] r by (simp_all add: takes_def)
  let ?s1 = "s\<lparr>world := w1, sent := (cmd_code E c # args) # sent s\<rparr>"
  let ?wait = "wait_for_completion_timeout E (usecs_to_jiffies E usecs + 1) w1"
  let ?s2 = "?s1\<lparr>world := ?wait\<rparr>"
  have tw: "us w1 \<le> us ?wait" "us ?wait \<le> us w1 + 2 ^ 20 * tick"
    using clock_takes(3) [OF clk timeout_plus_one [OF tm], of w1] by (simp_all add: takes_def)
  have u: "0 < usecs" using tm by (simp add: timeout_ok_def)
  define dl where "dl = us w1 div tick + unat (usecs_to_jiffies E usecs) + 1"
  have j: "jiffies E w1 + usecs_to_jiffies E usecs + 1 = of_nat dl"
    by (simp add: dl_def clock_jiffies [OF clk])
  have "unat (usecs_to_jiffies E usecs) < 2 ^ 20" using tm by (simp add: timeout_ok_def)
  then have b: "us w1 div tick < dl" "dl \<le> us w1 div tick + 2 ^ 20" unfolding dl_def by simp_all
  have "dl * tick \<le> (us w1 div tick + 2 ^ 20) * tick" using b(2) by (rule mult_le_mono1)
  also have "\<dots> \<le> us w1 + 2 ^ 20 * tick" by (simp add: add_mult_distrib)
  finally have bt: "dl * tick \<le> us w1 + 2 ^ 20 * tick" .
  show ?thesis
  proof (cases "e = int (length args) + 1 \<and> adapter E")
    case False
    then show ?thesis using a t1 by (auto simp: si4713_send_command_def Let_def r ENODEV_def EIO_def)
  next
    case True
    then have eq: "si4713_send_command E c args usecs s =
        send_command_loop E (cmd_nresp E c) usecs (of_nat dl) (if irq E then ?s2 else ?s1)"
      using a by (simp add: si4713_send_command_def Let_def r j)
    show ?thesis
    proof (cases "irq E")
      case True
      then show ?thesis
        using send_command_loop_irq [OF clk rcv n True, of usecs "of_nat dl" ?s2] t1 tw unfolding eq
        by (auto intro: le_trans)
    next
      case False
      then show ?thesis
        using send_command_loop_returns [OF clk rcv n u, where s = ?s1 and deadline = dl] b bt t1 unfolding eq
        by (auto intro: le_trans)
    qed
  qed
qed

lemma jiffies_since:
  assumes clk: "clock_ok E us tick" and "start \<le> us w div tick" "us w div tick < start + 2 ^ 32"
  shows "jiffies_to_usecs E (jiffies E w - of_nat start) = (us w div tick - start) * tick"
proof -
  have "unat (of_nat (us w div tick - start) :: u32) = us w div tick - start"
    using assms(3) by (simp add: unat_of_nat)
  moreover have "(of_nat (us w div tick) - of_nat start :: u32) = of_nat (us w div tick - start)"
    using assms(2) by simp
  ultimately show ?thesis using clk by (simp add: clock_ok_def)
qed

lemma div_le_shift: "0 < (k::nat) \<Longrightarrow> a \<le> b + c * k \<Longrightarrow> a div k \<le> b div k + c"
  by (metis div_le_mono div_mult_self3 add.commute not_gr0)

lemma wait_stc_loop_returns:
  assumes clk: "clock_ok E us tick" and rcv: "recv_ok E" and n: "0 < cmd_nresp E CMD_GET_INT_STATUS"
    and u: "timeout_ok E (DEFAULT_TIMEOUT E)" and usecs: "usecs \<le> 2 ^ 20 * tick"
    and "start \<le> us (world s) div tick" "us (world s) div tick \<le> start + 2 ^ 22"
  shows "\<exists>err s'. wait_stc_loop E usecs (of_nat start) s = Some (err, s')"
  using assms(6,7)
proof (induction "start * tick + usecs + tick - us (world s)" arbitrary: s rule: less_induct)
  case less
  obtain err resp s1 where c: "si4713_send_command E CMD_GET_INT_STATUS [] (DEFAULT_TIMEOUT E) s = Some (err, resp, s1)"
    and len: "err = 0 \<longrightarrow> length resp = cmd_nresp E CMD_GET_INT_STATUS"
    and t: "us (world s) \<le> us (world s1)" "us (world s1) \<le> us (world s) + 2 ^ 23 * tick"
    using send_command_returns [OF clk rcv n u, of "[]" s] by (auto simp: MAX_ARGS_def)
  have e0: "0 \<le> err \<Longrightarrow> resp \<noteq> []" using send_command_frame(1) [OF c] len n by auto
  have "us (world s1) div tick \<le> us (world s) div tick + 2 ^ 23"
    by (rule div_le_shift [OF clock_tick [OF clk] t(2)])
  moreover have "us (world s) div tick \<le> us (world s1) div tick" using t(1) by (rule div_le_mono)
  ultimately have b: "start \<le> us (world s1) div tick" "us (world s1) div tick < start + 2 ^ 32"
    using less.prems by simp_all
  let ?w2 = "usleep_range E 3000 4000 (world s1)"
  have t2: "us (world s1) < us ?w2" "us ?w2 \<le> us (world s1) + 2 ^ 20 * tick"
    using clock_takes(4) [OF clk, where w = "world s1" and lo = 3000 and hi = 4000] by (simp_all add: takes_def)
  have again: "\<exists>err s'. wait_stc_loop E usecs (of_nat start) (s1\<lparr>world := ?w2\<rparr>) = Some (err, s')"
    if early: "(us (world s1) div tick - start) * tick \<le> usecs"
  proof -
    have "(us (world s1) div tick - start) * tick \<le> 2 ^ 20 * tick" using early usecs by linarith
    then have e1: "us (world s1) div tick \<le> start + 2 ^ 20" using clock_tick [OF clk] b by simp
    have "us (world s1) < (us (world s1) div tick) * tick + tick"
      using clock_tick [OF clk] by (metis add.commute dividend_less_div_times)
    also have "(us (world s1) div tick) * tick = start * tick + (us (world s1) div tick - start) * tick"
      using b(1) by (metis add_mult_distrib le_add_diff_inverse)
    finally have e2: "us (world s1) < start * tick + usecs + tick" using early by linarith
    have "us ?w2 div tick \<le> us (world s1) div tick + 2 ^ 20"
      by (rule div_le_shift [OF clock_tick [OF clk] t2(2)])
    moreover have "us (world s1) div tick \<le> us ?w2 div tick" using t2(1) by (simp add: div_le_mono)
    ultimately show ?thesis
      using less.hyps [of "s1\<lparr>world := ?w2\<rparr>"] b e1 e2 t t2 by simp
  qed
  show ?case
    using again e0
    by (subst wait_stc_loop.simps)
      (auto simp: c byte_at_def jiffies_since [OF clk b] not_less split: if_splits)
qed

lemma wait_stc_returns:
  assumes clk: "clock_ok E us tick" and rcv: "recv_ok E" and n: "0 < cmd_nresp E CMD_GET_INT_STATUS"
    and u: "timeout_ok E (DEFAULT_TIMEOUT E)" and usecs: "usecs \<le> 2 ^ 20 * tick" and tm: "timeout_ok E usecs"
  shows "\<exists>err s'. si4713_wait_stc E usecs s = Some (err, s')"
proof -
  let ?w = "wait_for_completion_timeout E (usecs_to_jiffies E usecs + 1) (world s)"
  have tw: "us (world s) \<le> us ?w" "us ?w \<le> us (world s) + 2 ^ 20 * tick"
    using clock_takes(3) [OF clk timeout_plus_one [OF tm], of "world s"] by (simp_all add: takes_def)
  have "us ?w div tick \<le> us (world s) div tick + 2 ^ 20"
    by (rule div_le_shift [OF clock_tick [OF clk] tw(2)])
  moreover have "us (world s) div tick \<le> us ?w div tick" using tw(1) by (rule div_le_mono)
  ultimately show ?thesis
    using wait_stc_loop_returns [OF clk rcv n u usecs, where start = "us (world s) div tick"]
    by (simp add: si4713_wait_stc_def Let_def clock_jiffies [OF clk])
qed

end
