(* ===== verification/Si4713Props.thy ===== *)
theory Si4713Props
  imports Si4713Bus
begin

text \<open>
  The transmitter driver's properties: the power state and the supplies go together in every
  reachable state, commands end, the carrier stays in the FM band, control values reach the chip
  as they should when one control is set, and the places where the code does something else.
\<close>

section \<open>What leaves the supplies alone\<close>

text \<open>The part of the state that says what is powered.\<close>

definition pw :: "'w si4713_device \<Rightarrow> u8 \<times> bool \<times> bool \<times> bool \<times> (regulator \<Rightarrow> int) \<times> bool" where
  "pw s = (power_state s, vdd s, vio s, gpio_reset s, enabled s, reset_level s)"

lemma pw_updates [simp]:
  "pw (s\<lparr>world := w\<rparr>) = pw s" "pw (s\<lparr>sent := l\<rparr>) = pw s" "pw (s\<lparr>frequency := f\<rparr>) = pw s"
  "pw (s\<lparr>stereo := x\<rparr>) = pw s" "pw (s\<lparr>rds_enabled := x\<rparr>) = pw s" "pw (s\<lparr>tune_rnl := x\<rparr>) = pw s"
  "pw (s\<lparr>cluster := cs\<rparr>) = pw s"
  by (simp_all add: pw_def)

lemma pw_touches: "touches s s' \<Longrightarrow> pw s' = pw s"
  by (simp add: pw_def touches_fields)

named_theorems pw_frames \<open>operations that do not change what is powered\<close>

lemmas pw_bus [pw_frames] =
  send_command_frame(2) [THEN pw_touches] read_property_frame(2) [THEN pw_touches]
  write_property_frame(2) [THEN pw_touches] wait_stc_frame(2) [THEN pw_touches]

lemma pw_tx_tune_freq [pw_frames]: "si4713_tx_tune_freq E f s = Some (r, s') \<Longrightarrow> pw s' = pw s"
  unfolding si4713_tx_tune_freq_def
  by (auto simp: Let_def split: bind_splits if_splits dest!: pw_frames)

lemma pw_tx_tune_power [pw_frames]: "si4713_tx_tune_power E p a s = Some (r, s') \<Longrightarrow> pw s' = pw s"
  unfolding si4713_tx_tune_power_def
  by (auto simp: Let_def split: bind_splits if_splits dest!: pw_frames)

lemma pw_tx_tune_measure [pw_frames]: "si4713_tx_tune_measure E f a s = Some (r, s') \<Longrightarrow> pw s' = pw s"
  unfolding si4713_tx_tune_measure_def
  by (auto simp: Let_def split: bind_splits if_splits dest!: pw_frames)

lemma pw_tx_tune_status [pw_frames]: "si4713_tx_tune_status E i ts s = Some (r, ts', s') \<Longrightarrow> pw s' = pw s"
  unfolding si4713_tx_tune_status_def
  by (auto simp: Let_def split: bind_splits if_splits dest!: pw_frames)

lemma pw_tx_rds_buff [pw_frames]: "si4713_tx_rds_buff E m b c d l s = Some (r, l', s') \<Longrightarrow> pw s' = pw s"
  unfolding si4713_tx_rds_buff_def
  by (auto simp: Let_def split: bind_splits if_splits dest!: pw_frames)

lemma pw_tx_rds_ps [pw_frames]: "si4713_tx_rds_ps E p cs s = Some (r, s') \<Longrightarrow> pw s' = pw s"
  unfolding si4713_tx_rds_ps_def
  by (auto simp: Let_def split: bind_splits if_splits dest!: pw_frames)

lemma pw_set_mute [pw_frames]: "si4713_set_mute E m s = Some (r, s') \<Longrightarrow> pw s' = pw s"
  unfolding si4713_set_mute_def
  by (auto simp: Let_def split: bind_splits if_splits dest!: pw_frames)

lemma pw_rds_ps_loop [pw_frames]: "rds_ps_loop E is rv ps s = Some (r, s') \<Longrightarrow> pw s' = pw s"
  by (induction E "is" rv ps s rule: rds_ps_loop.induct)
    (auto split: bind_splits if_splits dest!: pw_frames)

lemma pw_set_rds_ps_name [pw_frames]: "si4713_set_rds_ps_name E ps s = Some (r, s') \<Longrightarrow> pw s' = pw s"
  unfolding si4713_set_rds_ps_name_def
  by (auto simp: Let_def split: bind_splits if_splits dest!: pw_frames)

lemma pw_rds_radio_text_loop0:
  assumes "rds_radio_text_loop E rt t b l s = Some y"
  shows "pw (snd y) = pw s"
  using assms
proof (rule rds_radio_text_loop.raw_induct [rotated])
  fix loop :: "'a si_env \<Rightarrow> u8 list \<Rightarrow> u16 \<Rightarrow> u8 \<Rightarrow> u8 \<Rightarrow> 'a si4713_device \<Rightarrow> (int \<times> 'a si4713_device) option"
    and E rt t b l s y
  assume IH: "\<And>E rt t b l s y. loop E rt t b l s = Some y \<Longrightarrow> pw (snd y) = pw s"
  show "(do { cr_inserted \<leftarrow>
            (if unat t < RDS_RADIOTEXT_INDEX_MAX * RDS_RADIOTEXT_BLK_SIZE
             then scan_block rt (unat t) RDS_RADIOTEXT_BLK_SIZE else Some False);
          let rt1 = (if cr_inserted then cr else rt);
          c0 \<leftarrow> byte_at rt1 (unat t); c1 \<leftarrow> byte_at rt1 (unat t + 1);
          c2 \<leftarrow> byte_at rt1 (unat t + 2); c3 \<leftarrow> byte_at rt1 (unat t + 3);
          (rval, left1, s1) \<leftarrow> si4713_tx_rds_buff E RDS_BLOCK_LOAD (compose_u16 RDS_RADIOTEXT_2A b)
                                 (compose_u16 c0 c1) (compose_u16 c2 c3) l s;
          if rval < 0 then Some (rval, s1)
          else if cr_inserted then Some (rval, s1)
          else if 0 < sint left1
          then loop E rt1 (t + of_nat RDS_RADIOTEXT_BLK_SIZE) (b + 1) left1 s1
          else Some (rval, s1) }) = Some y \<Longrightarrow> pw (snd y) = pw s"
    by (auto simp: Let_def split: bind_splits if_splits dest!: IH pw_tx_rds_buff)
qed

lemma pw_rds_radio_text_loop [pw_frames]: "rds_radio_text_loop E rt t b l s = Some (r, s') \<Longrightarrow> pw s' = pw s"
  using pw_rds_radio_text_loop0 by fastforce

lemma pw_set_rds_radio_text [pw_frames]: "si4713_set_rds_radio_text E rt s = Some (r, s') \<Longrightarrow> pw s' = pw s"
  unfolding si4713_set_rds_radio_text_def
  by (auto split: bind_splits if_splits dest!: pw_frames)

lemma pw_update_tune_status [pw_frames]: "si4713_update_tune_status E s = Some (r, s') \<Longrightarrow> pw s' = pw s"
  unfolding si4713_update_tune_status_def
  by (auto split: bind_splits if_splits dest!: pw_frames)

lemma pw_s_frequency [pw_frames]: "si4713_s_frequency E t f s = Some (r, s') \<Longrightarrow> pw s' = pw s"
  unfolding si4713_s_frequency_def
  by (auto simp: Let_def split: bind_splits if_splits dest!: pw_frames)

lemma pw_g_frequency [pw_frames]: "si4713_g_frequency E t s = Some (r, v, s') \<Longrightarrow> pw s' = pw s"
  unfolding si4713_g_frequency_def
  by (auto simp: Let_def split: bind_splits if_splits dest!: pw_frames)

lemma pw_s_modulator [pw_frames]: "si4713_s_modulator E i sub s = Some (r, s') \<Longrightarrow> pw s' = pw s"
  unfolding si4713_s_modulator_def
  by (auto simp: Let_def split: bind_splits if_splits dest!: pw_frames)

lemma pw_g_modulator [pw_frames]: "si4713_g_modulator E vm s = Some (r, vm', s') \<Longrightarrow> pw s' = pw s"
  unfolding si4713_g_modulator_def
  by (auto simp: Let_def split: bind_splits if_splits dest!: pw_frames)

lemma pw_setup [pw_frames]: "si4713_setup E s = Some (r, s') \<Longrightarrow> pw s' = pw s"
  unfolding si4713_setup_def
  by (auto simp: Let_def split: bind_splits if_splits dest!: pw_frames)

lemma pw_checkrev [pw_frames]: "si4713_checkrev E s = Some (r, s') \<Longrightarrow> pw s' = pw s"
  unfolding si4713_checkrev_def
  by (auto split: bind_splits if_splits dest!: pw_frames)

lemma pw_s_ctrl_tune_power [pw_frames]: "s_ctrl_tune_power E s = Some (r, s') \<Longrightarrow> pw s' = pw s"
  unfolding s_ctrl_tune_power_def
  by (auto split: bind_splits if_splits dest!: pw_frames)

lemma pw_s_ctrl_alt_freqs [pw_frames]: "s_ctrl_alt_freqs E s = Some (r, s') \<Longrightarrow> pw s' = pw s"
  unfolding s_ctrl_alt_freqs_def
  by (auto split: bind_splits if_splits dest!: pw_frames)

lemma pw_s_ctrl_default [pw_frames]: "s_ctrl_default E c e s = Some (r, e', s') \<Longrightarrow> pw s' = pw s"
  unfolding s_ctrl_default_def
  by (auto simp: Let_def split: bind_splits if_splits prod.splits option.splits dest!: pw_bus)

lemma pw_s_ctrl_one [pw_frames]: "s_ctrl_one E f c e s = Some (r, e', s') \<Longrightarrow> pw s' = pw s"
  unfolding s_ctrl_one_def
  by (auto split: bind_splits if_splits dest!: pw_frames)

lemma pw_s_ctrl_loop [pw_frames]: "s_ctrl_loop E f cs e s = Some (r, s') \<Longrightarrow> pw s' = pw s"
  by (induction E f cs e s rule: s_ctrl_loop.induct)
    (auto split: bind_splits if_splits dest!: pw_s_ctrl_one)

lemma pw_ioctl [pw_frames]: "si4713_ioctl E m a s = Some (r, a', s') \<Longrightarrow> pw s' = pw s"
  unfolding si4713_ioctl_def
  by (auto split: bind_splits if_splits option.splits dest!: pw_frames)

section \<open>Power state and supplies\<close>

definition present :: "'w si4713_device \<Rightarrow> regulator \<Rightarrow> bool" where
  "present s r = (case r of Vdd \<Rightarrow> vdd s | Vio \<Rightarrow> vio s)"

text \<open>
  The driver's own idea of the power state agrees with what it did: a supply that is there is
  enabled exactly once while the chip is on and not at all while it is off, and the reset line is
  released exactly while it is on.
\<close>

definition supplies_match :: "'w si4713_device \<Rightarrow> bool" where
  "supplies_match s \<longleftrightarrow>
     (\<forall>r. enabled s r = (if present s r \<and> power_state s \<noteq> 0 then 1 else 0)) \<and>
     (gpio_reset s \<longrightarrow> (reset_level s \<longleftrightarrow> power_state s \<noteq> 0)) \<and>
     (power_state s = POWER_OFF \<or> power_state s = POWER_ON)"

definition regulators_ok :: "'w si_env \<Rightarrow> bool" where
  "regulators_ok E \<longleftrightarrow> (\<forall>r w. fst (regulator_enable E r w) = 0 \<and> fst (regulator_disable E r w) = 0)"

lemma supplies_match_pw: "pw s' = pw s \<Longrightarrow> supplies_match s' = supplies_match s"
  by (simp add: pw_def supplies_match_def present_def cong: regulator.case_cong)

lemma all_regulator: "(\<forall>r. P r) \<longleftrightarrow> P Vdd \<and> P Vio"
  by (metis regulator.exhaust)

lemma reg_ops_ok:
  assumes "regulators_ok E"
  shows "reg_enable E r s =
      (0, s\<lparr>world := snd (regulator_enable E r (world s)), enabled := (enabled s)(r := enabled s r + 1)\<rparr>)"
    "reg_disable E r s =
      (0, s\<lparr>world := snd (regulator_disable E r (world s)), enabled := (enabled s)(r := enabled s r - 1)\<rparr>)"
  using assms unfolding regulators_ok_def reg_enable_def reg_disable_def
  by (simp_all add: Let_def split_beta)

lemma supplies_off_ok:
  assumes "regulators_ok E"
  shows "pw (snd (supplies_off E err s)) = (power_state s, vdd s, vio s, gpio_reset s,
       (\<lambda>r. enabled s r - (if present s r then 1 else 0)), reset_level s)"
    "fst (supplies_off E err s) = (if vdd s \<or> vio s then 0 else err)"
proof -
  have e: "(\<lambda>r. enabled s r - (if present s r then 1 else 0)) =
      (let e1 = (if vdd s then (enabled s)(Vdd := enabled s Vdd - 1) else enabled s)
       in if vio s then e1(Vio := e1 Vio - 1) else e1)"
    by (rule ext) (auto simp: present_def Let_def split: regulator.splits)
  show "pw (snd (supplies_off E err s)) = (power_state s, vdd s, vio s, gpio_reset s,
       (\<lambda>r. enabled s r - (if present s r then 1 else 0)), reset_level s)"
    unfolding supplies_off_def e by (simp add: Let_def reg_ops_ok [OF assms] pw_def)
  show "fst (supplies_off E err s) = (if vdd s \<or> vio s then 0 else err)"
    unfolding supplies_off_def by (simp add: Let_def reg_ops_ok [OF assms])
qed

text \<open>Switching the supplies on, and the two ends of a power-up.\<close>

definition supplies_on :: "'w si_env \<Rightarrow> 'w si4713_device \<Rightarrow> 'w si4713_device" where
  "supplies_on E s =
     (let s1 = (if vdd s then snd (reg_enable E Vdd s) else s);
          s2 = (if vio s1 then snd (reg_enable E Vio s1) else s1)
      in if gpio_reset s2 then set_gpio_reset True (s2\<lparr>world := usleep_range E 50 50 (world s2)\<rparr>) else s2)"

definition powerup_args :: "'w si_env \<Rightarrow> u8 list" where
  "powerup_args E = c_array (cmd_nargs E CMD_POWER_UP)
     [(SI4713_PWUP_GPO2OEN E OR SI4713_PWUP_FUNC_TX E) OR (if irq E then SI4713_PWUP_CTSIEN E else 0),
      SI4713_PWUP_OPMOD_ANALOG E]"

lemma supplies_on_pw:
  assumes "regulators_ok E"
  shows "pw (supplies_on E s) = (power_state s, vdd s, vio s, gpio_reset s,
     (\<lambda>r. enabled s r + (if present s r then 1 else 0)), gpio_reset s \<or> reset_level s)"
proof -
  have e: "(\<lambda>r. enabled s r + (if present s r then 1 else 0)) =
      (let e1 = (if vdd s then (enabled s)(Vdd := enabled s Vdd + 1) else enabled s)
       in if vio s then e1(Vio := e1 Vio + 1) else e1)"
    by (rule ext) (auto simp: present_def Let_def split: regulator.splits)
  show ?thesis
    unfolding supplies_on_def e by (simp add: Let_def reg_ops_ok [OF assms] pw_def set_gpio_reset_def)
qed

lemma powerup_eq:
  assumes "regulators_ok E" "power_state s = 0"
  shows "si4713_powerup E s =
    do { (err, _, s4) \<leftarrow> si4713_send_command E CMD_POWER_UP (powerup_args E) (TIMEOUT_POWER_UP E) (supplies_on E s);
         if err = 0
         then (let s5 = s4\<lparr>power_state := POWER_ON\<rparr>
               in if irq E then si4713_write_property E GPO_IEN (ucast (SI4713_STC_INT E OR SI4713_CTS E)) s5
                  else Some (err, s5))
         else Some (supplies_off E err (set_gpio_reset False s4)) }"
  using assms(2)
  unfolding si4713_powerup_def supplies_on_def powerup_args_def
  by (simp add: Let_def reg_ops_ok [OF assms(1)])

lemma pw_eqD:
  "pw s = (p, v, i, g, e, r) \<Longrightarrow>
   power_state s = p \<and> vdd s = v \<and> vio s = i \<and> gpio_reset s = g \<and> enabled s = e \<and> reset_level s = r"
  by (simp add: pw_def)

lemma set_gpio_reset_pw:
  "pw (set_gpio_reset b s) = (power_state s, vdd s, vio s, gpio_reset s, enabled s,
     if gpio_reset s then b else reset_level s)"
  by (simp add: set_gpio_reset_def pw_def)

lemma power_on_pw: "pw (s\<lparr>power_state := p\<rparr>) = (p, vdd s, vio s, gpio_reset s, enabled s, reset_level s)"
  by (simp add: pw_def)

lemma supplies_match_eq:
  assumes "pw s = (p, v, i, g, e, l)"
  shows "supplies_match s \<longleftrightarrow>
    (\<forall>r. e r = (if (case r of Vdd \<Rightarrow> v | Vio \<Rightarrow> i) \<and> p \<noteq> 0 then 1 else 0)) \<and>
    (g \<longrightarrow> l = (p \<noteq> 0)) \<and> (p = POWER_OFF \<or> p = POWER_ON)"
proof -
  have f: "p = power_state s" "v = vdd s" "i = vio s" "g = gpio_reset s" "e = enabled s" "l = reset_level s"
    using assms by (simp_all add: pw_def)
  show ?thesis unfolding f supplies_match_def present_def by (rule refl)
qed

lemma supplies_matchI: "pw s' = pw s \<Longrightarrow> supplies_match s \<Longrightarrow> supplies_match s'"
  using supplies_match_pw by blast

lemma powerup_supplies:
  assumes ok: "regulators_ok E" and m: "supplies_match s" and run: "si4713_powerup E s = Some (r, s')"
  shows "supplies_match s'"
proof (cases "power_state s = 0")
  case False
  then show ?thesis using run m by (simp add: si4713_powerup_def)
next
  case True
  note on = supplies_on_pw [OF ok, of s]
  obtain err resp s4 where
    c: "si4713_send_command E CMD_POWER_UP (powerup_args E) (TIMEOUT_POWER_UP E) (supplies_on E s) = Some (err, resp, s4)"
    and k: "(if err = 0
         then (let s5 = s4\<lparr>power_state := POWER_ON\<rparr>
               in if irq E then si4713_write_property E GPO_IEN (ucast (SI4713_STC_INT E OR SI4713_CTS E)) s5
                  else Some (err, s5))
         else Some (supplies_off E err (set_gpio_reset False s4))) = Some (r, s')"
    using run unfolding powerup_eq [OF ok True] by (auto split: bind_splits)
  have f4: "power_state s4 = 0 \<and> vdd s4 = vdd s \<and> vio s4 = vio s \<and> gpio_reset s4 = gpio_reset s \<and>
      enabled s4 = (\<lambda>r. if present s r then 1 else 0) \<and> reset_level s4 = (gpio_reset s \<or> reset_level s)"
    using pw_bus(1) [OF c] on m True by (simp add: supplies_match_def pw_eqD)
  show ?thesis
  proof (cases "err = 0")
    case True
    then have "pw s' = pw (s4\<lparr>power_state := POWER_ON\<rparr>)"
      using k by (auto simp: Let_def split: if_splits dest: pw_bus(3))
    then show ?thesis
      using f4 by (subst supplies_match_eq) (auto simp: power_on_pw present_def si_consts split: regulator.splits)
  next
    case False
    let ?s5 = "set_gpio_reset False s4"
    have "s' = snd (supplies_off E err ?s5)" using False k by (metis option.inject snd_conv)
    then have "pw s' = (power_state ?s5, vdd ?s5, vio ?s5, gpio_reset ?s5,
        (\<lambda>r. enabled ?s5 r - (if present ?s5 r then 1 else 0)), reset_level ?s5)"
      by (simp add: supplies_off_ok(1) [OF ok])
    then show ?thesis
      using f4 pw_eqD [OF set_gpio_reset_pw [of False s4]]
      by (subst supplies_match_eq) (auto simp: present_def si_consts split: regulator.splits)
  qed
qed

lemma powerdown_supplies:
  assumes ok: "regulators_ok E" and m: "supplies_match s" and run: "si4713_powerdown E s = Some (r, s')"
  shows "supplies_match s'"
proof (cases "power_state s = 0")
  case True
  then show ?thesis using run m by (simp add: si4713_powerdown_def)
next
  case False
  obtain err resp s1 where c: "si4713_send_command E CMD_POWER_DOWN [] (DEFAULT_TIMEOUT E) s = Some (err, resp, s1)"
    and k: "(if err = 0
        then (let (err, s2) = supplies_off E err (set_gpio_reset False s1)
              in Some (err, s2\<lparr>power_state := POWER_OFF\<rparr>))
        else Some (err, s1)) = Some (r, s')"
    using run False unfolding si4713_powerdown_def by (auto split: bind_splits)
  note p1 = pw_bus(1) [OF c]
  then have f1: "vdd s1 = vdd s \<and> vio s1 = vio s \<and> gpio_reset s1 = gpio_reset s \<and>
      enabled s1 = (\<lambda>r. if present s r then 1 else 0)"
    using m False by (auto simp: supplies_match_def pw_def)
  let ?s2 = "set_gpio_reset False s1"
  show ?thesis
  proof (cases "err = 0")
    case True
    then have "s' = (snd (supplies_off E err ?s2))\<lparr>power_state := POWER_OFF\<rparr>"
      using k by (auto simp: Let_def split: prod.splits)
    then show ?thesis
      using f1 pw_eqD [OF set_gpio_reset_pw [of False s1]] pw_eqD [OF supplies_off_ok(1) [OF ok, of err ?s2]]
      by (subst supplies_match_eq) (auto simp: power_on_pw present_def si_consts split: regulator.splits)
  next
    case False
    then show ?thesis using k m supplies_match_pw [OF p1] by simp
  qed
qed

lemma set_power_state_supplies:
  assumes "regulators_ok E" "supplies_match s" "si4713_set_power_state E v s = Some (r, s')"
  shows "supplies_match s'"
  using assms powerup_supplies powerdown_supplies unfolding si4713_set_power_state_def
  by (auto split: if_splits)

text \<open>A small Hoare logic for computations that may fail: every result satisfies the postcondition.\<close>

definition yields :: "('b \<Rightarrow> bool) \<Rightarrow> 'b option \<Rightarrow> bool" where
  "yields P m \<longleftrightarrow> (\<forall>y. m = Some y \<longrightarrow> P y)"

lemma yields_simps [simp]: "yields P None" "yields P (Some y) = P y"
  by (simp_all add: yields_def)

lemma yields_bind: "yields Q m \<Longrightarrow> (\<And>x. Q x \<Longrightarrow> yields P (f x)) \<Longrightarrow> yields P (Option.bind m f)"
  unfolding yields_def by (auto split: bind_splits)

lemma yields_if: "(c \<Longrightarrow> yields P m) \<Longrightarrow> (\<not> c \<Longrightarrow> yields P n) \<Longrightarrow> yields P (if c then m else n)"
  by simp

abbreviation matched :: "int \<times> 'w si4713_device \<Rightarrow> bool" where
  "matched \<equiv> \<lambda>(r, s). supplies_match s"

lemma yields_pw:
  assumes "\<And>r s'. m = Some (r, s') \<Longrightarrow> pw s' = pw s" "supplies_match s"
  shows "yields matched m"
  unfolding yields_def using assms supplies_match_pw by fastforce

lemma yields_ops:
  assumes "supplies_match s"
  shows "yields matched (si4713_set_mute E v s)" "yields matched (si4713_setup E s)"
    "yields matched (s_ctrl_loop E force cs e s)" "yields matched (si4713_checkrev E s)"
  by (rule yields_pw [OF pw_set_mute assms], assumption, rule yields_pw [OF pw_setup assms], assumption,
      rule yields_pw [OF pw_s_ctrl_loop assms], assumption, rule yields_pw [OF pw_checkrev assms], assumption)

lemma yields_power: "regulators_ok E \<Longrightarrow> supplies_match s \<Longrightarrow> yields matched (si4713_set_power_state E v s)"
  unfolding yields_def using set_power_state_supplies by fastforce

lemma s_ctrl_supplies:
  assumes ok: "regulators_ok E" and m: "supplies_match s"
  shows "yields matched (si4713_s_ctrl E c s)"
proof -
  note rule = yields_bind [where Q = matched]
  show ?thesis
    using m unfolding si4713_s_ctrl_def
    by (auto intro!: yields_if rule yields_power [OF ok] yields_ops)
qed

section \<open>Reachable states\<close>

text \<open>The calls the framework makes once the device is probed.\<close>

inductive si_step :: "'w si_env \<Rightarrow> 'w si4713_device \<Rightarrow> 'w si4713_device \<Rightarrow> bool" for E where
  step_s_ctrl: "si4713_s_ctrl E c s = Some (r, s') \<Longrightarrow> si_step E s s'"
| step_set_ctrls: "si_step E s (s\<lparr>cluster := cs\<rparr>)"
| step_s_frequency: "si4713_s_frequency E t f s = Some (r, s') \<Longrightarrow> si_step E s s'"
| step_g_frequency: "si4713_g_frequency E t s = Some (r, v, s') \<Longrightarrow> si_step E s s'"
| step_s_modulator: "si4713_s_modulator E i sub s = Some (r, s') \<Longrightarrow> si_step E s s'"
| step_g_modulator: "si4713_g_modulator E vm s = Some (r, vm', s') \<Longrightarrow> si_step E s s'"
| step_ioctl: "si4713_ioctl E m a s = Some (r, a', s') \<Longrightarrow> si_step E s s'"
| step_world: "si_step E s (s\<lparr>world := w\<rparr>)"

inductive si_reach :: "'w si_env \<Rightarrow> 'w si4713_device \<Rightarrow> bool" for E where
  reach_probe: "si4713_probe E I w = Some (r, undo, Some s) \<Longrightarrow> 0 \<le> r \<Longrightarrow> si_reach E s"
| reach_step: "si_reach E s \<Longrightarrow> si_step E s s' \<Longrightarrow> si_reach E s'"

lemma si_step_supplies:
  assumes "si_step E s s'" "regulators_ok E" "supplies_match s"
  shows "supplies_match s'"
  using assms
proof (cases rule: si_step.cases)
  case (step_s_ctrl c r)
  then show ?thesis using s_ctrl_supplies [OF assms(2,3), of c] by simp
qed (rule supplies_matchI [OF _ assms(3)], simp add: pw_frames)+

lemma initialize_supplies:
  assumes ok: "regulators_ok E" and m: "supplies_match s"
  shows "yields matched (si4713_initialize E s)"
proof -
  note rule = yields_bind [where Q = matched]
  have fin: "supplies_match (t\<lparr>frequency := f, stereo := x, tune_rnl := n\<rparr>) = supplies_match t" for t :: "'a si4713_device" and f x n
    by (rule supplies_match_pw) simp
  show ?thesis
    using m unfolding si4713_initialize_def
    by (auto simp: fin intro!: yields_if rule yields_power [OF ok] yields_ops)
qed

lemma probe_supplies:
  assumes ok: "regulators_ok E" and run: "si4713_probe E I w = Some (r, undo, Some s)"
  shows "supplies_match s"
proof -
  have start: "supplies_match (new_device E I g w)" for g
    by (simp add: supplies_match_def si_consts new_device_def)
  show ?thesis
    using run start initialize_supplies [OF ok start] unfolding si4713_probe_def Let_def yields_def
    by (fastforce split: if_splits sum.splits bind_splits)
qed


section \<open>Bytes and words\<close>

lemma length_c_array [simp]: "length (c_array n xs) = n"
  by (simp add: c_array_def)

lemma nth_c_array: "i < n \<Longrightarrow> i < length xs \<Longrightarrow> c_array n xs ! i = xs ! i"
  by (simp add: c_array_def nth_append)

lemma byte_at_c_array [simp]: "i < n \<Longrightarrow> i < length xs \<Longrightarrow> byte_at (c_array n xs) i = Some (xs ! i)"
  by (simp add: byte_at_def nth_c_array)

lemma compose_msb_lsb [simp]: "compose_u16 (msb x) (lsb x) = x"
proof -
  have m: "(0x00FF :: u16) = mask 8" by (simp add: mask_eq_exp_minus_1)
  show ?thesis
    unfolding compose_u16_def msb_def lsb_def m
    by (rule bit_eqI) (auto simp: bit_simps not_le)
qed

section \<open>Frequency\<close>

text \<open>
  What tuning relies on beyond the clock: the header's sizes fit the driver's buffers, and its
  timeouts are neither zero nor absurdly long.
\<close>

definition tuning_ok :: "'w si_env \<Rightarrow> ('w \<Rightarrow> nat) \<Rightarrow> nat \<Rightarrow> bool" where
  "tuning_ok E us tick \<longleftrightarrow> clock_ok E us tick \<and> recv_ok E \<and>
     (\<forall>c. 0 < cmd_nresp E c \<and> cmd_nargs E c \<le> MAX_ARGS) \<and> 3 \<le> cmd_nargs E CMD_TX_TUNE_FREQ \<and>
     timeout_ok E (DEFAULT_TIMEOUT E) \<and> timeout_ok E (TIMEOUT_TX_TUNE E) \<and>
     TIMEOUT_TX_TUNE E \<le> 2 ^ 20 * tick"

lemma tuning_send_command:
  assumes "tuning_ok E us tick" "length args \<le> MAX_ARGS"
  obtains err resp s' where "si4713_send_command E c args (DEFAULT_TIMEOUT E) s = Some (err, resp, s')"
  using send_command_returns [of E us tick c "DEFAULT_TIMEOUT E" args s] assms unfolding tuning_ok_def by auto

lemma tuning_wait_stc:
  assumes "tuning_ok E us tick"
  obtains err s' where "si4713_wait_stc E (TIMEOUT_TX_TUNE E) s = Some (err, s')"
  using wait_stc_returns [of E us tick "TIMEOUT_TX_TUNE E" s] assms unfolding tuning_ok_def by auto

text \<open>The message that tunes the carrier.\<close>

definition tune_message :: "'w si_env \<Rightarrow> u16 \<Rightarrow> u8 list" where
  "tune_message E f = cmd_code E CMD_TX_TUNE_FREQ # c_array (cmd_nargs E CMD_TX_TUNE_FREQ) [0x00, msb f, lsb f]"

lemma touches_sent: "touches s s' \<Longrightarrow> m \<in> set (sent s) \<Longrightarrow> m \<in> set (sent s')"
  unfolding touches_def by auto

lemma tx_tune_freq_spec:
  assumes ok: "tuning_ok E us tick"
  shows "\<exists>r s'. si4713_tx_tune_freq E f s = Some (r, s') \<and> touches s s' \<and>
     (r < 0 \<or> r = int (unat f)) \<and> (adapter E \<longrightarrow> tune_message E f \<in> set (sent s'))"
proof -
  let ?args = "c_array (cmd_nargs E CMD_TX_TUNE_FREQ) [0x00, msb f, lsb f]"
  have n: "length ?args \<le> MAX_ARGS" "2 < cmd_nargs E CMD_TX_TUNE_FREQ"
    using ok by (simp_all add: tuning_ok_def Suc_le_eq)
  obtain err resp s1 where c: "si4713_send_command E CMD_TX_TUNE_FREQ ?args (DEFAULT_TIMEOUT E) s = Some (err, resp, s1)"
    by (rule tuning_send_command [OF ok n(1)])
  obtain err2 s2 where w: "si4713_wait_stc E (TIMEOUT_TX_TUNE E) s1 = Some (err2, s2)"
    by (rule tuning_wait_stc [OF ok])
  have m: "adapter E \<Longrightarrow> tune_message E f \<in> set (sent s1)"
    using send_command_frame(3) [OF c] by (simp add: tune_message_def)
  note t1 = send_command_frame(2) [OF c] and t2 = wait_stc_frame(2) [OF w]
  have m2: "adapter E \<Longrightarrow> tune_message E f \<in> set (sent s2)" by (rule touches_sent [OF t2 m])
  show ?thesis
    using n c w m m2 t1 touches_trans [OF t1 t2]
    by (auto simp: si4713_tx_tune_freq_def Let_def)
qed

definition in_band :: "u32 \<Rightarrow> bool" where
  "in_band f \<longleftrightarrow> 7600 \<le> f \<and> f \<le> 10800"

lemma unat_ucast_16_32: "unat (ucast (x :: u16) :: u32) = unat x"
proof -
  have "unat x < 2 ^ LENGTH(16)" by (rule unsigned_less)
  then show ?thesis by (simp add: unsigned_ucast_eq take_bit_nat_eq_self)
qed

lemma unat_ucast_32_16: "unat (x :: u32) < 2 ^ 16 \<Longrightarrow> unat (ucast x :: u16) = unat x"
  by (simp add: unsigned_ucast_eq take_bit_nat_eq_self)

lemma clamp_in_band: "in_band (ucast (clamp16 v FREQ_RANGE_LOW FREQ_RANGE_HIGH))"
  unfolding in_band_def clamp16_def FREQ_RANGE_LOW_def FREQ_RANGE_HIGH_def
  by (auto simp: word_le_nat_alt unat_ucast_16_32 min_def max_def)

lemma clamp_id: "in_band x \<Longrightarrow> ucast (clamp16 (ucast x) FREQ_RANGE_LOW FREQ_RANGE_HIGH) = x"
  unfolding in_band_def clamp16_def FREQ_RANGE_LOW_def FREQ_RANGE_HIGH_def
  by (subst word_unat_eq_iff) (auto simp: word_le_nat_alt unat_ucast_16_32 unat_ucast_32_16 min_def max_def)

text \<open>
  C16. Setting a frequency always returns. The request is clamped to the band from 76 to 108 MHz,
  in units of 10 kHz; on success that is the frequency the driver records, and the chip, if it is
  on, has been sent the message that tunes to it. On failure the recorded frequency is the old one.
\<close>

theorem s_frequency_in_band:
  assumes "tuning_ok E us tick"
  shows "\<exists>r s'. si4713_s_frequency E 0 f s = Some (r, s') \<and> r \<le> 0 \<and>
     (r < 0 \<longrightarrow> frequency s' = frequency s) \<and>
     (r = 0 \<longrightarrow> (\<exists>g. in_band (ucast g) \<and> frequency s' = ucast g \<and>
        (power_state s \<noteq> 0 \<and> adapter E \<longrightarrow> tune_message E g \<in> set (sent s')) \<and>
        (in_band (v4l2_to_si4713 f) \<longrightarrow> frequency s' = v4l2_to_si4713 f)))"
proof -
  let ?g = "clamp16 (ucast (v4l2_to_si4713 f)) FREQ_RANGE_LOW FREQ_RANGE_HIGH"
  obtain r s' where t: "si4713_tx_tune_freq E ?g s = Some (r, s')" "touches s s'"
    "r < 0 \<or> r = int (unat ?g)" "adapter E \<longrightarrow> tune_message E ?g \<in> set (sent s')"
    using tx_tune_freq_spec [OF assms] by blast
  show ?thesis
    using t clamp_id [of "v4l2_to_si4713 f"] clamp_in_band [of "ucast (v4l2_to_si4713 f)"]
    by (auto simp: si4713_s_frequency_def Let_def touches_fields)
qed

lemma si4713_to_v4l2_exact: "in_band f \<Longrightarrow> unat (si4713_to_v4l2 f) = unat f * 160"
  unfolding in_band_def si4713_to_v4l2_def FREQDEV_UNIT_def FREQV4L2_MULTI_def
  by (simp add: word_le_nat_alt unat_div unat_word_ariths(2))

lemma v4l2_round_trip: "in_band f \<Longrightarrow> v4l2_to_si4713 (si4713_to_v4l2 f) = f"
  using si4713_to_v4l2_exact [of f]
  unfolding in_band_def v4l2_to_si4713_def FREQDEV_UNIT_def FREQV4L2_MULTI_def
  by (subst word_unat_eq_iff) (simp add: word_le_nat_alt unat_div unat_word_ariths(2))

text \<open>
  The frequency read back is the one that was set: for every frequency of the band, setting it
  (in the framework's units of 62.5 Hz) while the chip is off and reading it again returns the same
  value; the two unit conversions lose nothing.
\<close>

theorem frequency_round_trip:
  assumes "in_band k" "power_state s = 0"
  shows "(do { (r, s1) \<leftarrow> si4713_s_frequency E 0 (si4713_to_v4l2 k) s;
               (r', v, s2) \<leftarrow> si4713_g_frequency E 0 s1; Some (r, r', v) }) =
         Some (0, 0, Some (si4713_to_v4l2 k))"
  using assms by (simp add: si4713_s_frequency_def si4713_g_frequency_def v4l2_round_trip clamp_id)

section \<open>Failures of the power-up\<close>

lemma powerup_error:
  assumes ok: "regulators_ok E" and off: "power_state s = 0" and sup: "vdd s \<or> vio s"
    and err: "si4713_send_command E CMD_POWER_UP (powerup_args E) (TIMEOUT_POWER_UP E) (supplies_on E s) = Some (e, resp, s4)"
      "e \<noteq> 0"
  shows "\<exists>s'. si4713_powerup E s = Some (0, s') \<and> power_state s' = 0"
proof -
  have p4: "pw s4 = pw (supplies_on E s)" by (rule pw_bus(1) [OF err(1)])
  let ?s5 = "set_gpio_reset False s4"
  have f5: "power_state ?s5 = 0" "vdd ?s5 = vdd s" "vio ?s5 = vio s"
    using p4 supplies_on_pw [OF ok, of s] off pw_eqD [OF set_gpio_reset_pw [of False s4]] by (simp_all add: pw_eqD)
  have "si4713_powerup E s = Some (supplies_off E e ?s5)"
    unfolding powerup_eq [OF ok off] using err by simp
  moreover have "fst (supplies_off E e ?s5) = 0" using f5 sup by (simp add: supplies_off_ok(2) [OF ok])
  moreover have "power_state (snd (supplies_off E e ?s5)) = 0"
    using pw_eqD [OF supplies_off_ok(1) [OF ok, of e ?s5]] f5 by simp
  ultimately show ?thesis by (metis prod.collapse)
qed

lemma setup_off:
  assumes "power_state s = 0"
  shows "\<exists>s'. si4713_setup E s = Some (0, s') \<and> power_state s' = 0"
  using assms by (auto simp: si4713_setup_def si4713_s_frequency_def si4713_s_modulator_def Let_def)

text \<open>
  Unmuting reports success when the chip did not power up. If a supply is there and the
  power-up command fails, \<^verbatim>\<open>si4713_powerup\<close> overwrites the error with the result of switching the
  supply off again; the control operation then returns 0 and leaves the chip off.
\<close>

theorem failed_unmute_reports_success:
  assumes ok: "regulators_ok E" and off: "power_state s = 0" and sup: "vdd s \<or> vio s"
    and unmute: "cid c = CID_AUDIO_MUTE" "is_new c" "ctrl_val c = 0" and up: "POWER_UP E \<noteq> 0"
    and err: "si4713_send_command E CMD_POWER_UP (powerup_args E) (TIMEOUT_POWER_UP E) (supplies_on E s) = Some (e, resp, s4)"
      "e \<noteq> 0"
  shows "\<exists>s'. si4713_s_ctrl E c s = Some (0, s') \<and> power_state s' = 0"
proof -
  obtain s1 where s1: "si4713_powerup E s = Some (0, s1)" "power_state s1 = 0"
    using powerup_error [OF ok off sup err] by blast
  obtain s2 where s2: "si4713_setup E s1 = Some (0, s2)" "power_state s2 = 0"
    using setup_off [OF s1(2)] by blast
  show ?thesis
    using s1 s2 unmute up by (simp add: si4713_s_ctrl_def si4713_set_power_state_def si4713_set_mute_def)
qed

text \<open>
  If the second supply cannot be enabled, the first one stays on for good: the power-up returns
  the error with the core supply enabled once more and the power state off, and powering down, now
  or later, does nothing, because the power state says the chip is off.
\<close>

theorem vio_failure_leaves_vdd_on:
  assumes "power_state s = 0" "vdd s" "vio s"
    and "regulator_enable E Vdd (world s) = (0, w1)" "regulator_enable E Vio w1 = (e, w2)" "e \<noteq> 0"
  shows "\<exists>s'. si4713_powerup E s = Some (e, s') \<and> enabled s' Vdd = enabled s Vdd + 1 \<and>
     si4713_powerdown E s' = Some (0, s')"
  using assms by (simp add: si4713_powerup_def si4713_powerdown_def reg_enable_def Let_def)

text \<open>
  A chip of the wrong revision is left powered: if the chip powers up but the revision check
  fails, initialisation returns the error and every supply that is there stays enabled.
\<close>

theorem wrong_chip_stays_powered:
  assumes ok: "regulators_ok E" and m: "supplies_match s"
    and up: "si4713_set_power_state E POWER_ON s = Some (r, s1)" "0 \<le> r" "power_state s1 \<noteq> 0"
    and rev: "si4713_checkrev E s1 = Some (e, s2)" "e < 0"
  shows "si4713_initialize E s = Some (e, s2) \<and> power_state s2 \<noteq> 0 \<and>
     (\<forall>x. enabled s2 x = (if present s2 x then 1 else 0))"
proof -
  have "si4713_initialize E s = Some (e, s2)"
    using up rev by (simp add: si4713_initialize_def)
  moreover have p: "pw s2 = pw s1" by (rule pw_checkrev [OF rev(1)])
  moreover have "supplies_match s2"
    by (rule supplies_matchI [OF p set_power_state_supplies [OF ok m up(1)]])
  moreover have "power_state s2 \<noteq> 0" using up(3) p by (simp add: pw_def)
  ultimately show ?thesis by (simp add: supplies_match_def)
qed

section \<open>Sample environments\<close>

text \<open>
  A chip that answers every command with the same bytes, padded with zeros (\<open>0x81\<close> first is ready
  and tuned), or not at all, on a bus that takes 100 microseconds per message; the world is the time.
\<close>

definition sample_env :: "u8 list \<Rightarrow> int \<Rightarrow> nat si_env" where
  "sample_env answer vio_err =
     \<lparr>irq = False, adapter = True,
      i2c_master_send = (\<lambda>bs w. (int (length bs), w + 100)),
      i2c_master_recv = (\<lambda>n w. (if answer = [] then - EIO else int n, take n (answer @ replicate n 0), w + 100)),
      wait_for_completion_timeout = (\<lambda>_ w. w + 100),
      usleep_range = (\<lambda>lo hi w. w + lo),
      jiffies = (\<lambda>w. of_nat (w div 1000)),
      usecs_to_jiffies = (\<lambda>u. of_nat (u div 1000)),
      jiffies_to_usecs = (\<lambda>j. unat j * 1000),
      regulator_enable = (\<lambda>r w. (if r = Vio then vio_err else 0, w)),
      regulator_disable = (\<lambda>r w. (0, w)),
      cmd_code = (\<lambda>c. case c of CMD_POWER_UP \<Rightarrow> 0x01 | CMD_GET_REV \<Rightarrow> 0x10 | CMD_POWER_DOWN \<Rightarrow> 0x11
        | CMD_SET_PROPERTY \<Rightarrow> 0x12 | CMD_GET_PROPERTY \<Rightarrow> 0x13 | CMD_TX_TUNE_FREQ \<Rightarrow> 0x30
        | CMD_TX_TUNE_POWER \<Rightarrow> 0x31 | CMD_TX_TUNE_MEASURE \<Rightarrow> 0x32 | CMD_TX_TUNE_STATUS \<Rightarrow> 0x33
        | CMD_TX_RDS_BUFF \<Rightarrow> 0x35 | CMD_TX_RDS_PS \<Rightarrow> 0x36 | CMD_GET_INT_STATUS \<Rightarrow> 0x14),
      cmd_nargs = (\<lambda>c. case c of CMD_POWER_UP \<Rightarrow> 2 | CMD_SET_PROPERTY \<Rightarrow> 5 | CMD_GET_PROPERTY \<Rightarrow> 3
        | CMD_TX_TUNE_FREQ \<Rightarrow> 3 | CMD_TX_TUNE_POWER \<Rightarrow> 4 | CMD_TX_TUNE_MEASURE \<Rightarrow> 4
        | CMD_TX_TUNE_STATUS \<Rightarrow> 1 | CMD_TX_RDS_BUFF \<Rightarrow> 7 | CMD_TX_RDS_PS \<Rightarrow> 5 | _ \<Rightarrow> 0),
      cmd_nresp = (\<lambda>c. case c of CMD_GET_REV \<Rightarrow> 9 | CMD_GET_PROPERTY \<Rightarrow> 4 | CMD_TX_TUNE_STATUS \<Rightarrow> 8
        | CMD_TX_RDS_BUFF \<Rightarrow> 6 | _ \<Rightarrow> 1),
      prop_code = (\<lambda>p. case p of TX_COMPONENT_ENABLE \<Rightarrow> 0x2100 | TX_RDS_PI \<Rightarrow> 0x2C01
        | TX_LIMITER_RELEASE_TIME \<Rightarrow> 0x2205 | TX_LINE_INPUT_MUTE \<Rightarrow> 0x2105 | _ \<Rightarrow> 0),
      SI4713_CTS = 0x80, SI4713_ERR = 0x40, SI4713_STC_INT = 0x01, SI4713_PWUP_GPO2OEN = 0x40,
      SI4713_PWUP_FUNC_TX = 0x02, SI4713_PWUP_OPMOD_ANALOG = 0x50, SI4713_PWUP_CTSIEN = 0x80,
      SI4713_PRODUCT_NUMBER = 13, SI4713_MIN_POWER = 88, SI4713_MAX_ANTCAP = 191, SI4713_INTACK_MASK = 1,
      SI4713_RDSBUFF_MODE_MASK = 0x87, SI4713_RDSPS_PSID_MASK = 0x1F, MAX_RDS_PS_NAME = 96,
      DEFAULT_TIMEOUT = 500, TIMEOUT_SET_PROPERTY = 20, TIMEOUT_POWER_UP = 200000, TIMEOUT_TX_TUNE = 110000,
      TIMEOUT_TX_TUNE_POWER = 40000, POWER_UP = 1, POWER_DOWN = 0, ENOIOCTLCMD = 515,
      FMPE_table = [(2, 0), (1, 1), (0, 2)], V4L2_TUNER_SUB_MONO = 1, V4L2_TUNER_SUB_STEREO = 2,
      V4L2_TUNER_SUB_RDS = 16, V4L2_MODULATOR_CAP = 0x13, V4L2_PREEMPHASIS_50_uS = 1, EPROBE_DEFER = 517,
      cluster_order =
        [CID_AUDIO_MUTE, CID_RDS_TX_PI, CID_RDS_TX_PTY, CID_RDS_TX_COMPRESSED, CID_RDS_TX_ARTIFICIAL_HEAD,
         CID_RDS_TX_MONO_STEREO, CID_RDS_TX_TRAFFIC_PROGRAM, CID_RDS_TX_TRAFFIC_ANNOUNCEMENT,
         CID_RDS_TX_MUSIC_SPEECH, CID_RDS_TX_DYNAMIC_PTY, CID_RDS_TX_ALT_FREQS_ENABLE, CID_RDS_TX_ALT_FREQS,
         CID_RDS_TX_DEVIATION, CID_RDS_TX_PS_NAME, CID_RDS_TX_RADIO_TEXT, CID_AUDIO_LIMITER_ENABLED,
         CID_AUDIO_LIMITER_RELEASE_TIME, CID_AUDIO_LIMITER_DEVIATION, CID_AUDIO_COMPRESSION_ENABLED,
         CID_AUDIO_COMPRESSION_GAIN, CID_AUDIO_COMPRESSION_THRESHOLD, CID_AUDIO_COMPRESSION_ATTACK_TIME,
         CID_AUDIO_COMPRESSION_RELEASE_TIME, CID_PILOT_TONE_ENABLED, CID_PILOT_TONE_DEVIATION,
         CID_PILOT_TONE_FREQUENCY, CID_TUNE_PREEMPHASIS, CID_TUNE_POWER_LEVEL, CID_TUNE_ANTENNA_CAPACITOR]\<rparr>"

definition sample_device :: "u8 \<Rightarrow> nat si4713_device" where
  "sample_device p =
     \<lparr>power_state = p, vdd = True, vio = True, gpio_reset = True, frequency = 8800, stereo = 1,
      rds_enabled = 0, tune_rnl = 0xFF, cluster = [], enabled = (\<lambda>_. int (unat p)), reset_level = (p \<noteq> 0),
      sent = [], world = 0\<rparr>"

lemma sample_clock: "clock_ok (sample_env a v) (\<lambda>w. w) 1000"
  by (simp add: clock_ok_def takes_def sample_env_def)

lemma sample_recv: "recv_ok (sample_env a v)"
  by (auto simp: recv_ok_def sample_env_def EIO_def)

lemma sample_tuning: "tuning_ok (sample_env a v) (\<lambda>w. w) 1000"
  using sample_clock sample_recv
  by (auto simp: tuning_ok_def timeout_ok_def MAX_ARGS_def sample_env_def unat_of_nat split: si4713_cmd.splits)

lemma sample_nresp: "cmd_nresp (sample_env a v) c > 0"
  by (cases c) (simp_all add: sample_env_def)

lemma sample_fields:
  "irq (sample_env a v) = False" "adapter (sample_env a v) = True"
  "cmd_nargs (sample_env a v) CMD_POWER_UP = 2" "cmd_nresp (sample_env a v) CMD_GET_REV = 9"
  "cmd_nresp (sample_env a v) CMD_GET_INT_STATUS = 1" "cmd_nargs (sample_env a v) CMD_TX_TUNE_FREQ = 3"
  "SI4713_PRODUCT_NUMBER (sample_env a v) = 13" "SI4713_STC_INT (sample_env a v) = 1"
  "POWER_UP (sample_env a v) = 1" "POWER_DOWN (sample_env a v) = 0" "EPROBE_DEFER (sample_env a v) = 517"
  "i2c_master_send (sample_env a v) bs w = (int (length bs), w + 100)"
  "regulator_enable (sample_env a v) x w = (if x = Vio then v else 0, w)"
  by (simp_all add: sample_env_def)

lemma sample_loop:
  "send_command_loop (sample_env (0x81 # r) v) (Suc k) usecs j s =
     Some (0, 0x81 # take k (r @ replicate (Suc k) 0), s\<lparr>world := world s + 100\<rparr>)"
  by (subst send_command_loop.simps) (simp add: Let_def byte_at_def check_command_failed_def sample_env_def)

lemma sample_send:
  assumes "length args \<le> 7"
  shows "si4713_send_command (sample_env (0x81 # r) v) c args usecs s =
     Some (0, take (cmd_nresp (sample_env (0x81 # r) v) c)
                ((0x81 # r) @ replicate (cmd_nresp (sample_env (0x81 # r) v) c) 0),
           s\<lparr>world := world s + 200, sent := (cmd_code (sample_env (0x81 # r) v) c # args) # sent s\<rparr>)"
proof -
  obtain k where k: "cmd_nresp (sample_env (0x81 # r) v) c = Suc k"
    using sample_nresp [of "0x81 # r" v c] by (metis Suc_pred)
  show ?thesis
    using assms by (simp add: si4713_send_command_def k sample_loop sample_fields Let_def MAX_ARGS_def)
qed

lemma sample_loop_error:
  "send_command_loop (sample_env [] v) k usecs j s = Some (- EIO, [], s\<lparr>world := world s + 100\<rparr>)"
  by (subst send_command_loop.simps) (simp add: Let_def sample_env_def EIO_def)

lemma sample_send_error:
  assumes "length args \<le> 7"
  shows "si4713_send_command (sample_env [] v) c args usecs s =
     Some (- EIO, [], s\<lparr>world := world s + 200, sent := (cmd_code (sample_env [] v) c # args) # sent s\<rparr>)"
  using assms by (simp add: si4713_send_command_def sample_loop_error sample_fields Let_def MAX_ARGS_def)

lemma sample_regulators: "regulators_ok (sample_env a 0)"
  by (simp add: regulators_ok_def sample_env_def)

definition sample_probe :: probe_in where
  "sample_probe = \<lparr>kzalloc_ok = True, get_gpio = Inr True, get_vdd = None, get_vio = None, hdl_error = 0,
     request_irq = 0, has_np = False, pdata_is_platform_device = False, pdev_alloc_ok = True,
     pdev_add_data = 0, pdev_add = 0\<rparr>"

lemma sample_powerup:
  assumes "power_state s = 0"
  shows "\<exists>s'. si4713_powerup (sample_env (0x81 # r) 0) s = Some (0, s') \<and> power_state s' = 1"
  unfolding powerup_eq [OF sample_regulators assms]
  by (simp add: sample_send powerup_args_def sample_fields POWER_ON_def Let_def)

lemma sample_powerdown:
  assumes "power_state s \<noteq> 0"
  shows "\<exists>s'. si4713_powerdown (sample_env (0x81 # r) 0) s = Some (0, s')"
  using assms sample_regulators
  by (auto simp: si4713_powerdown_def sample_send supplies_off_ok(2) split: prod.splits)
    (metis fst_conv supplies_off_ok(2))

lemma sample_checkrev:
  "\<exists>s'. si4713_checkrev (sample_env (0x81 # p # r) v) s = Some (if p = 13 then 0 else - EINVAL, s') \<and>
     power_state s' = power_state s"
  by (auto simp: si4713_checkrev_def sample_send sample_fields byte_at_def)

lemma sample_initialize:
  assumes "power_state s = 0"
  shows "\<exists>s'. si4713_initialize (sample_env [0x81, 13] 0) s = Some (0, s')"
proof -
  obtain s1 where s1: "si4713_powerup (sample_env [0x81, 13] 0) s = Some (0, s1)" "power_state s1 = 1"
    using sample_powerup [OF assms] by blast
  obtain s2 where s2: "si4713_checkrev (sample_env [0x81, 13] 0) s1 = Some (0, s2)" "power_state s2 = 1"
    using sample_checkrev [of 13 "[]" 0 s1] s1(2) by auto
  obtain s3 where s3: "si4713_powerdown (sample_env [0x81, 13] 0) s2 = Some (0, s3)"
    using sample_powerdown [of s2 "[13]"] s2(2) by auto
  show ?thesis
    using s1 s2 s3 by (simp add: si4713_initialize_def si4713_set_power_state_def si_consts)
qed


theorem s_frequency_in_band_witness:
  "\<exists>r s'. si4713_s_frequency (sample_env [0x81] 0) 0 1600000 (sample_device 1) = Some (r, s') \<and> r \<le> 0"
  using s_frequency_in_band [OF sample_tuning, of "[0x81]" 0 1600000 "sample_device 1"] by blast

theorem frequency_round_trip_witness:
  "in_band 8800 \<and>
   (do { (r, s1) \<leftarrow> si4713_s_frequency (sample_env [] 0) 0 (si4713_to_v4l2 8800) (sample_device 0);
         (r', v, s2) \<leftarrow> si4713_g_frequency (sample_env [] 0) 0 s1; Some (r, r', v) }) =
   Some (0, 0, Some (si4713_to_v4l2 8800))"
proof -
  have "in_band 8800" by (simp add: in_band_def)
  then show ?thesis using frequency_round_trip [of 8800 "sample_device 0"] by (simp add: sample_device_def)
qed

lemma sample_off: "supplies_match (sample_device 0)"
  by (simp add: supplies_match_def sample_device_def si_consts)

theorem failed_unmute_reports_success_witness:
  "\<exists>c s'. cid c = CID_AUDIO_MUTE \<and> ctrl_val c = 0 \<and>
     si4713_s_ctrl (sample_env [] 0) c (sample_device 0) = Some (0, s') \<and> power_state s' = 0"
proof -
  let ?c = "\<lparr>cid = CID_AUDIO_MUTE, ctrl_val = 0, is_new = True, p_char = [], p_u32 = []\<rparr>"
  have "length (powerup_args (sample_env [] 0)) \<le> 7" by (simp add: powerup_args_def sample_fields)
  then have "\<exists>s'. si4713_s_ctrl (sample_env [] 0) ?c (sample_device 0) = Some (0, s') \<and> power_state s' = 0"
    by (intro failed_unmute_reports_success [OF sample_regulators _ _ _ _ _ _ sample_send_error])
      (simp_all add: sample_device_def sample_fields EIO_def)
  then show ?thesis by (intro exI [where x = ?c]) simp
qed

theorem vio_failure_leaves_vdd_on_witness:
  "\<exists>s'. si4713_powerup (sample_env [0x81] (- 5)) (sample_device 0) = Some (- 5, s') \<and> enabled s' Vdd = 1"
proof -
  let ?s = "sample_device 0"
  have f: "power_state ?s = 0" "vdd ?s" "vio ?s" "enabled ?s Vdd = 0" by (simp_all add: sample_device_def)
  have "\<exists>s'. si4713_powerup (sample_env [0x81] (- 5)) ?s = Some (- 5, s') \<and> enabled s' Vdd = enabled ?s Vdd + 1 \<and>
      si4713_powerdown (sample_env [0x81] (- 5)) s' = Some (0, s')"
    by (rule vio_failure_leaves_vdd_on [OF f(1,2,3)]) (simp_all add: sample_fields)
  then show ?thesis using f(4) by auto
qed

theorem wrong_chip_stays_powered_witness:
  "\<exists>s2. si4713_initialize (sample_env [0x81, 12] 0) (sample_device 0) = Some (- EINVAL, s2) \<and> power_state s2 \<noteq> 0"
proof -
  let ?E = "sample_env [0x81, 12] 0"
  obtain s1 where s1: "si4713_powerup ?E (sample_device 0) = Some (0, s1)" "power_state s1 = 1"
    using sample_powerup [of "sample_device 0"] by (auto simp: sample_device_def)
  obtain s2 where s2: "si4713_checkrev ?E s1 = Some (- EINVAL, s2)"
    using sample_checkrev [of 12 "[]" 0 s1] by auto
  have "si4713_set_power_state ?E POWER_ON (sample_device 0) = Some (0, s1)"
    using s1 by (simp add: si4713_set_power_state_def POWER_ON_def)
  from wrong_chip_stays_powered [OF sample_regulators sample_off this _ _ s2]
  show ?thesis using s1 by (auto simp: EINVAL_def)
qed

end
