(* ===== verification/Si4713CtrlProps.thy ===== *)
theory Si4713CtrlProps
  imports Si4713Props
begin

text \<open>
  How the values of the controls reach the chip: the tables of release times, the bit fields that
  share a property register, what happens when one control is set and when several are, the
  station name, and the radio text.
\<close>

section \<open>Tables of times\<close>

lemma usecs_to_dev_first:
  assumes "sorted (map snd tab)" "\<exists>p \<in> set tab. u \<le> snd p"
  shows "\<exists>(d, t) \<in> set tab. usecs_to_dev u tab = sint d \<and> u \<le> t \<and>
     (\<forall>(d', t') \<in> set tab. u \<le> t' \<longrightarrow> t \<le> t')"
  using assms
proof (induction tab)
  case (Cons p tab)
  obtain d t where p: "p = (d, t)" by (cases p)
  show ?case
  proof (cases "u \<le> t")
    case True
    then show ?thesis using Cons.prems(1) by (auto simp: p)
  next
    case False
    then have "\<exists>(d, t) \<in> set tab. usecs_to_dev u tab = sint d \<and> u \<le> t \<and>
        (\<forall>(d', t') \<in> set tab. u \<le> t' \<longrightarrow> t \<le> t')"
      using Cons p by (intro Cons.IH) auto
    then show ?thesis using False by (auto simp: p)
  qed
qed simp

lemma usecs_to_dev_none: "(\<forall>p \<in> set tab. snd p < u) \<Longrightarrow> usecs_to_dev u tab = - EINVAL"
  by (induction u tab rule: usecs_to_dev.induct) (auto simp: not_le)

text \<open>
  C28. For both tables of release times the value written to the chip is the one of the shortest
  time the chip supports that is not shorter than the requested one, and a request longer than the
  longest supported time is refused with \<^verbatim>\<open>-EINVAL\<close>.
\<close>

theorem release_time_is_shortest_sufficient:
  assumes "tab = limiter_times \<or> tab = acomp_rtimes"
  shows "(\<exists>(d, t) \<in> set tab. usecs_to_dev u tab = sint d \<and> u \<le> t \<and>
            (\<forall>(d', t') \<in> set tab. u \<le> t' \<longrightarrow> t \<le> t')) \<or>
         (\<forall>p \<in> set tab. snd p < u) \<and> usecs_to_dev u tab = - EINVAL"
proof -
  have "sorted (map snd limiter_times)" "sorted (map snd acomp_rtimes)"
    by (simp_all add: limiter_times_def acomp_rtimes_def)
  then have "sorted (map snd tab)" using assms by blast
  then show ?thesis
    using usecs_to_dev_first [of tab u] usecs_to_dev_none [of tab u] by (meson not_le)
qed

theorem release_time_is_shortest_sufficient_witness:
  "usecs_to_dev 5000 limiter_times = 102 \<and>
   ((\<exists>(d, t) \<in> set limiter_times. usecs_to_dev 5000 limiter_times = sint d \<and> 5000 \<le> t \<and>
       (\<forall>(d', t') \<in> set limiter_times. 5000 \<le> t' \<longrightarrow> t \<le> t')) \<or>
    (\<forall>p \<in> set limiter_times. snd p < 5000) \<and> usecs_to_dev 5000 limiter_times = - EINVAL)"
  using release_time_is_shortest_sufficient [of limiter_times 5000]
  by (simp add: limiter_times_def)

section \<open>Bit fields\<close>

text \<open>The action chosen for a control when it is the first one handled.\<close>

abbreviation action :: "'w si_env \<Rightarrow> ctrl_id \<Rightarrow> econtrol" where
  "action E i \<equiv> snd (si4713_choose_econtrol_action E i econtrol0)"

lemmas action_defs = ec_mul_def ec_bit_def ec_table_def econtrol0_def

lemma set_bits_field:
  assumes "v = take_bit n v" "b + n \<le> 32"
  shows "get_status_bit (set_bits p v b (push_bit b (mask n))) b (push_bit b (mask n)) = v"
    "set_bits p v b (push_bit b (mask n)) AND NOT (push_bit b (mask n)) = p AND NOT (push_bit b (mask n))"
proof -
  have v: "bit v k \<Longrightarrow> k < n \<and> b + k < 32" for k
    using assms by (metis add_less_cancel_left bit_take_bit_iff order_less_le_trans)
  show "get_status_bit (set_bits p v b (push_bit b (mask n))) b (push_bit b (mask n)) = v"
    using assms(2) v by (intro bit_eqI) (auto simp: get_status_bit_def set_bits_def bit_simps)
  show "set_bits p v b (push_bit b (mask n)) AND NOT (push_bit b (mask n)) = p AND NOT (push_bit b (mask n))"
    using assms(2) v by (intro bit_eqI) (auto simp: set_bits_def bit_simps)
qed

text \<open>The width of a flag control's field: five bits for the programme type, one for the others.\<close>

definition field_width :: "ctrl_id \<Rightarrow> nat" where
  "field_width i = (if i = CID_RDS_TX_PTY then 5 else 1)"

lemma flag_mask:
  "emask (action E i) \<noteq> 0 \<Longrightarrow>
   emask (action E i) = push_bit (ebit (action E i)) (mask (field_width i)) \<and> ebit (action E i) + field_width i \<le> 16"
  by (cases i) (simp_all add: action_defs field_width_def mask_eq_exp_minus_1)

definition flag_ids :: "ctrl_id list" where
  "flag_ids = [CID_RDS_TX_PTY, CID_RDS_TX_DYNAMIC_PTY, CID_RDS_TX_COMPRESSED, CID_RDS_TX_ARTIFICIAL_HEAD,
     CID_RDS_TX_MONO_STEREO, CID_RDS_TX_TRAFFIC_PROGRAM, CID_RDS_TX_TRAFFIC_ANNOUNCEMENT,
     CID_RDS_TX_MUSIC_SPEECH, CID_AUDIO_LIMITER_ENABLED, CID_AUDIO_COMPRESSION_ENABLED, CID_PILOT_TONE_ENABLED]"

lemma flag_ids_complete: "emask (action E i) \<noteq> 0 \<Longrightarrow> i \<in> set flag_ids"
  by (cases i) (simp_all add: action_defs flag_ids_def)

lemma flag_masks_disjoint:
  assumes "emask (action E i) \<noteq> 0" "emask (action E j) \<noteq> 0" "i \<noteq> j"
    "eproperty (action E i) = eproperty (action E j)"
  shows "emask (action E i) AND emask (action E j) = 0"
proof -
  have "\<forall>i \<in> set flag_ids. \<forall>j \<in> set flag_ids. i \<noteq> j \<longrightarrow>
      eproperty (action E i) = eproperty (action E j) \<longrightarrow> emask (action E i) AND emask (action E j) = 0"
    by (simp add: flag_ids_def action_defs)
  then show ?thesis using assms flag_ids_complete by blast
qed

text \<open>
  C29. Controls that share a property register do not disturb each other: writing a control's value
  into its field makes the field read that value, keeps every bit outside it, and so keeps the
  field of every other control of the same property.
\<close>

theorem flag_controls_are_independent:
  fixes p :: u32
  assumes flag: "emask (action E i) \<noteq> 0" and fits: "v = take_bit (field_width i) v"
    and other: "emask (action E j) \<noteq> 0" "j \<noteq> i" "eproperty (action E j) = eproperty (action E i)"
  defines "p' \<equiv> set_bits p v (ebit (action E i)) (emask (action E i))"
  shows "get_status_bit p' (ebit (action E i)) (emask (action E i)) = v \<and>
    get_status_bit p' (ebit (action E j)) (emask (action E j)) =
    get_status_bit p (ebit (action E j)) (emask (action E j))"
proof -
  let ?m = "emask (action E i)" and ?n = "emask (action E j)"
  have m: "?m = push_bit (ebit (action E i)) (mask (field_width i))" "ebit (action E i) + field_width i \<le> 32"
    using flag_mask [OF flag] by auto
  have keep: "p' AND NOT ?m = p AND NOT ?m"
    unfolding p'_def m(1) by (rule set_bits_field(2) [OF fits m(2)])
  have disj: "?n AND ?m = 0" by (rule flag_masks_disjoint [OF other(1) flag other(2,3)])
  have "x AND ?n = (x AND NOT ?m) AND ?n" for x :: u32
  proof (rule bit_eqI)
    show "bit (x AND ?n) k \<longleftrightarrow> bit ((x AND NOT ?m) AND ?n) k" if "possible_bit TYPE(u32) k" for k
      using that arg_cong [OF disj, of "\<lambda>x. bit x k"] by (auto simp: bit_simps)
  qed
  then have "p' AND ?n = p AND ?n" using keep by metis
  moreover have "get_status_bit p' (ebit (action E i)) ?m = v"
    unfolding p'_def m(1) by (rule set_bits_field(1) [OF fits m(2)])
  ultimately show ?thesis by (simp add: get_status_bit_def)
qed

theorem flag_controls_are_independent_witness:
  "let p' = set_bits 0xE7E8 1 15 0x8000
   in get_status_bit p' 15 0x8000 = 1 \<and> get_status_bit p' 5 0x3E0 = get_status_bit 0xE7E8 5 0x3E0"
  using flag_controls_are_independent [of "sample_env [] 0" CID_RDS_TX_DYNAMIC_PTY 1 CID_RDS_TX_PTY, where p = "0xE7E8"]
  by (simp add: action_defs field_width_def)

section \<open>Setting controls\<close>

lemma s_ctrl_loop_skip:
  assumes "\<forall>k \<in> set ks. \<not> is_new (cluster s ! k)"
  shows "s_ctrl_loop E False (ks @ cs) e s = s_ctrl_loop E False cs e s"
  using assms by (induction ks) (simp_all add: s_ctrl_one_def)

text \<open>An identifier that is handled by the general case, not by one of its own.\<close>

definition plain_ctrl :: "ctrl_id \<Rightarrow> bool" where
  "plain_ctrl i \<longleftrightarrow> i \<notin> {CID_RDS_TX_PS_NAME, CID_RDS_TX_RADIO_TEXT, CID_TUNE_ANTENNA_CAPACITOR,
     CID_TUNE_POWER_LEVEL, CID_RDS_TX_ALT_FREQS_ENABLE, CID_RDS_TX_ALT_FREQS}"

lemma s_ctrl_one_plain: "is_new c \<Longrightarrow> plain_ctrl (cid c) \<Longrightarrow> s_ctrl_one E force c e s = s_ctrl_default E c e s"
  by (auto simp: s_ctrl_one_def plain_ctrl_def)

text \<open>
  Setting a release time alone writes the value of the table: when the limiter's release time
  is the only new control of the cluster and the chip is on, the operation is one write of the
  chip's release-time property with the table's value, or \<^verbatim>\<open>-EINVAL\<close> and no write.
\<close>

theorem limiter_time_alone:
  assumes on: "power_state s \<noteq> 0"
    and master: "cid c = CID_AUDIO_MUTE" "\<not> is_new c"
    and cl: "cluster s = c # pre @ l # post" "\<forall>d \<in> set (pre @ post). \<not> is_new d"
    and l: "cid l = CID_AUDIO_LIMITER_RELEASE_TIME" "is_new l"
    and w: "si4713_write_property E TX_LIMITER_RELEASE_TIME
              (ucast (of_int (usecs_to_dev (ctrl_val l) limiter_times) :: u32)) s = Some (r, s')"
  shows "si4713_s_ctrl E c s =
     (if usecs_to_dev (ctrl_val l) limiter_times < 0
      then Some (usecs_to_dev (ctrl_val l) limiter_times, s) else Some (r, s'))"
proof -
  let ?n = "length pre"
  have cl': "cluster s' = cluster s"
    by (rule touches_fields(9) [OF write_property_frame(2) [OF w]])
  have ks: "[1..<length (cluster s)] = [1..<Suc ?n] @ [Suc ?n] @ [Suc (Suc ?n)..<length (cluster s)]"
  proof -
    have len: "length (cluster s) = Suc ?n + Suc (length post)" by (simp add: cl(1))
    have "[1..<Suc ?n + Suc (length post)] = [1..<Suc ?n] @ [Suc ?n..<Suc ?n + Suc (length post)]"
      by (rule upt_add_eq_append) simp
    moreover have "[Suc ?n..<Suc ?n + Suc (length post)] = Suc ?n # [Suc (Suc ?n)..<Suc ?n + Suc (length post)]"
      by (rule upt_conv_Cons) simp
    ultimately show ?thesis unfolding len by (simp only: append.simps)
  qed
  have before: "\<forall>k \<in> set [1..<Suc ?n]. \<not> is_new (cluster s ! k)"
    using cl by (auto simp: nth_append nth_Cons' )
  have after: "\<forall>k \<in> set [Suc (Suc ?n)..<length (cluster s)]. \<not> is_new (cluster s ! k)"
    using cl by (auto simp: nth_append nth_Cons')
  have tail: "s_ctrl_loop E False [Suc (Suc ?n)..<length (cluster s)] e s' = Some (0, s')" for e
    using s_ctrl_loop_skip [of _ s' E "[]" e] after cl' by simp
  have at: "cluster s ! Suc ?n = l" using cl(1) by (simp add: nth_append)
  have one: "s_ctrl_one E False l econtrol0 s =
      (if usecs_to_dev (ctrl_val l) limiter_times < 0
       then Some (usecs_to_dev (ctrl_val l) limiter_times, action E (cid l), s)
       else Some (r, action E (cid l), s'))"
    using l w by (simp add: s_ctrl_one_plain plain_ctrl_def s_ctrl_default_def action_defs Let_def)
  have "si4713_s_ctrl E c s = s_ctrl_loop E False [1..<length (cluster s)] econtrol0 s"
    using on master by (simp add: si4713_s_ctrl_def)
  also have "\<dots> = s_ctrl_loop E False (Suc ?n # [Suc (Suc ?n)..<length (cluster s)]) econtrol0 s"
    unfolding ks using s_ctrl_loop_skip [OF before] by simp
  also have "\<dots> = (if usecs_to_dev (ctrl_val l) limiter_times < 0
      then Some (usecs_to_dev (ctrl_val l) limiter_times, s) else Some (r, s'))"
    using tail by (simp add: at one)
  finally show ?thesis .
qed

text \<open>
  Setting the programme identification and the release time in one call writes the wrong
  release time: the multiplier the first control sets is still there when the second one is
  handled, so the requested microseconds go to the chip as they are and the table is not used.
\<close>

theorem limiter_time_after_pi:
  assumes on: "power_state s \<noteq> 0"
    and master: "cid c = CID_AUDIO_MUTE" "\<not> is_new c"
    and cl: "cluster s = [c, p, l]" "is_new p" "is_new l"
    and ids: "cid p = CID_RDS_TX_PI" "cid l = CID_AUDIO_LIMITER_RELEASE_TIME"
    and w: "si4713_write_property E TX_RDS_PI (ucast (ctrl_val p)) s = Some (0, s1)"
  shows "si4713_s_ctrl E c s = si4713_write_property E TX_LIMITER_RELEASE_TIME (ucast (ctrl_val l)) s1"
proof -
  have cl1: "cluster s1 = cluster s"
    by (rule touches_fields(9) [OF write_property_frame(2) [OF w]])
  have "[1..<length (cluster s)] = [1, 2]" by (simp add: cl upt_rec)
  then have "si4713_s_ctrl E c s = s_ctrl_loop E False [1, 2] econtrol0 s"
    using on master by (simp add: si4713_s_ctrl_def)
  also have "\<dots> = do { (r, s2) \<leftarrow> si4713_write_property E TX_LIMITER_RELEASE_TIME (ucast (ctrl_val l)) s1;
      if r = 0 then Some (0, s2) else Some (r, s2) }"
    using cl ids w cl1
    by (cases "si4713_write_property E TX_LIMITER_RELEASE_TIME (ucast (ctrl_val l)) s1")
      (auto simp: s_ctrl_one_plain plain_ctrl_def s_ctrl_default_def action_defs Let_def)
  also have "\<dots> = si4713_write_property E TX_LIMITER_RELEASE_TIME (ucast (ctrl_val l)) s1"
    by (auto split: bind_splits)
  finally show ?thesis .
qed

definition sample_ctrl :: "ctrl_id \<Rightarrow> u32 \<Rightarrow> bool \<Rightarrow> v4l2_ctrl" where
  "sample_ctrl i v n = \<lparr>cid = i, ctrl_val = v, is_new = n, p_char = [], p_u32 = []\<rparr>"

lemma sample_ctrl_simps [simp]:
  "cid (sample_ctrl i v n) = i" "ctrl_val (sample_ctrl i v n) = v" "is_new (sample_ctrl i v n) = n"
  by (simp_all add: sample_ctrl_def)

lemma sample_write:
  "\<exists>s'. si4713_write_property (sample_env (0x81 # r) v) p x s = Some (0, s')"
proof -
  have "cmd_nargs (sample_env (0x81 # r) v) CMD_SET_PROPERTY = 5" by (simp add: sample_env_def)
  then show ?thesis by (simp add: si4713_write_property_def sample_send Let_def)
qed

theorem limiter_time_alone_witness:
  "let c = sample_ctrl CID_AUDIO_MUTE 0 False;
       s = (sample_device 1)\<lparr>cluster := [c, sample_ctrl CID_AUDIO_LIMITER_RELEASE_TIME 5010 True]\<rparr>
   in \<exists>s'. si4713_write_property (sample_env [0x81] 0) TX_LIMITER_RELEASE_TIME 102 s = Some (0, s') \<and>
        si4713_s_ctrl (sample_env [0x81] 0) c s = Some (0, s')"
proof -
  let ?c = "sample_ctrl CID_AUDIO_MUTE 0 False"
  let ?l = "sample_ctrl CID_AUDIO_LIMITER_RELEASE_TIME 5010 True"
  let ?s = "(sample_device 1)\<lparr>cluster := [?c, ?l]\<rparr>"
  have d: "usecs_to_dev 5010 limiter_times = 102" by (simp add: limiter_times_def)
  obtain s' where w: "si4713_write_property (sample_env [0x81] 0) TX_LIMITER_RELEASE_TIME 102 ?s = Some (0, s')"
    using sample_write by blast
  have "si4713_s_ctrl (sample_env [0x81] 0) ?c ?s = Some (0, s')"
    using limiter_time_alone [of ?s ?c "[]" ?l "[]" "sample_env [0x81] 0" 0 s'] w d
    by (simp add: sample_device_def)
  then show ?thesis using w by simp
qed

theorem limiter_time_after_pi_witness:
  "let c = sample_ctrl CID_AUDIO_MUTE 0 False; p = sample_ctrl CID_RDS_TX_PI 0x1234 True;
       s = (sample_device 1)\<lparr>cluster := [c, p, sample_ctrl CID_AUDIO_LIMITER_RELEASE_TIME 5010 True]\<rparr>
   in \<exists>s1. si4713_s_ctrl (sample_env [0x81] 0) c s =
        si4713_write_property (sample_env [0x81] 0) TX_LIMITER_RELEASE_TIME 5010 s1"
proof -
  let ?c = "sample_ctrl CID_AUDIO_MUTE 0 False" and ?p = "sample_ctrl CID_RDS_TX_PI 0x1234 True"
  let ?l = "sample_ctrl CID_AUDIO_LIMITER_RELEASE_TIME 5010 True"
  let ?s = "(sample_device 1)\<lparr>cluster := [?c, ?p, ?l]\<rparr>"
  obtain s1 where "si4713_write_property (sample_env [0x81] 0) TX_RDS_PI 0x1234 ?s = Some (0, s1)"
    using sample_write by blast
  then have "si4713_s_ctrl (sample_env [0x81] 0) ?c ?s =
      si4713_write_property (sample_env [0x81] 0) TX_LIMITER_RELEASE_TIME 5010 s1"
    using limiter_time_after_pi [of ?s ?c ?p ?l "sample_env [0x81] 0" s1] by (simp add: sample_device_def)
  then show ?thesis by auto
qed

section \<open>Radio text\<close>

text \<open>A buffer that holds a text of \<open>n\<close> characters, none of them a carriage return, with room for a block after it.\<close>

definition holds_text :: "u8 list \<Rightarrow> nat \<Rightarrow> bool" where
  "holds_text rt n \<longleftrightarrow> n + 4 \<le> length rt \<and> rt ! n = 0 \<and>
     (\<forall>i < n. rt ! i \<noteq> 0 \<and> rt ! i \<noteq> RDS_CARRIAGE_RETURN)"

lemma holds_text_code:
  "holds_text rt n \<longleftrightarrow> n + 4 \<le> length rt \<and> rt ! n = 0 \<and>
     list_all (\<lambda>c. c \<noteq> 0 \<and> c \<noteq> RDS_CARRIAGE_RETURN) (take n rt)"
  by (auto simp: holds_text_def list_all_length)

lemma holds_text_strlen:
  assumes "holds_text rt n" shows "strlen rt = Some n"
proof -
  have "i \<le> n \<Longrightarrow> strlen (drop i rt) = Some (n - i)" for i
  proof (induction "n - i" arbitrary: i)
    case 0
    then show ?case using assms by (auto simp: holds_text_def Cons_nth_drop_Suc [symmetric])
  next
    case (Suc k)
    then have i: "i < n" by simp
    have "strlen (drop (Suc i) rt) = Some (n - Suc i)" using Suc i by (intro Suc.hyps(1)) auto
    then show ?case using assms i by (auto simp: holds_text_def Cons_nth_drop_Suc [symmetric] Suc_diff_Suc)
  qed
  from this [of 0] show ?thesis by simp
qed

lemma scan_block_text:
  assumes "holds_text rt n" "t \<le> n"
  shows "t + k \<le> n + 4 \<Longrightarrow> scan_block rt t k = Some (n < t + k)"
  using assms(2)
proof (induction k arbitrary: t)
  case (Suc k)
  show ?case
  proof (cases "t = n")
    case True
    then show ?thesis using assms(1) by (simp add: byte_at_def holds_text_def)
  next
    case False
    then have "scan_block rt (Suc t) k = Some (n < Suc t + k)" using Suc by (intro Suc.IH) auto
    then show ?thesis using assms(1) False Suc.prems by (auto simp: byte_at_def holds_text_def)
  qed
qed simp

text \<open>The chip takes every block and reports that there is room for more.\<close>

definition takes_blocks :: "'w si_env \<Rightarrow> bool" where
  "takes_blocks E \<longleftrightarrow> (\<forall>m b c d l s. \<exists>l' s'. si4713_tx_rds_buff E m b c d l s = Some (0, l', s') \<and> 0 < sint l')"

lemma byte_at_text: "holds_text rt n \<Longrightarrow> i < n + 4 \<Longrightarrow> byte_at rt i = Some (rt ! i)"
  by (simp add: byte_at_def holds_text_def)

lemma radio_text_loop_overruns:
  assumes ok: "takes_blocks E" and rt: "holds_text rt n" and n: "n < 60"
  shows "0 < k \<Longrightarrow> 4 * k \<le> n \<Longrightarrow> rds_radio_text_loop E rt (of_nat (4 * k)) b l s = None"
proof (induction "n - 4 * k" arbitrary: k b l s rule: less_induct)
  case less
  have "unat (of_nat (4 * k) :: u16) = 4 * k mod 2 ^ 16" by (simp only: unat_of_nat) simp
  then have t: "unat (4 * of_nat k :: u16) = 4 * k" using less.prems n by simp
  have scan: "scan_block rt (4 * k) RDS_RADIOTEXT_BLK_SIZE = Some (n < 4 * k + 4)"
    using scan_block_text [OF rt less.prems(2), of 4] less.prems by (simp add: RDS_RADIOTEXT_BLK_SIZE_def)
  have small: "4 * k < RDS_RADIOTEXT_INDEX_MAX * RDS_RADIOTEXT_BLK_SIZE"
    using less.prems n by (simp add: si_consts)
  show ?case
  proof (cases "n < 4 * k + 4")
    case True
    have "byte_at cr (4 * k) = None" using less.prems(1) by (simp add: byte_at_def cr_def)
    then show ?thesis using True small scan by (subst rds_radio_text_loop.simps) (simp add: t)
  next
    case False
    have bytes: "byte_at rt (4 * k + i) = Some (rt ! (4 * k + i))" if "i < 4" for i
      using that False by (intro byte_at_text [OF rt]) simp
    obtain l' s' where call: "si4713_tx_rds_buff E RDS_BLOCK_LOAD (compose_u16 RDS_RADIOTEXT_2A b)
        (compose_u16 (rt ! (4 * k)) (rt ! (4 * k + 1))) (compose_u16 (rt ! (4 * k + 2)) (rt ! (4 * k + 3))) l s =
        Some (0, l', s')" "0 < sint l'"
      using ok unfolding takes_blocks_def by blast
    have "rds_radio_text_loop E rt (of_nat (4 * Suc k)) (b + 1) l' s' = None"
      using False less.prems by (intro less.hyps) simp_all
    then show ?thesis
      using False small scan bytes [of 0] bytes [of 1] bytes [of 2] bytes [of 3] call
      by (subst rds_radio_text_loop.simps) (simp add: t RDS_RADIOTEXT_BLK_SIZE_def add.commute)
  qed
qed

lemma first_block:
  assumes ok: "takes_blocks E" and rt: "holds_text rt n" and n: "4 \<le> n"
  obtains b l' s' where "rds_radio_text_loop E rt 0 0 l s = rds_radio_text_loop E rt (of_nat (4 * 1)) b l' s'"
proof -
  have scan: "scan_block rt 0 RDS_RADIOTEXT_BLK_SIZE = Some False"
    using scan_block_text [OF rt, of 0 4] n by (simp add: RDS_RADIOTEXT_BLK_SIZE_def)
  obtain l' s' where call: "si4713_tx_rds_buff E RDS_BLOCK_LOAD (compose_u16 RDS_RADIOTEXT_2A 0)
      (compose_u16 (rt ! 0) (rt ! 1)) (compose_u16 (rt ! 2) (rt ! 3)) l s = Some (0, l', s')" "0 < sint l'"
    using ok unfolding takes_blocks_def by blast
  have "rds_radio_text_loop E rt 0 0 l s = rds_radio_text_loop E rt (of_nat (4 * 1)) 1 l' s'"
    using scan call byte_at_text [OF rt, of 0] byte_at_text [OF rt, of 1] byte_at_text [OF rt, of 2]
      byte_at_text [OF rt, of 3] n
    by (subst rds_radio_text_loop.simps) (simp add: si_consts numeral_2_eq_2 [symmetric])
  then show thesis by (rule that)
qed

text \<open>
  C30. Every radio text of 4 to 59 characters makes the driver read outside an array. At the block
  with the end of the text the code switches the text pointer to the four-byte array that holds a
  carriage return, and reads it at the index of the block in the text.
\<close>

theorem radio_text_overruns:
  assumes "takes_blocks E" "power_state s \<noteq> 0" "holds_text rt n" "4 \<le> n" "n < 60"
  shows "si4713_set_rds_radio_text E rt s = None"
proof -
  obtain l s1 where clear: "si4713_tx_rds_buff E RDS_BLOCK_CLEAR 0 0 0 0 s = Some (0, l, s1)"
    using assms(1) unfolding takes_blocks_def by blast
  obtain b l' s' where "rds_radio_text_loop E rt 0 0 l s1 = rds_radio_text_loop E rt (of_nat (4 * 1)) b l' s'"
    by (rule first_block [OF assms(1,3,4)])
  also have "\<dots> = None" using assms by (intro radio_text_loop_overruns) simp_all
  finally show ?thesis
    using assms clear holds_text_strlen [OF assms(3)] by (simp add: si4713_set_rds_radio_text_def)
qed

text \<open>
  Radio texts of one to three characters are never transmitted: the driver does exactly the
  same for any two of them (it sends one block with a carriage return).
\<close>

theorem short_radio_texts_are_lost:
  assumes "holds_text rt n" "0 < n" "n < 4" "holds_text rt' n'" "0 < n'" "n' < 4"
  shows "si4713_set_rds_radio_text E rt s = si4713_set_rds_radio_text E rt' s"
proof -
  have loop: "rds_radio_text_loop E t 0 0 l s1 =
      do { (r, _, s2) \<leftarrow> si4713_tx_rds_buff E RDS_BLOCK_LOAD (compose_u16 RDS_RADIOTEXT_2A 0)
             (compose_u16 RDS_CARRIAGE_RETURN 0) (compose_u16 0 0) l s1;
           Some (r, s2) }" if "holds_text t m" "0 < m" "m < 4" for t m l s1
    using scan_block_text [OF that(1), of 0 4] that
    by (subst rds_radio_text_loop.simps) (simp add: si_consts cr_def byte_at_def cong: if_cong)
  show ?thesis
    using assms holds_text_strlen loop [OF assms(1,2,3)] loop [OF assms(4,5,6)]
    by (simp add: si4713_set_rds_radio_text_def cong: if_cong)
qed

lemma sample_takes_blocks: "takes_blocks (sample_env [0x81, 0, 10, 2] 0)"
proof -
  have "cmd_nargs (sample_env [0x81, 0, 10, 2] 0) CMD_TX_RDS_BUFF = 7"
    "cmd_nresp (sample_env [0x81, 0, 10, 2] 0) CMD_TX_RDS_BUFF = 6" by (simp_all add: sample_env_def)
  then show ?thesis
    by (simp add: takes_blocks_def si4713_tx_rds_buff_def sample_send byte_at_def)
qed

theorem radio_text_overruns_witness:
  "si4713_set_rds_radio_text (sample_env [0x81, 0, 10, 2] 0) [72, 101, 108, 108, 111, 0, 0, 0, 0] (sample_device 1) = None"
proof (rule radio_text_overruns [OF sample_takes_blocks])
  show "holds_text [72, 101, 108, 108, 111, 0, 0, 0, 0] 5"
    by (simp add: holds_text_code RDS_CARRIAGE_RETURN_def)
qed (simp_all add: sample_device_def)

theorem short_radio_texts_are_lost_witness:
  "si4713_set_rds_radio_text (sample_env [] 0) [72, 105, 0, 0, 0, 0] (sample_device 1) =
   si4713_set_rds_radio_text (sample_env [] 0) [79, 107, 33, 0, 0, 0, 0] (sample_device 1)"
proof (rule short_radio_texts_are_lost)
  show "holds_text [72, 105, 0, 0, 0, 0] 2" "holds_text [79, 107, 33, 0, 0, 0, 0] 3"
    by (simp_all add: holds_text_code RDS_CARRIAGE_RETURN_def)
qed simp_all

section \<open>Station name and power level\<close>

text \<open>
  The message that loads one half block of the station name, and the messages of a whole name.
\<close>

definition ps_message :: "'w si_env \<Rightarrow> u8 list \<Rightarrow> nat \<Rightarrow> u8 list" where
  "ps_message E name i = cmd_code E CMD_TX_RDS_PS # (of_nat (i div 4) AND SI4713_RDSPS_PSID_MASK E) # take 4 (drop i name)"

lemma tx_rds_ps_message:
  assumes n: "cmd_nargs E CMD_TX_RDS_PS = 5" and a: "adapter E"
    and run: "si4713_tx_rds_ps E (of_nat (i div 4)) (drop i name) s = Some (r, s')"
  shows "i + 4 \<le> length name \<and> sent s' = ps_message E name i # sent s"
proof -
  have len: "i + 4 \<le> length name"
    using run by (simp add: si4713_tx_rds_ps_def byte_at_def split: bind_splits if_splits)
  have at: "byte_at (drop i name) k = Some (name ! (i + k))" if "k < 4" for k
    using that len by (simp add: byte_at_def)
  have "take 4 (drop i name) = map (\<lambda>k. name ! (i + k)) [0..<4]"
    using len by (intro nth_equalityI) auto
  also have "[0..<4] = [0, 1, 2, 3 :: nat]" by (simp add: upt_rec)
  finally have t4: "take 4 (drop i name) = [name ! (i + 0), name ! (i + 1), name ! (i + 2), name ! (i + 3)]" by simp
  have c5: "c_array 5 [a, b, c, d, e] = [a, b, c, d, e]" for a b c d e
    by (simp add: c_array_def)
  obtain resp where "si4713_send_command E CMD_TX_RDS_PS
      ((of_nat (i div 4) AND SI4713_RDSPS_PSID_MASK E) # take 4 (drop i name)) (DEFAULT_TIMEOUT E) s = Some (r, resp, s')"
    using run unfolding si4713_tx_rds_ps_def t4
    by (auto simp: at [of 0] at [of 1] at [of 2] at [of 3] n c5 simp del: One_nat_def add_0_right split: bind_splits)
  from send_command_frame(3) [OF this a] show ?thesis using len by (simp add: ps_message_def)
qed

lemma rds_ps_loop_messages:
  assumes "cmd_nargs E CMD_TX_RDS_PS = 5" "adapter E"
  shows "rds_ps_loop E is rv name s = Some (r, s') \<Longrightarrow> 0 \<le> r \<Longrightarrow> 0 \<le> rv \<Longrightarrow>
     sent s' = rev (map (ps_message E name) is) @ sent s"
proof (induction "is" arbitrary: rv s)
  case (Cons i "is")
  obtain r1 s1 where c: "si4713_tx_rds_ps E (of_nat (i div 4)) (drop i name) s = Some (r1, s1)"
    and k: "(if r1 < 0 then Some (r1, s1) else rds_ps_loop E is r1 name s1) = Some (r, s')"
    using Cons.prems(1) by (auto simp: RDS_BLOCK_def split: bind_splits)
  have r1: "\<not> r1 < 0" using k Cons.prems(2) by (auto split: if_splits)
  have "sent s' = rev (map (ps_message E name) is) @ sent s1"
    using k r1 Cons.prems(2) by (intro Cons.IH [of r1]) auto
  then show ?case using tx_rds_ps_message [OF assms c] by simp
qed simp

lemma concat_chunks: "concat (map (\<lambda>k. take 4 (drop (k * 4) xs)) [0..<n]) = take (n * 4) xs"
proof (induction n)
  case (Suc n)
  have "take (Suc n * 4) xs = take (n * 4) xs @ take 4 (drop (n * 4) xs)"
    using take_add [of "n * 4" 4 xs] by (simp add: add.commute)
  then show ?case using Suc by simp
qed simp

text \<open>
  C31. Loading a station name sends it whole: where the load of all half blocks succeeds, the
  messages sent are one per half block, in order, and the characters they carry are exactly the
  first 96 of the buffer (the maximal length of a name).
\<close>

theorem station_name_is_sent_whole:
  assumes "cmd_nargs E CMD_TX_RDS_PS = 5" "adapter E" "MAX_RDS_PS_NAME E = 96"
    and "rds_ps_loop E (ps_indices E) 0 name s = Some (r, s')" "0 \<le> r"
  shows "\<exists>msgs. sent s' = rev msgs @ sent s \<and> length msgs = 24 \<and> concat (map (drop 2) msgs) = take 96 name"
proof -
  let ?msgs = "map (ps_message E name) (ps_indices E)"
  have i: "ps_indices E = map (\<lambda>k. k * 4) [0..<24]" using assms(3) by (simp add: ps_indices_def RDS_BLOCK_def)
  have "sent s' = rev ?msgs @ sent s" using rds_ps_loop_messages [OF assms(1,2,4,5)] by simp
  moreover have "concat (map (drop 2) ?msgs) = take 96 name"
    using concat_chunks [of name 24] by (simp add: i ps_message_def comp_def del: upt_Suc)
  ultimately show ?thesis by (intro exI [where x = ?msgs]) (simp add: i del: upt_Suc)
qed

text \<open>
  The power level sent to the chip is off (0) or at least the chip's minimum: levels from one to
  just below the minimum are raised to it, all others go out as asked, with the antenna capacitance.
\<close>

theorem tune_power_level:
  assumes "cmd_nargs E CMD_TX_TUNE_POWER = 4" "adapter E"
    and "si4713_tx_tune_power E p a s = Some (r, s')"
  shows "[cmd_code E CMD_TX_TUNE_POWER, 0, 0, if p = 0 then 0 else max p (SI4713_MIN_POWER E), a] \<in> set (sent s')"
proof -
  define q where "q = (if p > 0 \<and> p < SI4713_MIN_POWER E then SI4713_MIN_POWER E else p)"
  have c4: "c_array 4 [0, 0, q, a] = [0, 0, q, a]" by (simp add: c_array_def)
  obtain err resp s1 where c: "si4713_send_command E CMD_TX_TUNE_POWER [0, 0, q, a] (DEFAULT_TIMEOUT E) s = Some (err, resp, s1)"
    and k: "(if err < 0 then Some (err, s1) else si4713_wait_stc E (TIMEOUT_TX_TUNE_POWER E) s1) = Some (r, s')"
    using assms(3) unfolding si4713_tx_tune_power_def Let_def assms(1) q_def [symmetric] c4 by (auto split: bind_splits)
  have "touches s1 s'" using k wait_stc_frame(2) by (cases "err < 0") auto
  moreover have "[cmd_code E CMD_TX_TUNE_POWER, 0, 0, q, a] \<in> set (sent s1)"
    by (simp add: send_command_frame(3) [OF c assms(2)])
  ultimately have "[cmd_code E CMD_TX_TUNE_POWER, 0, 0, q, a] \<in> set (sent s')" by (rule touches_sent)
  moreover have "q = (if p = 0 then 0 else max p (SI4713_MIN_POWER E))"
    unfolding q_def by (auto simp: word_gt_0 max_def)
  ultimately show ?thesis by simp
qed

theorem station_name_is_sent_whole_witness:
  "\<exists>msgs s'. rds_ps_loop (sample_env [0x81] 0) (ps_indices (sample_env [0x81] 0)) 0 (replicate 97 65) (sample_device 1) =
       Some (0, s') \<and> sent s' = rev msgs \<and> concat (map (drop 2) msgs) = replicate 96 65"
proof -
  let ?E = "sample_env [0x81] 0" and ?name = "replicate 97 65"
  have n: "cmd_nargs ?E CMD_TX_RDS_PS = 5" "MAX_RDS_PS_NAME ?E = 96" by (simp_all add: sample_env_def)
  have ps: "\<exists>t'. si4713_tx_rds_ps ?E psid (drop i ?name) t = Some (0, t')" if "i + 4 \<le> 97" for i psid t
    using that n by (simp add: si4713_tx_rds_ps_def byte_at_def sample_send)
  have "\<exists>t'. rds_ps_loop ?E is 0 ?name t = Some (0, t')" if "\<forall>i \<in> set is. i + 4 \<le> 97" for "is" t
    using that
  proof (induction "is" arbitrary: t)
    case (Cons i "is")
    obtain t1 where "si4713_tx_rds_ps ?E (of_nat (i div (RDS_BLOCK div 2))) (drop i ?name) t = Some (0, t1)"
      using ps Cons.prems by fastforce
    then show ?case using Cons by simp
  qed simp
  moreover have "\<forall>i \<in> set (ps_indices ?E). i + 4 \<le> 97" using n by (auto simp: ps_indices_def RDS_BLOCK_def)
  ultimately obtain s' where run: "rds_ps_loop ?E (ps_indices ?E) 0 ?name (sample_device 1) = Some (0, s')" by blast
  obtain msgs where "sent s' = rev msgs @ sent (sample_device 1)" "concat (map (drop 2) msgs) = take 96 ?name"
    using station_name_is_sent_whole [OF n(1) _ n(2) run] by (auto simp: sample_fields)
  then show ?thesis
    using run by (intro exI [where x = msgs] exI [where x = s']) (simp add: sample_device_def)
qed

theorem tune_power_level_witness:
  "\<exists>s'. si4713_tx_tune_power (sample_env [0x81] 0) 20 0 (sample_device 1) = Some (0, s') \<and>
     [0x31, 0, 0, 88, 0] \<in> set (sent s')"
proof -
  let ?E = "sample_env [0x81] 0"
  have f: "cmd_nargs ?E CMD_TX_TUNE_POWER = 4" "cmd_code ?E CMD_TX_TUNE_POWER = 0x31" "SI4713_MIN_POWER ?E = 88"
    by (simp_all add: sample_env_def)
  have stc: "\<exists>t'. si4713_wait_stc ?E u t = Some (0, t')" for u t
  proof -
    have "\<exists>t'. wait_stc_loop ?E u j t = Some (0, t')" for j
      by (subst wait_stc_loop.simps) (simp add: sample_send sample_fields byte_at_def)
    then show ?thesis by (simp add: si4713_wait_stc_def Let_def sample_fields)
  qed
  obtain s' where run: "si4713_tx_tune_power ?E 20 0 (sample_device 1) = Some (0, s')"
    using stc by (fastforce simp: si4713_tx_tune_power_def sample_send f)
  show ?thesis using tune_power_level [OF f(1) _ run] run by (simp add: f sample_fields max_def)
qed

end
