(* ===== verification/LibList.thy ===== *)
theory LibList
  imports Prelude
begin

text \<open>
  The intrusive circular lists of \<^verbatim>\<open>include/nuttx/list.h\<close> and \<^verbatim>\<open>libc/misc/lib_list.c\<close>.
  The store gives every node its \<^verbatim>\<open>prev\<close> and \<^verbatim>\<open>next\<close> pointer, and the operations are
  the source's assignments in the source's order. The predicate \<open>ring\<close> relates a head
  node to the sequence of nodes linked behind it; the lemmas show that the pointer
  operations act on that sequence as append, removal, emptiness test and traversal.
\<close>

section \<open>Model\<close>

record 'p links =
  prev :: "'p \<Rightarrow> 'p"
  "next" :: "'p \<Rightarrow> 'p"

definition set_prev :: "'p \<Rightarrow> 'p \<Rightarrow> 'p links \<Rightarrow> 'p links" where
  "set_prev p q L = L\<lparr>prev := (prev L)(p := q)\<rparr>"

definition set_next :: "'p \<Rightarrow> 'p \<Rightarrow> 'p links \<Rightarrow> 'p links" where
  "set_next p q L = L\<lparr>next := (next L)(p := q)\<rparr>"

definition list_init :: "'p \<Rightarrow> 'p links \<Rightarrow> 'p links" where
  "list_init head L = set_prev head head (set_next head head L)"

definition list_is_empty :: "'p \<Rightarrow> 'p links \<Rightarrow> bool" where
  "list_is_empty head L \<longleftrightarrow> head = next L head"

definition list_add :: "'p \<Rightarrow> 'p \<Rightarrow> 'p links \<Rightarrow> 'p links" where
  "list_add head node L =
     (let L1 = set_next node head L;
          L2 = set_prev node (prev L1 head) L1;
          L3 = set_next (prev L2 head) node L2
      in set_prev head node L3)"

definition list_del :: "'p \<Rightarrow> 'p links \<Rightarrow> 'p links" where
  "list_del head L =
     (let L1 = set_next (prev L head) (next L head) L;
          L2 = set_prev (next L1 head) (prev L1 head) L1;
          L3 = set_next head head L2
      in set_prev head head L3)"

text \<open>
  \<^verbatim>\<open>list_foreach\<close> follows \<^verbatim>\<open>next\<close> until it is back at the head, which a damaged list
  never is; the loop of \<^verbatim>\<open>list_count\<close> is therefore a partial function.
\<close>

partial_function (option) list_count_from :: "'p links \<Rightarrow> 'p \<Rightarrow> 'p \<Rightarrow> nat \<Rightarrow> nat option" where
  "list_count_from L head iter count =
     (if iter = head then Some count
      else list_count_from L head (next L iter) (Suc count))"

definition list_count :: "'p \<Rightarrow> 'p links \<Rightarrow> nat option" where
  "list_count head L = list_count_from L head (next L head) 0"

section \<open>The sequence behind a head\<close>

fun linked :: "'p links \<Rightarrow> 'p list \<Rightarrow> bool" where
  "linked L (x # y # zs) \<longleftrightarrow> next L x = y \<and> prev L y = x \<and> linked L (y # zs)"
| "linked L _ \<longleftrightarrow> True"

definition ring :: "'p links \<Rightarrow> 'p \<Rightarrow> 'p list \<Rightarrow> bool" where
  "ring L head xs \<longleftrightarrow> distinct (head # xs) \<and> linked L (head # xs @ [head])"

lemma linked_append:
  "linked L (xs @ y # zs) \<longleftrightarrow> linked L (xs @ [y]) \<and> linked L (y # zs)"
proof (induction xs)
  case Nil
  then show ?case by simp
next
  case (Cons x xs)
  then show ?case by (cases xs) auto
qed

lemma linked_snoc2:
  "linked L (xs @ [x, y]) \<longleftrightarrow> linked L (xs @ [x]) \<and> next L x = y \<and> prev L y = x"
  using linked_append [of L xs x "[y]"] by simp

text \<open>Updates outside a chain leave it alone; \<^verbatim>\<open>next\<close> of its last and \<^verbatim>\<open>prev\<close> of its
  first node are outside.\<close>

lemma linked_set_next:
  "p \<notin> set (butlast xs) \<Longrightarrow> linked (set_next p q L) xs = linked L xs"
  by (induction L xs rule: linked.induct) (auto simp: set_next_def)

lemma linked_set_prev:
  "p \<notin> set (tl xs) \<Longrightarrow> linked (set_prev p q L) xs = linked L xs"
  by (induction L xs rule: linked.induct) (auto simp: set_prev_def)

lemma set_next_simps [simp]:
  "next (set_next p q L) = (next L)(p := q)" "prev (set_next p q L) = prev L"
  by (simp_all add: set_next_def)

lemma set_prev_simps [simp]:
  "prev (set_prev p q L) = (prev L)(p := q)" "next (set_prev p q L) = next L"
  by (simp_all add: set_prev_def)

lemma ring_prev: "ring L head xs \<Longrightarrow> prev L head = last (head # xs)"
proof (cases xs rule: rev_cases)
  case Nil
  moreover assume "ring L head xs"
  ultimately show ?thesis by (simp add: ring_def)
next
  case (snoc ys y)
  moreover assume "ring L head xs"
  ultimately show ?thesis
    using linked_snoc2 [of L "head # ys" y head] by (simp add: ring_def)
qed

lemma ring_next: "ring L head xs \<Longrightarrow> next L head = hd (xs @ [head])"
  by (cases xs) (auto simp: ring_def)

lemma ring_init: "ring (list_init head L) head []"
  by (simp add: ring_def list_init_def)

lemma ring_empty_iff: "ring L head xs \<Longrightarrow> list_is_empty head L \<longleftrightarrow> xs = []"
  by (cases xs) (auto simp: ring_def list_is_empty_def)

text \<open>A chain is determined by the links inside it.\<close>

lemma linked_cong:
  assumes "\<And>x. x \<in> set (butlast xs) \<Longrightarrow> next L' x = next L x"
    and "\<And>x. x \<in> set (tl xs) \<Longrightarrow> prev L' x = prev L x"
  shows "linked L' xs = linked L xs"
  using assms by (induction L xs rule: linked.induct) auto

lemma ring_cong:
  assumes "\<And>x. x \<in> set (head # xs) \<Longrightarrow> next L' x = next L x \<and> prev L' x = prev L x"
  shows "ring L' head xs = ring L head xs"
proof -
  have "linked L' (head # xs @ [head]) = linked L (head # xs @ [head])"
    by (rule linked_cong) (use assms in \<open>auto simp: butlast_append split: if_splits\<close>)
  then show ?thesis by (simp add: ring_def)
qed

lemma ring_add:
  assumes "ring L head xs" and "node \<notin> set (head # xs)"
  shows "ring (list_add head node L) head (xs @ [node])"
proof -
  obtain as l where split: "head # xs = as @ [l]"
    by (metis append_butlast_last_id list.distinct(1))
  from assms have pl: "prev L head = l" and dist: "distinct (as @ [l])"
    using ring_prev [OF assms(1)] split by (auto simp: ring_def)
  have chain: "linked L (as @ [l])"
    using assms(1) linked_snoc2 [of L as l head] split
    by (metis append.assoc append_Cons append_Nil ring_def)
  let ?L = "list_add head node L"
  have nx: "next ?L = (next L)(node := head, l := node)"
    and pv: "prev ?L = (prev L)(node := l, head := node)"
    using assms(2) pl by (auto simp: list_add_def Let_def)
  have "linked ?L (as @ [l]) = linked L (as @ [l])"
  proof (rule linked_cong)
    fix x
    show "x \<in> set (butlast (as @ [l])) \<Longrightarrow> next ?L x = next L x"
      using assms(2) dist split by (auto simp: nx)
    show "x \<in> set (tl (as @ [l])) \<Longrightarrow> prev ?L x = prev L x"
      using assms by (auto simp: pv ring_def simp flip: split)
  qed
  moreover have "node \<noteq> head" "l \<noteq> node"
    using assms(2) arg_cong [OF split, of set] by auto
  ultimately have "linked ?L (as @ [l, node, head])"
    using chain linked_append [of ?L as l "[node, head]"] by (simp add: nx pv)
  then have "linked ?L (head # (xs @ [node]) @ [head])"
    using split by (metis append.assoc append_Cons append_Nil)
  with assms show ?thesis by (auto simp: ring_def)
qed

lemma ring_del:
  assumes "ring L head (xs @ node # ys)"
  shows "ring (list_del node L) head (xs @ ys)"
    and "ring (list_del node L) node []"
proof -
  obtain as l where as: "head # xs = as @ [l]"
    by (metis append_butlast_last_id list.distinct(1))
  obtain r bs where bs: "ys @ [head] = r # bs"
    by (cases "ys @ [head]") auto
  from assms have full: "linked L (as @ l # node # r # bs)"
    using as bs by (simp add: ring_def) (metis append.assoc append_Cons append_Nil)
  then have parts: "linked L (as @ [l])" "next L l = node" "prev L node = l"
    "next L node = r" "prev L r = node" "linked L (r # bs)"
    using linked_append [of L as l "node # r # bs"] by auto
  have bl: "butlast (r # bs) = ys" and sets: "set (as @ [l]) = set (head # xs)"
    "set (r # bs) = set (ys @ [head])"
    using as bs by (metis butlast_snoc, metis, metis)
  from assms have d: "distinct (head # xs @ node # ys)" by (simp add: ring_def)
  then have dist: "distinct (as @ [l])" using as by (metis distinct.simps(2) distinct_append
        Un_iff set_append)
  from d have out: "node \<notin> set (as @ [l])" "node \<notin> set (r # bs)"
    and inter: "set (as @ [l]) \<inter> set (butlast (r # bs)) = {}"
    unfolding sets bl by auto
  let ?L = "list_del node L"
  have nx: "next ?L = (next L)(l := r, node := node)"
    and pv: "prev ?L = (prev L)(r := l, node := node)"
    using parts out by (auto simp: list_del_def Let_def)
  show "ring ?L node []" by (simp add: ring_def nx pv)
  have "linked ?L (as @ [l]) = linked L (as @ [l])"
  proof (rule linked_cong)
    fix x
    show "x \<in> set (butlast (as @ [l])) \<Longrightarrow> next ?L x = next L x"
      using out dist by (auto simp: nx)
    assume x: "x \<in> set (tl (as @ [l]))"
    then have "x \<in> set xs" by (simp flip: as)
    moreover have "r \<notin> set xs" "node \<notin> set xs"
      using d bs by (cases ys; auto)+
    ultimately show "prev ?L x = prev L x"
      by (auto simp: pv)
  qed
  moreover have "linked ?L (r # bs) = linked L (r # bs)"
  proof (rule linked_cong)
    fix x
    assume x: "x \<in> set (butlast (r # bs))"
    with inter have "x \<noteq> l" by auto
    moreover from x out(2) have "x \<noteq> node" by (metis in_set_butlastD)
    ultimately show "next ?L x = next L x" by (simp add: nx)
  next
    fix x
    assume x: "x \<in> set (tl (r # bs))"
    moreover have "r \<notin> set bs"
      using assms bs by (cases ys) (auto simp: ring_def)
    ultimately show "prev ?L x = prev L x"
      using out by (auto simp: pv)
  qed
  ultimately have "linked ?L (as @ l # r # bs)"
    using parts out linked_append [of ?L as l "r # bs"] by (auto simp: nx pv)
  then have "linked ?L (head # (xs @ ys) @ [head])"
    using as bs by (metis append.assoc append_Cons append_Nil)
  with assms show "ring ?L head (xs @ ys)" by (auto simp: ring_def)
qed

text \<open>Operations on one ring leave every ring that shares no node with it alone.\<close>

lemma ring_add_frame:
  assumes "ring L head xs" and "ring L other ys"
    and "set (head # xs) \<inter> set (other # ys) = {}" and "node \<notin> set (other # ys)"
  shows "ring (list_add head node L) other ys"
proof -
  have "prev L head \<in> set (head # xs)"
    using ring_prev [OF assms(1)] last_in_set [of "head # xs"] by simp
  then have "ring (list_add head node L) other ys = ring L other ys"
    using assms(3,4) by (intro ring_cong) (auto simp: list_add_def Let_def)
  with assms(2) show ?thesis by simp
qed

lemma ring_del_frame:
  assumes "ring L head (xs @ node # zs)" and "ring L other ys"
    and "set (head # xs @ node # zs) \<inter> set (other # ys) = {}"
  shows "ring (list_del node L) other ys"
proof -
  have "linked L ((head # xs) @ node # zs @ [head])"
    using assms(1) by (simp add: ring_def)
  then have "linked L ((head # xs) @ [node])" and "linked L (node # zs @ [head])"
    by (subst (asm) linked_append, blast)+
  moreover obtain as l where as: "head # xs = as @ [l]"
    by (metis append_butlast_last_id list.distinct(1))
  ultimately have "prev L node = l" and "next L node = hd (zs @ [head])"
    by (simp_all add: linked_snoc2, cases zs) simp_all
  then have "prev L node \<in> set (head # xs)" and "next L node \<in> set (head # zs)"
    using as by (simp, cases zs) simp_all
  then have "ring (list_del node L) other ys = ring L other ys"
    using assms(3) by (intro ring_cong) (auto simp: list_del_def Let_def)
  with assms(2) show ?thesis by simp
qed

lemma list_count_from_linked:
  "linked L (iter # xs @ [head]) \<Longrightarrow> head \<notin> set (iter # xs) \<Longrightarrow>
   list_count_from L head iter n = Some (n + Suc (length xs))"
proof (induction xs arbitrary: iter n)
  case Nil
  then show ?case by (simp add: list_count_from.simps)
next
  case (Cons x xs)
  then show ?case by (subst list_count_from.simps) auto
qed

lemma list_count_ring: "ring L head xs \<Longrightarrow> list_count head L = Some (length xs)"
proof (cases xs)
  case Nil
  moreover assume "ring L head xs"
  ultimately show ?thesis
    by (simp add: ring_def list_count_def list_count_from.simps)
next
  case (Cons y ys)
  moreover assume "ring L head xs"
  ultimately show ?thesis
    using list_count_from_linked [of L y ys head 0] by (auto simp: ring_def list_count_def)
qed

section \<open>The queue interface\<close>

text \<open>
  What the users of an intrusive queue rely on: a head names a sequence of nodes; adding a
  node appends it, deleting a node takes it out wherever it is, and both leave queues with
  other nodes alone. \<open>own\<close> is the set of nodes the head itself occupies.
\<close>

locale intrusive_queue =
  fixes init :: "'h \<Rightarrow> 's \<Rightarrow> 's"
    and add :: "'h \<Rightarrow> 'n \<Rightarrow> 's \<Rightarrow> 's"
    and del :: "'h \<Rightarrow> 'n \<Rightarrow> 's \<Rightarrow> 's"
    and is_empty :: "'h \<Rightarrow> 's \<Rightarrow> bool"
    and own :: "'h \<Rightarrow> 'n set"
    and seq :: "'s \<Rightarrow> 'h \<Rightarrow> 'n list \<Rightarrow> bool"
  assumes seq_init: "seq (init h s) h []"
    and seq_distinct: "seq s h xs \<Longrightarrow> distinct xs \<and> set xs \<inter> own h = {}"
    and seq_add: "seq s h xs \<Longrightarrow> n \<notin> set xs \<union> own h \<Longrightarrow> seq (add h n s) h (xs @ [n])"
    and seq_del: "seq s h (xs @ n # ys) \<Longrightarrow> seq (del h n s) h (xs @ ys)"
    and seq_empty: "seq s h xs \<Longrightarrow> is_empty h s \<longleftrightarrow> xs = []"
begin

text \<open>Adding several nodes in turn queues them in that order.\<close>

lemma seq_add_all:
  assumes "seq s h xs" and "distinct ns" and "set ns \<inter> (set xs \<union> own h) = {}"
  shows "seq (fold (add h) ns s) h (xs @ ns)"
  using assms
proof (induction ns arbitrary: s xs)
  case Nil
  then show ?case by simp
next
  case (Cons n ns)
  then have "seq (add h n s) h (xs @ [n])" by (intro seq_add) auto
  then have "seq (fold (add h) ns (add h n s)) h ((xs @ [n]) @ ns)"
    using Cons.prems by (intro Cons.IH) auto
  then show ?case by simp
qed

text \<open>Taking the front node out repeatedly returns the nodes in the order they were added,
  and leaves the queue empty.\<close>

lemma seq_del_all: "seq s h (xs @ ys) \<Longrightarrow> seq (fold (del h) xs s) h ys"
proof (induction xs arbitrary: s)
  case Nil
  then show ?case by simp
next
  case (Cons x xs)
  then have "seq (del h x s) h (xs @ ys)" using seq_del [of s h "[]" x] by simp
  then show ?case using Cons.IH by simp
qed

lemma fifo:
  assumes "distinct ns" and "set ns \<inter> own h = {}"
  shows "seq (fold (add h) ns (init h s)) h ns"
    and "is_empty h (fold (del h) ns (fold (add h) ns (init h s)))"
proof -
  show full: "seq (fold (add h) ns (init h s)) h ns"
    using seq_add_all [OF seq_init, of ns h s] assms by simp
  then have "seq (fold (del h) ns (fold (add h) ns (init h s))) h []"
    using seq_del_all [of _ h ns "[]"] by simp
  then show "is_empty h (fold (del h) ns (fold (add h) ns (init h s)))"
    by (simp add: seq_empty)
qed

end

interpretation lq: intrusive_queue list_init list_add "\<lambda>_. list_del" list_is_empty "\<lambda>h. {h}" ring
  by unfold_locales (auto simp: ring_init ring_empty_iff intro: ring_add ring_del(1), auto simp: ring_def)

section \<open>Properties\<close>

text \<open>
  Lists are first-in first-out: nodes added to a fresh list are linked in the order they were added,
  \<^verbatim>\<open>list_count\<close> terminates with their number, and deleting them front to back leaves the list empty.
\<close>

theorem list_fifo:
  assumes "distinct ns" and "head \<notin> set ns"
  shows "ring (fold (list_add head) ns (list_init head L)) head ns \<and>
         list_count head (fold (list_add head) ns (list_init head L)) = Some (length ns) \<and>
         list_is_empty head (fold list_del ns (fold (list_add head) ns (list_init head L)))"
proof -
  have "set ns \<inter> {head} = {}" using assms(2) by simp
  note fifo = lq.fifo [OF assms(1) this, of L]
  with list_count_ring [OF fifo(1)] show ?thesis by simp
qed

text \<open>
  Deleting a node needs no knowledge of the list it is in: wherever the node is, it is taken out of the
  sequence, the order of the others is kept, the node itself becomes an empty list of its own (so deleting
  it again is harmless), and no other list changes.
\<close>

theorem list_del_anywhere:
  assumes "ring L head (xs @ node # ys)" and "ring L other zs"
    and "set (head # xs @ node # ys) \<inter> set (other # zs) = {}"
  shows "ring (list_del node L) head (xs @ ys) \<and> ring (list_del node L) node [] \<and>
         ring (list_del node L) other zs"
  using ring_del [OF assms(1)] ring_del_frame [OF assms] by blast

definition sample_links :: "nat links" where
  "sample_links = list_init 0 (list_init 9 \<lparr>prev = (\<lambda>_. 0), next = (\<lambda>_. 0)\<rparr>)"

theorem list_fifo_witness:
  "ring (fold (list_add 0) [1, 2, 3] (list_init 0 sample_links)) 0 [1, 2, 3] \<and>
   list_count 0 (fold (list_add 0) [1, 2, 3] (list_init 0 sample_links)) = Some 3"
  using list_fifo [of "[1, 2, 3]" 0 sample_links] by simp

theorem list_del_anywhere_witness:
  "ring (list_del 2 (fold (list_add 0) [1, 2, 3] sample_links)) 0 [1, 3] \<and>
   ring (list_del 2 (fold (list_add 0) [1, 2, 3] sample_links)) 9 []"
proof -
  let ?L = "fold (list_add 0) [1, 2, 3] sample_links"
  have "ring ?L 0 ([1] @ 2 # [3])" "ring ?L 9 []"
    by (simp_all add: ring_def sample_links_def list_init_def list_add_def Let_def)
  moreover have "set (0 # [1] @ 2 # [3]) \<inter> set (9 # []) = ({} :: nat set)" by simp
  ultimately show ?thesis using list_del_anywhere [of ?L 0 "[1]" 2 "[3]" 9 "[]"] by auto
qed

end
