(* ===== verification/Notifier.thy ===== *)
theory Notifier
  imports LibList "HOL-Library.Monad_Syntax"
begin

text \<open>
  Notifier chains, \<^verbatim>\<open>libc/misc/lib_notifier.c\<close>: a chain is an intrusive list of nodes, each with a
  callback (the function already applied to its argument). Callbacks act on the world \<open>'w\<close> of the
  components that register them; \<open>None\<close> is a callback that does not return. The chain is kept on
  the pointer store of the list package, and the lemmas reduce it to the sequence of callbacks.
\<close>

type_synonym ('d, 'w) notifier_fn = "'d \<Rightarrow> 'w \<Rightarrow> (int \<times> 'w) option"

record ('p, 'd, 'w) notifier =
  nlinks :: "'p links"
  node_fn :: "'p \<Rightarrow> ('d, 'w) notifier_fn option"

section \<open>Operations\<close>

text \<open>\<open>node\<close> is what \<^verbatim>\<open>malloc\<close> returns.\<close>

definition notifier_register ::
    "'p \<Rightarrow> ('d, 'w) notifier_fn \<Rightarrow> 'p option \<Rightarrow> ('p, 'd, 'w) notifier \<Rightarrow> int \<times> ('p, 'd, 'w) notifier" where
  "notifier_register head fn node N =
     (case node of
        None \<Rightarrow> (- ENOMEM, N)
      | Some n \<Rightarrow> (OK, N\<lparr>node_fn := (node_fn N)(n := Some fn), nlinks := list_add head n (nlinks N)\<rparr>))"

text \<open>The loop over the chain: the next node is read before the callback runs.\<close>

partial_function (option) call_chain_loop ::
    "('p, 'd, 'w) notifier \<Rightarrow> 'p \<Rightarrow> 'd \<Rightarrow> 'p \<Rightarrow> 'p \<Rightarrow> nat \<Rightarrow> 'w \<Rightarrow> (nat \<times> 'w) option" where
  "call_chain_loop N head data iter iter_next err_cnt w =
     (if iter = head then Some (err_cnt, w)
      else do {
        fn \<leftarrow> node_fn N iter;
        (r, w1) \<leftarrow> fn data w;
        call_chain_loop N head data iter_next (next (nlinks N) iter_next)
          (if r \<noteq> OK then Suc err_cnt else err_cnt) w1
      })"

definition notifier_call_chain :: "'p \<Rightarrow> 'd \<Rightarrow> ('p, 'd, 'w) notifier \<Rightarrow> 'w \<Rightarrow> (int \<times> 'w) option" where
  "notifier_call_chain head data N w =
     do { let iter = next (nlinks N) head;
          (err_cnt, w1) \<leftarrow> call_chain_loop N head data iter (next (nlinks N) iter) 0 w;
          Some (if err_cnt \<noteq> 0 then - EIO else OK, w1) }"

section \<open>The chain as a sequence of callbacks\<close>

text \<open>The nodes of the chain are those of the list, and their callbacks are \<open>fns\<close>, in order.\<close>

definition chain :: "('p, 'd, 'w) notifier \<Rightarrow> 'p \<Rightarrow> 'p list \<Rightarrow> ('d, 'w) notifier_fn list \<Rightarrow> bool" where
  "chain N head ns fns \<longleftrightarrow> ring (nlinks N) head ns \<and> map (node_fn N) ns = map Some fns"

text \<open>Running callbacks one after the other; the number counts those that did not return \<open>OK\<close>.\<close>

fun run_all :: "('d, 'w) notifier_fn list \<Rightarrow> 'd \<Rightarrow> nat \<Rightarrow> 'w \<Rightarrow> (nat \<times> 'w) option" where
  "run_all [] data k w = Some (k, w)"
| "run_all (fn # fns) data k w =
     do { (r, w1) \<leftarrow> fn data w; run_all fns data (if r \<noteq> OK then Suc k else k) w1 }"

lemma chain_register:
  assumes "chain N head ns fns" "n \<notin> set (head # ns)"
  shows "\<exists>N'. notifier_register head fn (Some n) N = (OK, N') \<and> chain N' head (ns @ [n]) (fns @ [fn])"
  using assms ring_add [of "nlinks N" head ns n]
  by (auto simp: chain_def notifier_register_def map_fun_upd)

lemma call_chain_loop_ring:
  assumes "linked (nlinks N) (n # ns @ [head])" "head \<notin> set (n # ns)" "map (node_fn N) (n # ns) = map Some fns"
  shows "call_chain_loop N head data n (next (nlinks N) n) k w = run_all fns data k w"
  using assms
proof (induction ns arbitrary: n fns k w)
  case Nil
  then show ?case
    by (cases fns) (auto simp: call_chain_loop.simps [of N head data n] call_chain_loop.simps [of N head data head]
        split: bind_splits)
next
  case (Cons m ns)
  obtain fn fns' where fns: "fns = fn # fns'" "node_fn N n = Some fn" "map (node_fn N) (m # ns) = map Some fns'"
    using Cons.prems(3) by (cases fns) auto
  have nx: "next (nlinks N) n = m" using Cons.prems(1) by simp
  have step: "call_chain_loop N head data m (next (nlinks N) m) j v = run_all fns' data j v" for j v
    using Cons.prems fns by (intro Cons.IH) auto
  have nh: "n \<noteq> head" using Cons.prems(2) by auto
  show ?case
    using nh by (subst call_chain_loop.simps) (cases "fn data w"; auto simp: nx fns step)
qed

lemma call_chain_run_all:
  assumes "chain N head ns fns"
  shows "notifier_call_chain head data N w =
     map_option (\<lambda>(k, w1). (if k \<noteq> 0 then - EIO else OK, w1)) (run_all fns data 0 w)"
proof (cases ns)
  case Nil
  then have "next (nlinks N) head = head" "fns = []"
    using assms ring_next [of "nlinks N" head ns] by (auto simp: chain_def)
  then show ?thesis by (simp add: notifier_call_chain_def call_chain_loop.simps)
next
  case (Cons n ms)
  then have "next (nlinks N) head = n" "linked (nlinks N) (n # ms @ [head])" "head \<notin> set (n # ms)"
    using assms by (auto simp: chain_def ring_def)
  then show ?thesis
    using assms Cons call_chain_loop_ring [of N n ms head fns data 0 w]
    by (auto simp: notifier_call_chain_def chain_def split: bind_splits option.splits)
qed

fun register_all :: "'p \<Rightarrow> ('p \<times> ('d, 'w) notifier_fn) list \<Rightarrow> ('p, 'd, 'w) notifier \<Rightarrow> ('p, 'd, 'w) notifier" where
  "register_all head [] N = N"
| "register_all head ((n, fn) # rs) N = register_all head rs (snd (notifier_register head fn (Some n) N))"

lemma chain_register_all:
  assumes "chain N head ns fns" "distinct (map fst rs)" "set (map fst rs) \<inter> set (head # ns) = {}"
  shows "chain (register_all head rs N) head (ns @ map fst rs) (fns @ map snd rs)"
  using assms
proof (induction rs arbitrary: N ns fns)
  case (Cons r rs)
  obtain n fn where r: "r = (n, fn)" by (cases r)
  obtain N' where N': "notifier_register head fn (Some n) N = (OK, N')" "chain N' head (ns @ [n]) (fns @ [fn])"
    using chain_register [OF Cons.prems(1), of n fn] Cons.prems(3) r by auto
  have "chain (register_all head rs N') head ((ns @ [n]) @ map fst rs) ((fns @ [fn]) @ map snd rs)"
    using Cons.prems r by (intro Cons.IH [OF N'(2)]) auto
  then show ?case using N'(1) by (simp add: r)
qed simp

text \<open>
  C20. A chain calls every registered callback exactly once, in the order of registration, each on
  the world the one before left, and reports \<^verbatim>\<open>-EIO\<close> exactly if one of them did not return
  \<^verbatim>\<open>OK\<close>; a failing callback does not keep the later ones from running.
\<close>

theorem chain_calls_in_order:
  assumes "distinct (map fst rs)" "head \<notin> set (map fst rs)"
  shows "notifier_call_chain head data
       (register_all head rs \<lparr>nlinks = list_init head L, node_fn = (\<lambda>_. None)\<rparr>) w =
     map_option (\<lambda>(k, w1). (if k \<noteq> 0 then - EIO else OK, w1)) (run_all (map snd rs) data 0 w)"
proof -
  let ?N = "\<lparr>nlinks = list_init head L, node_fn = (\<lambda>_. None)\<rparr>"
  have "chain ?N head [] []" using ring_init [of head L] by (simp add: chain_def)
  then have "chain (register_all head rs ?N) head ([] @ map fst rs) ([] @ map snd rs)"
    using assms by (intro chain_register_all) auto
  then show ?thesis by (simp add: call_chain_run_all)
qed

theorem chain_calls_in_order_witness:
  "notifier_call_chain (0 :: nat) (7 :: nat)
     (register_all 0 [(1, \<lambda>d w. Some (- EINVAL, w @ [d])), (2, \<lambda>d w. Some (OK, w @ [d + 1]))]
        \<lparr>nlinks = list_init 0 \<lparr>prev = \<lambda>p. p, next = \<lambda>p. p\<rparr>, node_fn = (\<lambda>_. None)\<rparr>) [] =
   Some (- EIO, [7, 8])"
  by (subst chain_calls_in_order) (simp_all add: errno_simps)

end
