(* ===== verification/Attach.thy ===== *)
theory Attach
  imports Notifier
begin

text \<open>
  Detection of the base, \<^verbatim>\<open>drivers/greybus/mods/attach.c\<close>: two interrupt handlers that schedule a
  worker, and the worker, which reads the pins, tells the greybus drivers that the base went away
  and calls the notifier chain. The pins, the work queue's clock and \<^verbatim>\<open>gb_notify_all\<close> act on the
  world \<open>'w\<close> the callbacks share; power-management activity reports are left out.
\<close>

record 'w attach_env =
  gpio_base_attach :: "'w \<Rightarrow> bool"
  gpio_spi_cs_n :: "'w \<Rightarrow> bool"
  gb_notify_disconnected :: "'w \<Rightarrow> 'w"
  spi_cs_isr :: "('w \<Rightarrow> 'w) option"

text \<open>\<open>g_attach_work\<close> is the delay of the scheduled worker, in ticks.\<close>

record ('p, 'w) attach =
  g_notify :: "('p, base_attached_e, 'w) notifier"
  g_base_state :: base_attached_e
  g_attach_work :: "nat option"
  aworld :: 'w

definition MSEC2TICK :: "nat \<Rightarrow> nat" where
  "MSEC2TICK msec = (msec + (10 div 2)) div 10"

definition BASE_GONE_TICKS :: nat where "BASE_GONE_TICKS = MSEC2TICK 50"
definition CS_ASSERT_TICKS :: nat where "CS_ASSERT_TICKS = MSEC2TICK 1000"

text \<open>The pins as a number in the source: 1 is attached, the selected chip on a base without power is 2.\<close>

definition read_base_state :: "'w attach_env \<Rightarrow> 'w \<Rightarrow> base_attached_e" where
  "read_base_state E w =
     (if gpio_base_attach E w then BASE_ATTACHED
      else if \<not> gpio_spi_cs_n E w then BASE_ATTACHED_OFF else BASE_DETACHED)"

definition base_attach_worker :: "'w attach_env \<Rightarrow> 'p \<Rightarrow> ('p, 'w) attach \<Rightarrow> ('p, 'w) attach option" where
  "base_attach_worker E head A =
     (let base_state = read_base_state E (aworld A) in
      if g_base_state A \<noteq> base_state
      then do {
        let w1 = (if g_base_state A = BASE_ATTACHED then gb_notify_disconnected E (aworld A) else aworld A);
        (_, w2) \<leftarrow> notifier_call_chain head base_state (g_notify A) w1;
        Some (A\<lparr>g_base_state := base_state, aworld := w2\<rparr>)
      }
      else Some A)"

text \<open>Work that is pending is cancelled before it is queued again with its new delay.\<close>

definition bplus_isr :: "'w attach_env \<Rightarrow> ('p, 'w) attach \<Rightarrow> ('p, 'w) attach" where
  "bplus_isr E A = A\<lparr>g_attach_work := Some (if gpio_base_attach E (aworld A) then 0 else BASE_GONE_TICKS)\<rparr>"

definition cs_isr :: "'w attach_env \<Rightarrow> ('p, 'w) attach \<Rightarrow> ('p, 'w) attach" where
  "cs_isr E A =
     (let A1 = (case spi_cs_isr E of None \<Rightarrow> A | Some f \<Rightarrow> A\<lparr>aworld := f (aworld A)\<rparr>) in
      if g_base_state A1 = BASE_ATTACHED then A1
      else A1\<lparr>g_attach_work := Some (if gpio_spi_cs_n E (aworld A1) then 0 else CS_ASSERT_TICKS)\<rparr>)"

definition mods_attach_register ::
    "'p \<Rightarrow> (base_attached_e, 'w) notifier_fn \<Rightarrow> 'p option \<Rightarrow> ('p, 'w) attach \<Rightarrow> (int \<times> ('p, 'w) attach) option" where
  "mods_attach_register head callback node A =
     (let (ret, N) = notifier_register head callback node (g_notify A) in
      if ret \<noteq> 0 then Some (ret, A\<lparr>g_notify := N\<rparr>)
      else do { (_, w) \<leftarrow> callback (g_base_state A) (aworld A);
                Some (OK, A\<lparr>g_notify := N, aworld := w\<rparr>) })"

text \<open>Attaching the two interrupt handlers to their pins has no effect on the state.\<close>

definition mods_attach_init :: "'w attach_env \<Rightarrow> 'p \<Rightarrow> ('p, 'w) attach \<Rightarrow> (int \<times> ('p, 'w) attach) option" where
  "mods_attach_init E head A =
     do { A1 \<leftarrow> base_attach_worker E head A; Some (OK, A1) }"

section \<open>Properties\<close>

lemma read_base_state_valid: "read_base_state E w \<noteq> BASE_INVALID"
  by (simp add: read_base_state_def)

lemma worker_run_all:
  assumes "chain (g_notify A) head ns fns" "read_base_state E (aworld A) \<noteq> g_base_state A"
  shows "base_attach_worker E head A =
    map_option (\<lambda>(k, w). A\<lparr>g_base_state := read_base_state E (aworld A), aworld := w\<rparr>)
      (run_all fns (read_base_state E (aworld A)) 0
         (if g_base_state A = BASE_ATTACHED then gb_notify_disconnected E (aworld A) else aworld A))"
proof -
  let ?w = "if g_base_state A = BASE_ATTACHED then gb_notify_disconnected E (aworld A) else aworld A"
  show ?thesis
    using assms(2)
    by (cases "run_all fns (read_base_state E (aworld A)) 0 ?w")
      (auto simp: base_attach_worker_def call_chain_run_all [OF assms(1)] Let_def)
qed


definition sample_attach_env :: "(bool \<times> base_attached_e list) attach_env" where
  "sample_attach_env = \<lparr>gpio_base_attach = fst, gpio_spi_cs_n = (\<lambda>_. True),
     gb_notify_disconnected = (\<lambda>w. w), spi_cs_isr = None\<rparr>"

definition sample_attach :: "(nat, bool \<times> base_attached_e list) attach" where
  "sample_attach =
     \<lparr>g_notify = register_all 0 [(1, \<lambda>st (b, l). Some (OK, b, st # l))]
         \<lparr>nlinks = list_init 0 \<lparr>prev = \<lambda>p. p, next = \<lambda>p. p\<rparr>, node_fn = (\<lambda>_. None)\<rparr>,
      g_base_state = BASE_ATTACHED, g_attach_work = None, aworld = (False, [])\<rparr>"


end
