(* ===== verification/SwitchChg.thy ===== *)
theory SwitchChg
  imports Prelude
begin

text \<open>
  The charger interface of the power transfer protocol, \<^verbatim>\<open>drivers/greybus/mods/switch-ptp-chg.c\<close>:
  three switches (wireless, wired, base) on GPIO pins and a charger chip. The chip's driver is a
  parameter acting on the world \<open>'w\<close>; \<open>ic\<close> records the last mode the chip accepted. Configuration:
  external sources supported, battery present, battery power may be sent and received.
\<close>

section \<open>Data\<close>

record charger_config =
  input_current_limit :: int
  input_voltage_limit :: int
  charge_current_limit :: int
  charge_voltage_limit :: int

datatype ext_pwr_sources = EXT_PWR_SOURCES_OFF | EXT_PWR_SOURCES_ON

text \<open>A configuration the caller never wrote is \<open>None\<close>.\<close>

datatype ic_mode = Ic_off | Ic_receive "charger_config option" | Ic_send

record 'w charger_ops =
  charger_off :: "'w \<Rightarrow> int \<times> 'w"
  charger_receive :: "charger_config option \<Rightarrow> 'w \<Rightarrow> int \<times> 'w"
  charger_send :: "int \<Rightarrow> 'w \<Rightarrow> int \<times> int \<times> 'w"
  charger_max_input_voltage :: "'w \<Rightarrow> int \<times> int \<times> 'w"
  charger_open :: "'w \<Rightarrow> bool \<times> 'w"

record 'w switch_ptp_chg_info =
  wls :: int
  wrd :: int
  base_gpio :: int
  wls_active_low :: bool
  wrd_active_low :: bool
  base_active_low :: bool
  off_state :: ext_pwr_sources
  gpio_value :: "int \<Rightarrow> bool"
  ic :: ic_mode
  chg_world :: 'w

section \<open>Switches\<close>

definition set_switch :: "int \<Rightarrow> bool \<Rightarrow> bool \<Rightarrow> 'w switch_ptp_chg_info \<Rightarrow> 'w switch_ptp_chg_info" where
  "set_switch gpio state active_low s =
     (if gpio \<ge> 0 then s\<lparr>gpio_value := (gpio_value s)(gpio := (if active_low then \<not> state else state))\<rparr> else s)"

definition wireless_path :: "bool \<Rightarrow> 'w switch_ptp_chg_info \<Rightarrow> 'w switch_ptp_chg_info" where
  "wireless_path state s = set_switch (wls s) state (wls_active_low s) s"

definition wired_path :: "bool \<Rightarrow> 'w switch_ptp_chg_info \<Rightarrow> 'w switch_ptp_chg_info" where
  "wired_path state s = set_switch (wrd s) state (wrd_active_low s) s"

definition base_path :: "bool \<Rightarrow> 'w switch_ptp_chg_info \<Rightarrow> 'w switch_ptp_chg_info" where
  "base_path state s = set_switch (base_gpio s) state (base_active_low s) s"

section \<open>The charger chip\<close>

definition device_charger_off :: "'w charger_ops \<Rightarrow> 'w switch_ptp_chg_info \<Rightarrow> int \<times> 'w switch_ptp_chg_info" where
  "device_charger_off E s =
     (let (r, w) = charger_off E (chg_world s)
      in (r, s\<lparr>chg_world := w, ic := if r = 0 then Ic_off else ic s\<rparr>))"

definition device_charger_receive ::
    "'w charger_ops \<Rightarrow> charger_config option \<Rightarrow> 'w switch_ptp_chg_info \<Rightarrow> int \<times> 'w switch_ptp_chg_info" where
  "device_charger_receive E cfg s =
     (let (r, w) = charger_receive E cfg (chg_world s)
      in (r, s\<lparr>chg_world := w, ic := if r = 0 then Ic_receive cfg else ic s\<rparr>))"

text \<open>The current is written through a pointer; the value before the call is passed in.\<close>

definition device_charger_send ::
    "'w charger_ops \<Rightarrow> int \<Rightarrow> 'w switch_ptp_chg_info \<Rightarrow> int \<times> int \<times> 'w switch_ptp_chg_info" where
  "device_charger_send E cur s =
     (let (r, c, w) = charger_send E cur (chg_world s)
      in (r, c, s\<lparr>chg_world := w, ic := if r = 0 then Ic_send else ic s\<rparr>))"

section \<open>Operations\<close>

definition switch_ptp_chg_send_wireless_pwr ::
    "'w charger_ops \<Rightarrow> 'w switch_ptp_chg_info \<Rightarrow> int \<times> 'w switch_ptp_chg_info" where
  "switch_ptp_chg_send_wireless_pwr E s =
     (let (r, s1) = device_charger_off E s in
      if r \<noteq> 0 then (r, s1)
      else (r, wireless_path True (base_path True (wired_path False s1))))"

definition switch_ptp_chg_send_wired_pwr ::
    "'w charger_ops \<Rightarrow> 'w switch_ptp_chg_info \<Rightarrow> int \<times> 'w switch_ptp_chg_info" where
  "switch_ptp_chg_send_wired_pwr E s =
     (let (r, s1) = device_charger_off E s in
      if r \<noteq> 0 then (r, s1)
      else (r, wired_path True (base_path True (wireless_path False s1))))"

definition switch_ptp_chg_receive_wireless_pwr ::
    "'w charger_ops \<Rightarrow> charger_config option \<Rightarrow> 'w switch_ptp_chg_info \<Rightarrow> int \<times> 'w switch_ptp_chg_info" where
  "switch_ptp_chg_receive_wireless_pwr E cfg s =
     (let (r, s1) = device_charger_receive E cfg (wired_path False (base_path False s)) in
      if r \<noteq> 0 then (r, s1) else (0, wireless_path True s1))"

definition switch_ptp_chg_receive_wired_pwr ::
    "'w charger_ops \<Rightarrow> charger_config option \<Rightarrow> 'w switch_ptp_chg_info \<Rightarrow> int \<times> 'w switch_ptp_chg_info" where
  "switch_ptp_chg_receive_wired_pwr E cfg s =
     (let (r, s1) = device_charger_receive E cfg (wireless_path False (base_path False s)) in
      if r \<noteq> 0 then (r, s1) else (0, wired_path True s1))"

definition switch_ptp_chg_send_batt_pwr ::
    "'w charger_ops \<Rightarrow> int \<Rightarrow> 'w switch_ptp_chg_info \<Rightarrow> int \<times> int \<times> 'w switch_ptp_chg_info" where
  "switch_ptp_chg_send_batt_pwr E cur s =
     (let (r, c, s1) = device_charger_send E cur (wired_path False (wireless_path False s)) in
      if r \<noteq> 0 then (r, c, s1) else (0, c, base_path True s1))"

definition switch_ptp_chg_receive_base_pwr ::
    "'w charger_ops \<Rightarrow> charger_config option \<Rightarrow> 'w switch_ptp_chg_info \<Rightarrow> int \<times> 'w switch_ptp_chg_info" where
  "switch_ptp_chg_receive_base_pwr E cfg s =
     (let (r, s1) = device_charger_receive E cfg (wired_path False (wireless_path False s)) in
      if r \<noteq> 0 then (r, s1) else (0, base_path True s1))"

definition switch_ptp_chg_max_input_voltage ::
    "'w charger_ops \<Rightarrow> 'w switch_ptp_chg_info \<Rightarrow> int \<times> int \<times> 'w switch_ptp_chg_info" where
  "switch_ptp_chg_max_input_voltage E s =
     (let (r, v, w) = charger_max_input_voltage E (chg_world s) in (r, v, s\<lparr>chg_world := w\<rparr>))"

definition switch_ptp_chg_off :: "'w charger_ops \<Rightarrow> 'w switch_ptp_chg_info \<Rightarrow> int \<times> 'w switch_ptp_chg_info" where
  "switch_ptp_chg_off E s =
     (let s1 = (case off_state s of
                  EXT_PWR_SOURCES_OFF \<Rightarrow> wired_path False (wireless_path False s)
                | EXT_PWR_SOURCES_ON \<Rightarrow> wired_path True (wireless_path True s))
      in device_charger_off E (base_path False s1))"

definition switch_ptp_chg_all_paths_open ::
    "'w charger_ops \<Rightarrow> 'w switch_ptp_chg_info \<Rightarrow> int \<times> 'w switch_ptp_chg_info" where
  "switch_ptp_chg_all_paths_open E s =
     (let (r, s1) = device_charger_off E s
      in (r, base_path True (wired_path True (wireless_path True s1))))"

text \<open>
  Probe: the pins found among the device's resources (\<open>-1\<close> where there is none) are set to the
  hardware default, the external paths enabled and the base path disabled. Without initial data
  every switch is active low.
\<close>

definition switch_ptp_chg_probe ::
    "bool \<Rightarrow> (bool \<times> bool \<times> bool) option \<Rightarrow> int option \<Rightarrow> int option \<Rightarrow> int option \<Rightarrow> (int \<Rightarrow> bool) \<Rightarrow> 'w \<Rightarrow>
     int \<times> 'w switch_ptp_chg_info option" where
  "switch_ptp_chg_probe zalloc_ok init_data wls_r wrd_r base_r gpios w =
     (if \<not> zalloc_ok then (- ENOMEM, None)
      else
        (let (wl, wr, ba) = (case init_data of Some d \<Rightarrow> d | None \<Rightarrow> (True, True, True));
             s = \<lparr>wls = (case wls_r of Some g \<Rightarrow> g | None \<Rightarrow> - 1), wrd = (case wrd_r of Some g \<Rightarrow> g | None \<Rightarrow> - 1),
                  base_gpio = (case base_r of Some g \<Rightarrow> g | None \<Rightarrow> - 1),
                  wls_active_low = wl, wrd_active_low = wr, base_active_low = ba,
                  off_state = EXT_PWR_SOURCES_OFF, gpio_value = gpios, ic = Ic_off, chg_world = w\<rparr>;
             s1 = base_path False (wired_path True (wireless_path True s))
         in (0, Some (s1\<lparr>off_state := if wls s1 \<noteq> - 1 \<and> wrd s1 \<noteq> - 1 then EXT_PWR_SOURCES_OFF
                                      else EXT_PWR_SOURCES_ON\<rparr>))))"

definition switch_ptp_chg_open :: "'w charger_ops \<Rightarrow> 'w switch_ptp_chg_info \<Rightarrow> int \<times> 'w switch_ptp_chg_info" where
  "switch_ptp_chg_open E s =
     (let (ok, w) = charger_open E (chg_world s) in (if ok then 0 else - EIO, s\<lparr>chg_world := w\<rparr>))"

section \<open>Paths\<close>

definition path_on :: "int \<Rightarrow> bool \<Rightarrow> 'w switch_ptp_chg_info \<Rightarrow> bool" where
  "path_on g active_low s \<longleftrightarrow> g \<ge> 0 \<and> gpio_value s g \<noteq> active_low"

abbreviation wireless_on :: "'w switch_ptp_chg_info \<Rightarrow> bool" where
  "wireless_on s \<equiv> path_on (wls s) (wls_active_low s) s"

abbreviation wired_on :: "'w switch_ptp_chg_info \<Rightarrow> bool" where
  "wired_on s \<equiv> path_on (wrd s) (wrd_active_low s) s"

abbreviation base_on :: "'w switch_ptp_chg_info \<Rightarrow> bool" where
  "base_on s \<equiv> path_on (base_gpio s) (base_active_low s) s"

text \<open>Three different pins, and the off state the probe chose for them.\<close>

definition board_ok :: "'w switch_ptp_chg_info \<Rightarrow> bool" where
  "board_ok s \<longleftrightarrow> 0 \<le> wls s \<and> 0 \<le> wrd s \<and> 0 \<le> base_gpio s \<and>
     wls s \<noteq> wrd s \<and> wls s \<noteq> base_gpio s \<and> wrd s \<noteq> base_gpio s \<and> off_state s = EXT_PWR_SOURCES_OFF"

text \<open>What a state looks like from outside: the three paths and the chip.\<close>

definition view :: "'w switch_ptp_chg_info \<Rightarrow> bool \<times> bool \<times> bool \<times> ic_mode" where
  "view s = (wireless_on s, wired_on s, base_on s, ic s)"

lemmas path_defs = wireless_path_def wired_path_def base_path_def set_switch_def path_on_def
  device_charger_off_def device_charger_receive_def device_charger_send_def

lemmas chg_op_defs = switch_ptp_chg_send_wireless_pwr_def switch_ptp_chg_send_wired_pwr_def
  switch_ptp_chg_receive_wireless_pwr_def switch_ptp_chg_receive_wired_pwr_def switch_ptp_chg_send_batt_pwr_def
  switch_ptp_chg_receive_base_pwr_def switch_ptp_chg_off_def switch_ptp_chg_all_paths_open_def

lemma path_views:
  assumes "board_ok s"
  shows "view (wireless_path b s) = (b, wired_on s, base_on s, ic s)" "board_ok (wireless_path b s)"
    "view (wired_path b s) = (wireless_on s, b, base_on s, ic s)" "board_ok (wired_path b s)"
    "view (base_path b s) = (wireless_on s, wired_on s, b, ic s)" "board_ok (base_path b s)"
  using assms by (auto simp: view_def board_ok_def path_defs)

lemma charger_views:
  "view (snd (device_charger_off E s)) =
     (wireless_on s, wired_on s, base_on s, if fst (device_charger_off E s) = 0 then Ic_off else ic s)"
  "view (snd (device_charger_receive E cfg s)) =
     (wireless_on s, wired_on s, base_on s, if fst (device_charger_receive E cfg s) = 0 then Ic_receive cfg else ic s)"
  "view (snd (snd (device_charger_send E c s))) =
     (wireless_on s, wired_on s, base_on s, if fst (device_charger_send E c s) = 0 then Ic_send else ic s)"
  "board_ok (snd (device_charger_off E s)) = board_ok s"
  "board_ok (snd (device_charger_receive E cfg s)) = board_ok s"
  "board_ok (snd (snd (device_charger_send E c s))) = board_ok s"
  by (auto simp: view_def board_ok_def path_on_def device_charger_off_def device_charger_receive_def
      device_charger_send_def split: prod.splits)

end
