(* ===== verification/Bq25896.thy ===== *)
theory Bq25896
  imports SwitchChg "HOL-Library.Monad_Syntax"
begin

text \<open>
  The charger chip and its driver, \<^verbatim>\<open>drivers/power/bq25896.c\<close> (registers over I2C, interrupts) and
  \<^verbatim>\<open>drivers/power/bq25896_charger.c\<close> (modes and limits). The state holds the registers of the chip and
  the variables of both files. Calls that may fail (waiting for the register semaphore, an I2C
  transfer) are numbered, and the environment says how the \<open>n\<close>-th one ends: 0 is success, an I2C
  error is its return code and a semaphore error its \<^verbatim>\<open>errno\<close>. A transfer that fails leaves the
  registers alone.
\<close>

section \<open>Data\<close>

datatype bq25896_chg = BQ25896_CHG_OFF | BQ25896_CHG_BATTERY | BQ25896_OTG

datatype bq25896_event = POWER_GOOD | BOOST_FAULT | NO_POWER_GOOD

text \<open>A register with a mask and the value of the masked bits.\<close>

type_synonym bq25896_reg = "u8 \<times> u8 \<times> u8"

text \<open>
  \<open>fault_latch\<close> is what the next read of \<^verbatim>\<open>REG0C\<close> returns: the chip reports the fault that was there
  before, and the current one from the second read on. Every structure of the charger driver has an
  identity: \<open>info\<close> is the one in use, \<open>infos\<close> the next one, and \<open>notify_list\<close> has the ones whose
  callback is registered, the charger being the only client. A configuration whose content nobody
  wrote is \<open>None\<close>. \<open>boost_faults\<close> counts the calls of the boost fault callback, \<open>ce_value\<close> is the level
  of the charge enable pin and \<open>status_charging\<close> what \<^verbatim>\<open>battery_set_status\<close> was told last.
\<close>

record bq25896 =
  regs :: "u8 \<Rightarrow> u8"
  fault_latch :: u8
  calls :: nat
  i2c_up :: bool
  pg_n_connected :: bool
  int_work :: bool
  pg_work :: bool
  fault_work :: bool
  int_attached :: bool
  notify_list :: "nat list"
  info :: "nat option"
  infos :: nat
  bq_init_data :: "bq25896_reg list"
  settings_chg :: bq25896_chg
  settings_cfg :: "charger_config option"
  boost_fault_cb :: bool
  boost_faults :: nat
  chg_en :: int
  chg_en_active_high :: bool
  ce_value :: bool
  status_charging :: bool

text \<open>
  \<open>unwritten\<close> is what a configuration that nobody wrote happens to contain, \<open>chg_sem_ok\<close> that the
  semaphores of the charger are valid.
\<close>

record bq_env =
  call_ret :: "nat \<Rightarrow> int"
  unwritten :: charger_config
  chg_sem_ok :: bool
  sem_init_rets :: "int \<times> int"
  node_ok :: bool

section \<open>Registers\<close>

definition next_call :: "bq_env \<Rightarrow> bq25896 \<Rightarrow> int \<times> bq25896" where
  "next_call E s = (call_ret E (calls s), s\<lparr>calls := Suc (calls s)\<rparr>)"

definition reg_read :: "bq_env \<Rightarrow> u8 \<Rightarrow> bq25896 \<Rightarrow> int \<times> bq25896" where
  "reg_read E reg s =
     (let (ret, s1) = next_call E s in
      if ret \<noteq> 0 then (ret, s1)
      else if reg = 0x0C then (uint (fault_latch s1), s1\<lparr>fault_latch := regs s1 0x0C\<rparr>)
      else (uint (regs s1 reg), s1))"

definition reg_write :: "bq_env \<Rightarrow> u8 \<Rightarrow> u8 \<Rightarrow> bq25896 \<Rightarrow> int \<times> bq25896" where
  "reg_write E reg val s =
     (let (ret, s1) = next_call E s in
      (ret, if ret = 0 then s1\<lparr>regs := (regs s1)(reg := val)\<rparr> else s1))"

definition reg_modify :: "bq_env \<Rightarrow> u8 \<Rightarrow> u8 \<Rightarrow> u8 \<Rightarrow> bq25896 \<Rightarrow> int \<times> bq25896" where
  "reg_modify E reg msk val s =
     (let (ret, s1) = reg_read E reg s in
      if ret < 0 then (ret, s1)
      else reg_write E reg ((word_of_int ret AND NOT msk) OR (val AND msk)) s1)"

fun configure_device :: "bq_env \<Rightarrow> bq25896_reg list \<Rightarrow> bq25896 \<Rightarrow> int \<times> bq25896" where
  "configure_device E [] s = (0, s)"
| "configure_device E ((reg, msk, val) # cfg) s =
     (let (ret, s1) = reg_modify E reg msk val s in if ret \<noteq> 0 then (ret, s1) else configure_device E cfg s1)"

text \<open>The entry points take the semaphore, whose failure is not retried, and need the bus.\<close>

definition locked :: "bq_env \<Rightarrow> (bq25896 \<Rightarrow> int \<times> bq25896) \<Rightarrow> bq25896 \<Rightarrow> int \<times> bq25896" where
  "locked E f s =
     (let (err, s1) = next_call E s in
      if err \<noteq> 0 then (- err, s1) else if i2c_up s1 then f s1 else (- ENODEV, s1))"

definition bq25896_reg_read :: "bq_env \<Rightarrow> u8 \<Rightarrow> bq25896 \<Rightarrow> int \<times> bq25896" where
  "bq25896_reg_read E reg s = locked E (reg_read E reg) s"

definition bq25896_reg_write :: "bq_env \<Rightarrow> u8 \<Rightarrow> u8 \<Rightarrow> bq25896 \<Rightarrow> int \<times> bq25896" where
  "bq25896_reg_write E reg val s = locked E (reg_write E reg val) s"

definition bq25896_reg_modify :: "bq_env \<Rightarrow> u8 \<Rightarrow> u8 \<Rightarrow> u8 \<Rightarrow> bq25896 \<Rightarrow> int \<times> bq25896" where
  "bq25896_reg_modify E reg msk val s = locked E (reg_modify E reg msk val) s"

definition bq25896_configure :: "bq_env \<Rightarrow> bq25896_reg list \<Rightarrow> bq25896 \<Rightarrow> int \<times> bq25896" where
  "bq25896_configure E cfg s = locked E (configure_device E cfg) s"

text \<open>\<open>i2c_init\<close>: \<^verbatim>\<open>up_i2cinitialize\<close> found the bus.\<close>

definition bq25896_driver_init :: "bq_env \<Rightarrow> bool \<Rightarrow> int \<Rightarrow> int \<Rightarrow> bq25896 \<Rightarrow> int \<times> bq25896" where
  "bq25896_driver_init E i2c_init int_n pg_n s =
     (let (err, s1) = next_call E s in
      if err \<noteq> 0 then (- err, s1)
      else if i2c_up s1 then (0, s1)
      else if \<not> i2c_init then (- ENODEV, s1)
      else (0, s1\<lparr>i2c_up := True, pg_n_connected := (pg_n \<ge> 0 \<or> pg_n_connected s1),
                   int_attached := (int_n \<ge> 0 \<or> int_attached s1)\<rparr>))"

section \<open>Modes and limits\<close>

definition set_bq25896_ce_pin :: "bool \<Rightarrow> bq25896 \<Rightarrow> bq25896" where
  "set_bq25896_ce_pin charge s =
     (if chg_en s \<ge> 0 then s\<lparr>ce_value := (if chg_en_active_high s then charge else \<not> charge)\<rparr> else s)"

definition boost_current :: int where "boost_current = 500"

text \<open>The field of \<^verbatim>\<open>REG0A\<close> for a boost current.\<close>

definition boost_lim :: "int \<Rightarrow> u8 option" where
  "boost_lim c = map_of [(500, 0), (750, 1), (1200, 2), (1400, 3), (1650, 4), (1875, 5), (2150, 6)] c"

definition set_bq25896_chg :: "bq_env \<Rightarrow> bq25896_chg \<Rightarrow> bq25896 \<Rightarrow> int \<times> bq25896" where
  "set_bq25896_chg E config s0 =
     (let s = set_bq25896_ce_pin (config = BQ25896_CHG_BATTERY) s0 in
      case config of
        BQ25896_CHG_OFF \<Rightarrow> bq25896_reg_modify E 0x03 0x30 0x00 s
      | BQ25896_CHG_BATTERY \<Rightarrow> bq25896_reg_modify E 0x03 0x30 0x10 s
      | BQ25896_OTG \<Rightarrow>
          (case boost_lim boost_current of
             None \<Rightarrow> (- EINVAL, s)
           | Some b \<Rightarrow>
               (let (ret, s1) = bq25896_reg_modify E 0x0A 0x07 b s in
                if ret \<noteq> 0 then (ret, s1) else bq25896_reg_modify E 0x03 0x30 0x20 s1)))"

definition set_bq25896_input_current_limit :: "bq_env \<Rightarrow> int \<Rightarrow> bq25896 \<Rightarrow> int \<times> bq25896" where
  "set_bq25896_input_current_limit E limit s =
     (if limit < 100 then (- EINVAL, s)
      else bq25896_reg_modify E 0x00 63 (word_of_int ((min limit 3250 - 100) div 50)) s)"

definition set_bq25896_input_voltage_limit :: "bq_env \<Rightarrow> int \<Rightarrow> bq25896 \<Rightarrow> int \<times> bq25896" where
  "set_bq25896_input_voltage_limit E limit s =
     (let limit = (if limit \<le> 3900 then 3900 else limit) in
      if limit > 15300 then (- EINVAL, s)
      else
        (let delta = limit - 2600; val = delta div 100 + (if delta mod 100 \<noteq> 0 then 1 else 0)
         in bq25896_reg_modify E 0x0D (0x80 OR 127) (0x80 OR word_of_int val) s))"

definition set_bq25896_charge_current_limit :: "bq_env \<Rightarrow> int \<Rightarrow> bq25896 \<Rightarrow> int \<times> bq25896" where
  "set_bq25896_charge_current_limit E limit s =
     (if limit < 0 then (- EINVAL, s)
      else bq25896_reg_modify E 0x04 127 (word_of_int (min limit 3008 div 64)) s)"

definition set_bq25896_charge_voltage_limit :: "bq_env \<Rightarrow> int \<Rightarrow> bq25896 \<Rightarrow> int \<times> bq25896" where
  "set_bq25896_charge_voltage_limit E limit s =
     (if limit < 3840 then (- EINVAL, s)
      else bq25896_reg_modify E 0x06 (push_bit 2 63) (push_bit 2 (word_of_int ((min limit 4608 - 3840) div 16))) s)"

text \<open>The results of setting the limits are ignored.\<close>

definition set_bq25896_limits :: "bq_env \<Rightarrow> charger_config \<Rightarrow> bq25896 \<Rightarrow> bq25896" where
  "set_bq25896_limits E cfg s =
     (let s1 = snd (set_bq25896_input_current_limit E (input_current_limit cfg) s);
          s2 = snd (set_bq25896_input_voltage_limit E (input_voltage_limit cfg) s1);
          s3 = snd (set_bq25896_charge_current_limit E (charge_current_limit cfg) s2)
      in snd (set_bq25896_charge_voltage_limit E (charge_voltage_limit cfg) s3))"

definition written :: "bq_env \<Rightarrow> charger_config option \<Rightarrow> charger_config" where
  "written E cfg = (case cfg of None \<Rightarrow> unwritten E | Some c \<Rightarrow> c)"

text \<open>The outer option says whether a configuration is passed at all.\<close>

definition config_bq25896 :: "bq_env \<Rightarrow> bq25896_chg \<Rightarrow> charger_config option option \<Rightarrow> bq25896 \<Rightarrow> bq25896" where
  "config_bq25896 E chg cfg s =
     (let s1 = (case cfg of None \<Rightarrow> s | Some c \<Rightarrow> set_bq25896_limits E (written E c) (s\<lparr>settings_cfg := c\<rparr>));
          s2 = snd (set_bq25896_chg E chg (s1\<lparr>settings_chg := chg\<rparr>))
      in s2\<lparr>status_charging := (chg = BQ25896_CHG_BATTERY)\<rparr>)"

section \<open>Events of the chip\<close>

definition bq25896_pwr_good :: "bq_env \<Rightarrow> bq25896 \<Rightarrow> bq25896" where
  "bq25896_pwr_good E s =
     (if \<not> chg_sem_ok E then s
      else
        (let s1 = snd (bq25896_configure E (bq_init_data s) s) in
         case settings_chg s1 of
           BQ25896_CHG_OFF \<Rightarrow> snd (set_bq25896_chg E BQ25896_CHG_OFF s1)
         | BQ25896_CHG_BATTERY \<Rightarrow>
             snd (set_bq25896_chg E BQ25896_CHG_BATTERY (set_bq25896_limits E (written E (settings_cfg s1)) s1))
         | BQ25896_OTG \<Rightarrow> s1))"

definition bq25896_boost_fault :: "bq_env \<Rightarrow> bq25896 \<Rightarrow> bq25896" where
  "bq25896_boost_fault E s =
     (if chg_sem_ok E \<and> boost_fault_cb s then s\<lparr>boost_faults := Suc (boost_faults s)\<rparr> else s)"

text \<open>The callback gets the structure it was registered with; one that has been freed is a fault.\<close>

definition bq25896_charger_callback :: "bq_env \<Rightarrow> bq25896_event \<Rightarrow> nat \<Rightarrow> bq25896 \<Rightarrow> bq25896 option" where
  "bq25896_charger_callback E event arg s =
     (case event of
        POWER_GOOD \<Rightarrow> if info s = Some arg then Some (bq25896_pwr_good E s) else None
      | BOOST_FAULT \<Rightarrow> if info s = Some arg then Some (bq25896_boost_fault E s) else None
      | NO_POWER_GOOD \<Rightarrow> Some s)"

fun notify_event :: "bq_env \<Rightarrow> bq25896_event \<Rightarrow> nat list \<Rightarrow> bq25896 \<Rightarrow> bq25896 option" where
  "notify_event E event [] s = Some s"
| "notify_event E event (node # nodes) s =
     do { s1 \<leftarrow> bq25896_charger_callback E event node s; notify_event E event nodes s1 }"

definition pg_worker :: "bq_env \<Rightarrow> bq25896 \<Rightarrow> bq25896 option" where
  "pg_worker E s = notify_event E POWER_GOOD (notify_list s) s"

definition read_fault_reg :: "bq_env \<Rightarrow> bq25896 \<Rightarrow> int \<times> bq25896" where
  "read_fault_reg E s = bq25896_reg_read E 0x0C (snd (bq25896_reg_read E 0x0C s))"

definition boost_fault_bit :: "int \<Rightarrow> bool" where
  "boost_fault_bit regval \<longleftrightarrow> regval > 0 \<and> regval AND 0x40 \<noteq> 0"

definition fault_worker :: "bq_env \<Rightarrow> bq25896 \<Rightarrow> bq25896 option" where
  "fault_worker E s =
     (let (regval, s1) = read_fault_reg E s in
      if boost_fault_bit regval then notify_event E BOOST_FAULT (notify_list s1) s1 else Some s1)"

definition int_worker :: "bq_env \<Rightarrow> bq25896 \<Rightarrow> bq25896 option" where
  "int_worker E s =
     (let (regval, s1) = read_fault_reg E s;
          s2 = (if boost_fault_bit regval \<and> \<not> fault_work s1 then s1\<lparr>fault_work := True\<rparr> else s1)
      in if pg_n_connected s2 then Some s2
         else
           (let (regval, s3) = bq25896_reg_read E 0x0B s2 in
            if regval < 0 then Some s3
            else notify_event E (if regval AND 0x04 \<noteq> 0 then POWER_GOOD else NO_POWER_GOOD) (notify_list s3) s3))"

definition int_isr :: "bq25896 \<Rightarrow> bq25896" where
  "int_isr s = (if int_work s then s else s\<lparr>int_work := True\<rparr>)"

definition pg_isr :: "bq25896 \<Rightarrow> bq25896" where
  "pg_isr s = (if pg_work s then s else s\<lparr>pg_work := True\<rparr>)"

text \<open>
  What happens to the driver by itself: an interrupt on a pin that was attached, a worker that the
  work queue takes off and runs, and a change of the chip's status and fault registers.
\<close>

inductive chip_event :: "bq_env \<Rightarrow> bq25896 \<Rightarrow> bq25896 option \<Rightarrow> bool" for E where
  int_irq: "int_attached s \<Longrightarrow> chip_event E s (Some (int_isr s))"
| pg_irq: "pg_n_connected s \<Longrightarrow> chip_event E s (Some (pg_isr s))"
| run_int: "int_work s \<Longrightarrow> chip_event E s (int_worker E (s\<lparr>int_work := False\<rparr>))"
| run_pg: "pg_work s \<Longrightarrow> chip_event E s (pg_worker E (s\<lparr>pg_work := False\<rparr>))"
| run_fault: "fault_work s \<Longrightarrow> chip_event E s (fault_worker E (s\<lparr>fault_work := False\<rparr>))"
| status_moves: "chip_event E s (Some (s\<lparr>regs := (regs s)(0x0B := v, 0x0C := f), fault_latch := l\<rparr>))"

section \<open>Operations of the charger\<close>

definition bq25896_charger_send :: "bq_env \<Rightarrow> int \<Rightarrow> bq25896 \<Rightarrow> int \<times> int \<times> bq25896" where
  "bq25896_charger_send E current s =
     (if \<not> chg_sem_ok E then (- EINVAL, current, s)
      else (0, boost_current, config_bq25896 E BQ25896_OTG None (snd (bq25896_configure E (bq_init_data s) s))))"

definition bq25896_charger_receive :: "bq_env \<Rightarrow> charger_config option \<Rightarrow> bq25896 \<Rightarrow> int \<times> bq25896" where
  "bq25896_charger_receive E cfg s =
     (if \<not> chg_sem_ok E then (- EINVAL, s) else (0, config_bq25896 E BQ25896_CHG_BATTERY (Some cfg) s))"

definition bq25896_charger_off :: "bq_env \<Rightarrow> bq25896 \<Rightarrow> int \<times> bq25896" where
  "bq25896_charger_off E s =
     (if \<not> chg_sem_ok E then (- EINVAL, s) else (0, config_bq25896 E BQ25896_CHG_OFF None s))"

definition bq25896_charger_register_boost_fault_cb :: "bq_env \<Rightarrow> bool \<Rightarrow> bq25896 \<Rightarrow> int \<times> bq25896" where
  "bq25896_charger_register_boost_fault_cb E cb s =
     (if \<not> chg_sem_ok E then (- EINVAL, s) else (0, s\<lparr>boost_fault_cb := cb\<rparr>))"

definition bq25896_charger_max_input_voltage :: "bq25896 \<Rightarrow> int \<times> int \<times> bq25896" where
  "bq25896_charger_max_input_voltage s = (0, 14000, s)"

definition bq25896_register_callback :: "bq_env \<Rightarrow> bq25896 \<Rightarrow> int \<times> bq25896" where
  "bq25896_register_callback E s =
     (if \<not> node_ok E then (- ENOMEM, s)
      else (0, case info s of None \<Rightarrow> s | Some i \<Rightarrow> s\<lparr>notify_list := notify_list s @ [i]\<rparr>))"

text \<open>
  Probe: memory for the structure and for the copy of the initial data, the pins among the resources
  (\<open>-1\<close> where there is none; the interrupt pins are passed on as 16-bit numbers), and the chip as it is.
\<close>

definition bq25896_charger_probe ::
    "bq_env \<Rightarrow> bool \<Rightarrow> bool \<Rightarrow> bool \<Rightarrow> bq25896_reg list \<Rightarrow> int \<Rightarrow> int \<Rightarrow> int \<Rightarrow> int \<Rightarrow> bq25896 \<Rightarrow> int \<times> bq25896" where
  "bq25896_charger_probe E zalloc_ok regs_ok i2c_init init en en_n int_n pg_n s =
     (if \<not> zalloc_ok then (- ENOMEM, s)
      else if init \<noteq> [] \<and> \<not> regs_ok then (- ENOMEM, s)
      else
        (let s1 = s\<lparr>bq_init_data := init, settings_chg := BQ25896_CHG_OFF,
                    settings_cfg := Some \<lparr>input_current_limit = 0, input_voltage_limit = 0,
                                          charge_current_limit = 0, charge_voltage_limit = 0\<rparr>,
                    boost_fault_cb := False, chg_en := (if en \<ge> 0 then en else en_n), chg_en_active_high := en \<ge> 0\<rparr>;
             s2 = (if chg_en s1 \<ge> 0 then s1\<lparr>ce_value := \<not> chg_en_active_high s1\<rparr> else s1);
             (ret, s3) = bq25896_driver_init E i2c_init (signed_take_bit 15 int_n) (signed_take_bit 15 pg_n) s2
         in if ret \<noteq> 0 then (ret, s3) else (0, s3\<lparr>info := Some (infos s3), infos := Suc (infos s3)\<rparr>)))"

definition bq25896_charger_remove :: "bq25896 \<Rightarrow> bq25896" where
  "bq25896_charger_remove s = s\<lparr>info := None\<rparr>"

definition bq25896_charger_open :: "bq_env \<Rightarrow> bq25896 \<Rightarrow> int \<times> bq25896" where
  "bq25896_charger_open E s =
     (if fst (sem_init_rets E) \<noteq> 0 then (fst (sem_init_rets E), s)
      else if snd (sem_init_rets E) \<noteq> 0 then (snd (sem_init_rets E), s)
      else bq25896_register_callback E (config_bq25896 E BQ25896_CHG_OFF None (snd (bq25896_reg_modify E 0x09 0x20 0x00 s))))"

text \<open>The table of operations. \<^verbatim>\<open>close\<close> only releases the semaphores.\<close>

definition bq25896_charger_type_ops :: "bq_env \<Rightarrow> bq25896 charger_ops" where
  "bq25896_charger_type_ops E =
     \<lparr>charger_off = bq25896_charger_off E, charger_receive = bq25896_charger_receive E,
      charger_send = bq25896_charger_send E, charger_max_input_voltage = bq25896_charger_max_input_voltage,
      charger_open = (\<lambda>s. let (r, s1) = bq25896_charger_open E s in (r = 0, s1))\<rparr>"

text \<open>The registers the board of the module sets (\<^verbatim>\<open>stm32_boot.c\<close>).\<close>

definition bq25896_charger_init_data :: "bq25896_reg list" where
  "bq25896_charger_init_data =
     [(0x02, 0x10, 0x00), (0x03, 0x01, 0x01), (0x05, 0xF0, 0x00), (0x06, 0x02, 0x00), (0x07, 0x30 OR 0x80, 0x00)]"

end
