(* ===== verification/ExtPower.thy ===== *)
theory ExtPower
  imports Prelude
begin

text \<open>
  The registry of external power sources, \<^verbatim>\<open>drivers/power/ext_power.c\<close>. The source devices are
  parameters acting on the world \<open>'x\<close>. The clients are the sequence of their callbacks, applied to
  their arguments; a callback acts on the state \<open>'w\<close> of the whole system, in which it finds the array
  of devices.
\<close>

datatype ext_power_source_e = EXT_POWER_WIRED | EXT_POWER_WIRELESS | EXT_POWER_DONGLE

text \<open>\<open>ext_open\<close> says whether \<^verbatim>\<open>device_open\<close> found the device and it was not open already.\<close>

record 'x ext_ops =
  ext_open :: "ext_power_source_e \<Rightarrow> 'x \<Rightarrow> bool \<times> 'x"
  ext_close :: "ext_power_source_e \<Rightarrow> 'x \<Rightarrow> 'x"
  ext_register :: "ext_power_source_e \<Rightarrow> 'x \<Rightarrow> int \<times> 'x"
  ext_set_max :: "ext_power_source_e \<Rightarrow> int \<Rightarrow> 'x \<Rightarrow> int \<times> 'x"
  ext_get_output :: "ext_power_source_e \<Rightarrow> 'x \<Rightarrow> int \<times> int \<times> int"

record 'x ext_power =
  ext_dev :: "ext_power_source_e \<Rightarrow> bool"
  initialized :: bool
  ext_world :: 'x

text \<open>
  The cleanup after a failed registration runs over \<^verbatim>\<open>j\<close> but closes \<^verbatim>\<open>dev[i]\<close> in every round;
  from the second round on that is a null pointer, which \<^verbatim>\<open>device_close\<close> ignores.
\<close>

fun ext_power_init_loop :: "'x ext_ops \<Rightarrow> ext_power_source_e list \<Rightarrow> 'x ext_power \<Rightarrow> int \<times> 'x ext_power" where
  "ext_power_init_loop X [] s = (0, s\<lparr>initialized := True\<rparr>)"
| "ext_power_init_loop X (i # is) s =
     (let (ok, x1) = ext_open X i (ext_world s);
          s1 = s\<lparr>ext_dev := (ext_dev s)(i := ok), ext_world := x1\<rparr>
      in if ok
         then (let (r, x2) = ext_register X i x1
               in if r \<noteq> 0
                  then (r, s1\<lparr>ext_dev := (ext_dev s1)(i := False), ext_world := ext_close X i x2\<rparr>)
                  else ext_power_init_loop X is (s1\<lparr>ext_world := x2\<rparr>))
         else ext_power_init_loop X is s1)"

definition ext_power_init :: "'x ext_ops \<Rightarrow> 'x ext_power \<Rightarrow> int \<times> 'x ext_power" where
  "ext_power_init X s =
     (if initialized s then (0, s)
      else ext_power_init_loop X [EXT_POWER_WIRED, EXT_POWER_WIRELESS, EXT_POWER_DONGLE] s)"

definition ext_power_set_max_output_voltage ::
    "'x ext_ops \<Rightarrow> ext_power_source_e \<Rightarrow> int \<Rightarrow> 'x ext_power \<Rightarrow> int \<times> 'x ext_power" where
  "ext_power_set_max_output_voltage X source voltage s =
     (let (retval, s1) = ext_power_init X s in
      if retval \<noteq> 0 then (retval, s1)
      else if ext_dev s1 source
      then (let (r, x) = ext_set_max X source voltage (ext_world s1) in (r, s1\<lparr>ext_world := x\<rparr>))
      else (0, s1))"

section \<open>Clients\<close>

text \<open>
  \<open>sem_ok\<close>: waiting for the semaphore did not fail with \<^verbatim>\<open>EINVAL\<close>; \<open>node_ok\<close>: there was memory for
  the node; \<open>init\<close>: the initialisation of the registry within the state of the system.
\<close>

type_synonym 'w ext_client = "'w \<Rightarrow> 'w"

fun notify_clients :: "'w ext_client list \<Rightarrow> 'w \<Rightarrow> 'w" where
  "notify_clients [] w = w"
| "notify_clients (cb # cbs) w = notify_clients cbs (cb w)"

definition ext_power_state_changed :: "bool \<Rightarrow> 'w ext_client list \<Rightarrow> 'w \<Rightarrow> 'w" where
  "ext_power_state_changed sem_ok notify_list w = (if \<not> sem_ok then w else notify_clients notify_list w)"

definition ext_power_register_callback ::
    "('w \<Rightarrow> int \<times> 'w) \<Rightarrow> bool \<Rightarrow> bool \<Rightarrow> 'w ext_client \<Rightarrow> 'w ext_client list \<Rightarrow> 'w \<Rightarrow> int \<times> 'w ext_client list \<times> 'w" where
  "ext_power_register_callback init sem_ok node_ok cb notify_list w =
     (if \<not> sem_ok then (- EINVAL, notify_list, w)
      else
        (let (retval, w1) = init w in
         if retval \<noteq> 0 then (retval, notify_list, w1)
         else if \<not> node_ok then (- ENOMEM, notify_list, w1)
         else (0, notify_list @ [cb], cb w1)))"

lemma notify_append [simp]: "notify_clients (cs @ ds) w = notify_clients ds (notify_clients cs w)"
  by (induction cs arbitrary: w) auto

text \<open>
  A client that registers hears of the current state at once, and of every later change after the
  clients before it. A client that could not register is not called.
\<close>

lemma registered_client_is_called:
  assumes "ext_power_register_callback init True node_ok cb cs w = (r, cs', w')"
  shows "if r = 0 then w' = cb (snd (init w)) \<and> (\<forall>v. ext_power_state_changed True cs' v = cb (ext_power_state_changed True cs v))
    else cs' = cs \<and> w' = snd (init w)"
  using assms
  by (auto simp: ext_power_register_callback_def ext_power_state_changed_def ENOMEM_def split: prod.splits if_splits)

section \<open>A failed initialisation\<close>

text \<open>
  A failed registration leaves the sources before it open: if the wired source opens and
  registers but the wireless one cannot register, the initialisation returns the error with the
  wired device still held, and only the wireless one is closed.
\<close>

theorem failed_ext_init_keeps_earlier_sources:
  assumes "\<not> initialized s"
    and "ext_open X EXT_POWER_WIRED (ext_world s) = (True, x1)" "ext_register X EXT_POWER_WIRED x1 = (0, x2)"
    and "ext_open X EXT_POWER_WIRELESS x2 = (True, x3)" "ext_register X EXT_POWER_WIRELESS x3 = (r, x4)" "r \<noteq> 0"
  shows "\<exists>s'. ext_power_init X s = (r, s') \<and> ext_dev s' EXT_POWER_WIRED \<and> \<not> ext_dev s' EXT_POWER_WIRELESS \<and>
     \<not> initialized s' \<and> ext_world s' = ext_close X EXT_POWER_WIRELESS x4"
  using assms by (simp add: ext_power_init_def)

definition sample_ext_ops :: "nat ext_ops" where
  "sample_ext_ops = \<lparr>ext_open = (\<lambda>_ x. (True, x)), ext_close = (\<lambda>_ x. Suc x),
     ext_register = (\<lambda>i x. (if i = EXT_POWER_WIRELESS then - EIO else 0, x)),
     ext_set_max = (\<lambda>_ _ x. (0, x)), ext_get_output = (\<lambda>_ _. (0, 1000, 5000))\<rparr>"

theorem failed_ext_init_keeps_earlier_sources_witness:
  "\<exists>s'. ext_power_init sample_ext_ops \<lparr>ext_dev = (\<lambda>_. False), initialized = False, ext_world = 0\<rparr> = (- EIO, s') \<and>
     ext_dev s' EXT_POWER_WIRED \<and> ext_world s' = 1"
proof -
  let ?s = "\<lparr>ext_dev = (\<lambda>_. False), initialized = False, ext_world = 0\<rparr>"
  have "\<exists>s'. ext_power_init sample_ext_ops ?s = (- EIO, s') \<and> ext_dev s' EXT_POWER_WIRED \<and>
      \<not> ext_dev s' EXT_POWER_WIRELESS \<and> \<not> initialized s' \<and>
      ext_world s' = ext_close sample_ext_ops EXT_POWER_WIRELESS 0"
    by (rule failed_ext_init_keeps_earlier_sources) (simp_all add: sample_ext_ops_def EIO_def)
  then show ?thesis by (auto simp: sample_ext_ops_def)
qed

end
