(* ===== verification/Ptp.thy ===== *)
theory Ptp
  imports SwitchChg ExtPower
begin

text \<open>
  The power transfer protocol, \<^verbatim>\<open>drivers/greybus/mods/mods-ptp.c\<close>, for the configuration of the FM
  transmitter module: battery present, battery power may be sent to the base and received from it,
  external sources supported. The charger is reached through a table of operations, as in the
  source; the table of the switch driver is in this theory too. Every operation runs under the
  driver's semaphore and is one step; the semaphore is always valid.
\<close>

section \<open>Configuration and constants\<close>

definition CONFIG_GREYBUS_MODS_MAX_VBUS_CURRENT :: int where [config_simps]: "CONFIG_GREYBUS_MODS_MAX_VBUS_CURRENT = 3000"
definition CONFIG_GREYBUS_MODS_MAX_VBUS_VOLTAGE :: int where [config_simps]: "CONFIG_GREYBUS_MODS_MAX_VBUS_VOLTAGE = 30000"
definition CONFIG_GREYBUS_MODS_QUICK_CHG_CURRENT :: int where [config_simps]: "CONFIG_GREYBUS_MODS_QUICK_CHG_CURRENT = 300"
definition CONFIG_GREYBUS_MODS_SLOW_CHG_CURRENT :: int where [config_simps]: "CONFIG_GREYBUS_MODS_SLOW_CHG_CURRENT = 300"
definition CONFIG_GREYBUS_MODS_REDUCED_CHG_CURRENT :: int where [config_simps]: "CONFIG_GREYBUS_MODS_REDUCED_CHG_CURRENT = 300"
definition CONFIG_GREYBUS_MODS_FULL_CHG_VOLTAGE :: int where [config_simps]: "CONFIG_GREYBUS_MODS_FULL_CHG_VOLTAGE = 4350"
definition CONFIG_GREYBUS_MODS_REDUCED_CHG_VOLTAGE :: int where [config_simps]: "CONFIG_GREYBUS_MODS_REDUCED_CHG_VOLTAGE = 4200"
definition CONFIG_GREYBUS_MODS_INPUT_VOLTAGE_OFFSET :: int where [config_simps]: "CONFIG_GREYBUS_MODS_INPUT_VOLTAGE_OFFSET = 500"
definition CONFIG_GREYBUS_MODS_NORMAL_BATTERY_OUTPUT_CURRENT :: int where [config_simps]: "CONFIG_GREYBUS_MODS_NORMAL_BATTERY_OUTPUT_CURRENT = 500"
definition CONFIG_GREYBUS_MODS_LOW_BATTERY_OUTPUT_CURRENT :: int where [config_simps]: "CONFIG_GREYBUS_MODS_LOW_BATTERY_OUTPUT_CURRENT = 300"

definition DEFAULT_BASE_CURRENT :: int where [config_simps]: "DEFAULT_BASE_CURRENT = 500"
definition DEFAULT_BASE_VOLTAGE :: int where [config_simps]: "DEFAULT_BASE_VOLTAGE = 5000"
definition DEFAULT_PMIC_MAX_INPUT_VOLTAGE :: int where [config_simps]: "DEFAULT_PMIC_MAX_INPUT_VOLTAGE = 5000"
definition DEFAULT_MAX_OUTPUT_VOLTAGE :: int where [config_simps]: "DEFAULT_MAX_OUTPUT_VOLTAGE = 5000"
definition BATTERY_SOURCE_OUTPUT_VOLTAGE :: int where [config_simps]: "BATTERY_SOURCE_OUTPUT_VOLTAGE = 5000"

text \<open>The direction is a byte sent by the base; any value is stored.\<close>

definition PTP_CURRENT_OFF :: u8 where [config_simps]: "PTP_CURRENT_OFF = 0"
definition PTP_CURRENT_TO_MOD :: u8 where [config_simps]: "PTP_CURRENT_TO_MOD = 1"
definition PTP_CURRENT_FROM_MOD :: u8 where [config_simps]: "PTP_CURRENT_FROM_MOD = 2"

datatype ptp_ext_power =
  PTP_EXT_POWER_NOT_PRESENT | PTP_EXT_POWER_PRESENT | PTP_EXT_POWER_WIRELESS_PRESENT
| PTP_EXT_POWER_WIRED_PRESENT | PTP_EXT_POWER_WIRED_WIRELESS_PRESENT | PTP_EXT_POWER_DONGLE_PRESENT

datatype ptp_power_available = PTP_POWER_AVAILABLE_NONE | PTP_POWER_AVAILABLE_EXT | PTP_POWER_AVAILABLE_INT

datatype ptp_power_source =
  PTP_POWER_SOURCE_NONE | PTP_POWER_SOURCE_BATTERY | PTP_POWER_SOURCE_WIRED | PTP_POWER_SOURCE_WIRELESS
| PTP_POWER_SOURCE_DONGLE

datatype ptp_power_required = PTP_POWER_NOT_REQUIRED | PTP_POWER_REQUIRED

datatype ptp_change = POWER_PRESENT | POWER_REQUIRED | POWER_AVAILABLE

datatype batt_temp_e =
  BATTERY_TEMP_NORMAL | BATTERY_TEMP_REDUCED_CHARGING | BATTERY_TEMP_NO_CHARGING | BATTERY_TEMP_COOL_DOWN
| BATTERY_TEMP_UNAVAILABLE

datatype batt_level_e = BATTERY_LEVEL_EMPTY | BATTERY_LEVEL_LOW | BATTERY_LEVEL_NORMAL | BATTERY_LEVEL_FULL

datatype batt_voltage_e = BATTERY_QUICK_CHARGE | BATTERY_SLOW_CHARGE

record batt_state_s =
  batt_temp :: batt_temp_e
  batt_level :: batt_level_e
  batt_voltage :: batt_voltage_e

section \<open>State\<close>

record mods_ptp_chg_source =
  src_current :: int
  src_voltage :: int

record mods_ptp_battery =
  chg_allowed :: bool
  dischg_allowed :: bool
  low_battery :: bool
  charge_current :: int
  charge_voltage :: int
  batt_src :: mods_ptp_chg_source

record mods_ptp_base_commands =
  direction :: u8
  base_src :: mods_ptp_chg_source
  max_output_voltage :: int

record ptp_reported =
  present :: ptp_ext_power
  available :: ptp_power_available
  source :: ptp_power_source
  to_base :: mods_ptp_chg_source
  required :: ptp_power_required
  max_input_voltage :: int

text \<open>
  The driver's data, with the three local static flags of the callbacks, the battery state the
  battery callback remembers, and the devices: charger and external power. \<open>changed_cb\<close> says
  whether a client is registered, \<open>notified\<close> what it was told (newest first).
\<close>

record ('c, 'x) ptp_info =
  attached :: base_attached_e
  commands :: mods_ptp_base_commands
  battery :: mods_ptp_battery
  wired :: mods_ptp_chg_source
  wireless :: mods_ptp_chg_source
  dongle :: mods_ptp_chg_source
  pmic_max_input_voltage :: int
  base_powered_off :: bool
  report :: ptp_reported
  boost_fault :: bool
  changed_cb :: bool
  notified :: "ptp_change list"
  attach_first :: bool
  batt_first :: bool
  batt_last :: batt_state_s
  ext_first :: bool
  chg_dev :: 'c
  ext :: "'x ext_power"

text \<open>The operations of a charger device, from \<^verbatim>\<open>include/nuttx/device_ptp_chg.h\<close>.\<close>

record 'c ptp_chg_ops =
  send_wireless_pwr :: "'c \<Rightarrow> int \<times> 'c"
  send_wired_pwr :: "'c \<Rightarrow> int \<times> 'c"
  receive_wireless_pwr :: "charger_config option \<Rightarrow> 'c \<Rightarrow> int \<times> 'c"
  receive_wired_pwr :: "charger_config option \<Rightarrow> 'c \<Rightarrow> int \<times> 'c"
  send_batt_pwr :: "int \<Rightarrow> 'c \<Rightarrow> int \<times> int \<times> 'c"
  receive_base_pwr :: "charger_config option \<Rightarrow> 'c \<Rightarrow> int \<times> 'c"
  all_paths_open :: "'c \<Rightarrow> int \<times> 'c"
  chg_max_input_voltage :: "'c \<Rightarrow> int \<times> int \<times> 'c"
  chg_off :: "'c \<Rightarrow> int \<times> 'c"

definition switch_ptp_chg_type_ops :: "'w charger_ops \<Rightarrow> 'w switch_ptp_chg_info ptp_chg_ops" where
  "switch_ptp_chg_type_ops E =
     \<lparr>send_wireless_pwr = switch_ptp_chg_send_wireless_pwr E, send_wired_pwr = switch_ptp_chg_send_wired_pwr E,
      receive_wireless_pwr = switch_ptp_chg_receive_wireless_pwr E,
      receive_wired_pwr = switch_ptp_chg_receive_wired_pwr E,
      send_batt_pwr = switch_ptp_chg_send_batt_pwr E, receive_base_pwr = switch_ptp_chg_receive_base_pwr E,
      all_paths_open = switch_ptp_chg_all_paths_open E, chg_max_input_voltage = switch_ptp_chg_max_input_voltage E,
      chg_off = switch_ptp_chg_off E\<rparr>"

text \<open>Calling a charger operation on the device of the driver.\<close>

definition on_chg :: "('c \<Rightarrow> int \<times> 'c) \<Rightarrow> ('c, 'x) ptp_info \<Rightarrow> int \<times> ('c, 'x) ptp_info" where
  "on_chg f s = (let (r, c) = f (chg_dev s) in (r, s\<lparr>chg_dev := c\<rparr>))"

section \<open>Choosing a source\<close>

definition no_source :: mods_ptp_chg_source where
  "no_source = \<lparr>src_current = 0, src_voltage = 0\<rparr>"

fun source_output :: "('c, 'x) ptp_info \<Rightarrow> ptp_power_source \<Rightarrow> mods_ptp_chg_source option" where
  "source_output s PTP_POWER_SOURCE_NONE = Some no_source"
| "source_output s PTP_POWER_SOURCE_BATTERY = Some (batt_src (battery s))"
| "source_output s PTP_POWER_SOURCE_WIRED = Some (wired s)"
| "source_output s PTP_POWER_SOURCE_WIRELESS = Some (wireless s)"
| "source_output s PTP_POWER_SOURCE_DONGLE = None"

definition do_set_base_source :: "ptp_power_source \<Rightarrow> ('c, 'x) ptp_info \<Rightarrow> ('c, 'x) ptp_info" where
  "do_set_base_source src s =
     (case source_output s src of
        None \<Rightarrow> s
      | Some out \<Rightarrow>
          s\<lparr>report := (report s)\<lparr>source := src,
              to_base := \<lparr>src_current = min CONFIG_GREYBUS_MODS_MAX_VBUS_CURRENT (src_current out),
                          src_voltage = src_voltage out\<rparr>\<rparr>\<rparr>)"

text \<open>Products stay within the range of \<^verbatim>\<open>int\<close> for sources below 2147 W.\<close>

definition do_calculate_power :: "mods_ptp_chg_source \<Rightarrow> int \<Rightarrow> int" where
  "do_calculate_power src max_v = (if src_voltage src \<le> max_v then src_current src * src_voltage src else 0)"

text \<open>Index 0 of the array of sources is the null pointer.\<close>

definition ext_src :: "('c, 'x) ptp_info \<Rightarrow> ext_power_source_e \<Rightarrow> mods_ptp_chg_source" where
  "ext_src s i = (case i of EXT_POWER_WIRED \<Rightarrow> wired s | EXT_POWER_WIRELESS \<Rightarrow> wireless s | EXT_POWER_DONGLE \<Rightarrow> dongle s)"

fun choose_loop ::
    "('c, 'x) ptp_info \<Rightarrow> int \<Rightarrow> ext_power_source_e list \<Rightarrow> int \<Rightarrow> ext_power_source_e option \<Rightarrow> ext_power_source_e option" where
  "choose_loop s max_v [] pwr selected = selected"
| "choose_loop s max_v (i # is) pwr selected =
     (let new_pwr = do_calculate_power (ext_src s i) max_v in
      if new_pwr > pwr then choose_loop s max_v is new_pwr (Some i) else choose_loop s max_v is pwr selected)"

definition do_choose_ext_src :: "('c, 'x) ptp_info \<Rightarrow> int \<Rightarrow> ext_power_source_e option" where
  "do_choose_ext_src s max_v =
     choose_loop s max_v [EXT_POWER_WIRED, EXT_POWER_WIRELESS, EXT_POWER_DONGLE] 0 None"

text \<open>Both calls of \<^verbatim>\<open>ext_power_set_max_output_voltage\<close>, whose results are ignored.\<close>

definition limit_ext :: "'x ext_ops \<Rightarrow> int \<Rightarrow> ('c, 'x) ptp_info \<Rightarrow> ('c, 'x) ptp_info" where
  "limit_ext X max_v s =
     (let e1 = snd (ext_power_set_max_output_voltage X EXT_POWER_WIRED max_v (ext s));
          e2 = snd (ext_power_set_max_output_voltage X EXT_POWER_WIRELESS max_v e1)
      in s\<lparr>ext := e2\<rparr>)"

section \<open>Acting on the state\<close>

text \<open>Sending battery power: the current the charger reports is capped by the battery's level.\<close>

definition send_battery :: "'c ptp_chg_ops \<Rightarrow> ('c, 'x) ptp_info \<Rightarrow> int \<times> ('c, 'x) ptp_info" where
  "send_battery Q s =
     (let (r, cur, c) = send_batt_pwr Q (src_current (batt_src (battery s))) (chg_dev s);
          s1 = s\<lparr>chg_dev := c, battery := (battery s)\<lparr>batt_src := (batt_src (battery s))\<lparr>src_current := cur\<rparr>\<rparr>\<rparr>
      in if r = 0
         then (r, do_set_base_source PTP_POWER_SOURCE_BATTERY
                 (s1\<lparr>battery := (battery s1)\<lparr>batt_src :=
                    \<lparr>src_current = min cur (if low_battery (battery s1) then CONFIG_GREYBUS_MODS_LOW_BATTERY_OUTPUT_CURRENT
                                           else CONFIG_GREYBUS_MODS_NORMAL_BATTERY_OUTPUT_CURRENT),
                     src_voltage = BATTERY_SOURCE_OUTPUT_VOLTAGE\<rparr>\<rparr>\<rparr>))
         else (r, s1))"

definition do_charge_base :: "'c ptp_chg_ops \<Rightarrow> 'x ext_ops \<Rightarrow> ('c, 'x) ptp_info \<Rightarrow> int \<times> ('c, 'x) ptp_info" where
  "do_charge_base Q X s0 =
     (let s = do_set_base_source PTP_POWER_SOURCE_NONE s0 in
      if boost_fault s
      then on_chg (chg_off Q) (s\<lparr>commands := (commands s)\<lparr>direction := PTP_CURRENT_OFF\<rparr>\<rparr>)
      else
        (let max_v = min (max_output_voltage (commands s)) (pmic_max_input_voltage s);
             src = do_choose_ext_src s max_v;
             s1 = limit_ext X max_v s
         in if src = Some EXT_POWER_WIRED
            then (let (r, s2) = on_chg (send_wired_pwr Q) s1
                  in (r, if r = 0 then do_set_base_source PTP_POWER_SOURCE_WIRED s2 else s2))
            else if src = Some EXT_POWER_WIRELESS
            then (let (r, s2) = on_chg (send_wireless_pwr Q) s1
                  in (r, if r = 0 then do_set_base_source PTP_POWER_SOURCE_WIRELESS s2 else s2))
            else if dischg_allowed (battery s1) \<and> \<not> base_powered_off s1
            then send_battery Q s1
            else on_chg (chg_off Q) s1))"

definition chg_cfg :: "mods_ptp_chg_source \<Rightarrow> mods_ptp_battery \<Rightarrow> charger_config" where
  "chg_cfg src b =
     \<lparr>input_current_limit = src_current src,
      input_voltage_limit = src_voltage src - CONFIG_GREYBUS_MODS_INPUT_VOLTAGE_OFFSET,
      charge_current_limit = charge_current b, charge_voltage_limit = charge_voltage b\<rparr>"

text \<open>In the last case the local configuration is passed on without having been written.\<close>

definition do_charge_battery_with_external_power ::
    "'c ptp_chg_ops \<Rightarrow> 'x ext_ops \<Rightarrow> ('c, 'x) ptp_info \<Rightarrow> int \<times> ('c, 'x) ptp_info" where
  "do_charge_battery_with_external_power Q X s0 =
     (let s = do_set_base_source PTP_POWER_SOURCE_NONE s0;
          max_v = pmic_max_input_voltage s;
          src = do_choose_ext_src s max_v;
          s1 = limit_ext X max_v s
      in if chg_allowed (battery s1) \<and> src = None then on_chg (all_paths_open Q) s1
         else case src of
           Some i \<Rightarrow>
             if chg_allowed (battery s1) \<and> src_current (ext_src s1 i) \<noteq> 0
             then (let cfg = Some (chg_cfg (ext_src s1 i) (battery s1))
                   in case i of
                        EXT_POWER_WIRED \<Rightarrow> on_chg (receive_wired_pwr Q cfg) s1
                      | EXT_POWER_WIRELESS \<Rightarrow> on_chg (receive_wireless_pwr Q cfg) s1
                      | EXT_POWER_DONGLE \<Rightarrow> on_chg (receive_base_pwr Q cfg) s1)
             else on_chg (receive_base_pwr Q None) s1
         | None \<Rightarrow> on_chg (receive_base_pwr Q None) s1)"

definition do_charge_battery_with_base_power :: "'c ptp_chg_ops \<Rightarrow> ('c, 'x) ptp_info \<Rightarrow> int \<times> ('c, 'x) ptp_info" where
  "do_charge_battery_with_base_power Q s0 =
     (let s = do_set_base_source PTP_POWER_SOURCE_NONE s0 in
      if \<not> chg_allowed (battery s) then on_chg (chg_off Q) s
      else on_chg (receive_base_pwr Q (Some (chg_cfg (base_src (commands s)) (battery s)))) s)"

definition do_off :: "'c ptp_chg_ops \<Rightarrow> ('c, 'x) ptp_info \<Rightarrow> ('c, 'x) ptp_info" where
  "do_off Q s = snd (on_chg (chg_off Q) (do_set_base_source PTP_POWER_SOURCE_NONE s))"

definition mods_ptp_process :: "'c ptp_chg_ops \<Rightarrow> 'x ext_ops \<Rightarrow> ('c, 'x) ptp_info \<Rightarrow> int \<times> ('c, 'x) ptp_info" where
  "mods_ptp_process Q X s =
     (case attached s of
        BASE_ATTACHED_OFF \<Rightarrow> do_charge_base Q X s
      | BASE_ATTACHED \<Rightarrow>
          if direction (commands s) = PTP_CURRENT_OFF then do_charge_battery_with_external_power Q X s
          else if direction (commands s) = PTP_CURRENT_TO_MOD then do_charge_battery_with_base_power Q s
          else if direction (commands s) = PTP_CURRENT_FROM_MOD then do_charge_base Q X s
          else (- EINVAL, do_off Q s)
      | BASE_DETACHED \<Rightarrow> do_charge_battery_with_external_power Q X s
      | BASE_INVALID \<Rightarrow> (0, s))"

definition mods_ptp_reset_base_commands :: mods_ptp_base_commands where
  "mods_ptp_reset_base_commands =
     \<lparr>direction = PTP_CURRENT_OFF,
      base_src = \<lparr>src_current = min CONFIG_GREYBUS_MODS_MAX_VBUS_CURRENT DEFAULT_BASE_CURRENT,
                  src_voltage = DEFAULT_BASE_VOLTAGE\<rparr>,
      max_output_voltage = DEFAULT_MAX_OUTPUT_VOLTAGE\<rparr>"

section \<open>Events\<close>

definition mods_ptp_attach_changed ::
    "'c ptp_chg_ops \<Rightarrow> 'x ext_ops \<Rightarrow> base_attached_e \<Rightarrow> ('c, 'x) ptp_info \<Rightarrow> int \<times> ('c, 'x) ptp_info" where
  "mods_ptp_attach_changed Q X st s =
     (if attach_first s
      then (OK, s\<lparr>attach_first := False, attached := st, base_powered_off := (st = BASE_ATTACHED_OFF)\<rparr>)
      else if attached s = st then (OK, s)
      else
        (let s1 = (if st = BASE_ATTACHED then s\<lparr>commands := mods_ptp_reset_base_commands\<rparr>
                   else if st = BASE_DETACHED then s\<lparr>boost_fault := False\<rparr> else s);
             s2 = s1\<lparr>base_powered_off := (st = BASE_ATTACHED_OFF \<and> attached s1 = BASE_ATTACHED)\<rparr>
         in (OK, snd (mods_ptp_process Q X (s2\<lparr>attached := st\<rparr>)))))"

definition mods_ptp_set_current_flow ::
    "'c ptp_chg_ops \<Rightarrow> 'x ext_ops \<Rightarrow> u8 \<Rightarrow> ('c, 'x) ptp_info \<Rightarrow> int \<times> ('c, 'x) ptp_info" where
  "mods_ptp_set_current_flow Q X dir s =
     (if attached s \<noteq> BASE_ATTACHED then (- EPERM, s)
      else if direction (commands s) = dir then (0, s)
      else (0, snd (mods_ptp_process Q X (s\<lparr>commands := (commands s)\<lparr>direction := dir\<rparr>\<rparr>))))"

definition mods_ptp_get_current_flow :: "('c, 'x) ptp_info \<Rightarrow> int \<times> u8" where
  "mods_ptp_get_current_flow s = (0, direction (commands s))"

definition notify :: "ptp_change \<Rightarrow> bool \<Rightarrow> ('c, 'x) ptp_info \<Rightarrow> ('c, 'x) ptp_info" where
  "notify ch changed s = (if changed_cb s \<and> changed then s\<lparr>notified := ch # notified s\<rparr> else s)"

definition mods_ptp_set_power_availability :: "('c, 'x) ptp_info \<Rightarrow> ('c, 'x) ptp_info" where
  "mods_ptp_set_power_availability s =
     (let old = available (report s);
          s1 = (if src_current (wired s) > 0 \<or> src_current (wireless s) > 0 \<or> src_current (dongle s) > 0
                then s\<lparr>report := (report s)\<lparr>available := PTP_POWER_AVAILABLE_EXT\<rparr>\<rparr>
                else if dischg_allowed (battery s)
                then s\<lparr>report := (report s)\<lparr>available := PTP_POWER_AVAILABLE_INT\<rparr>\<rparr>
                else s)
      in notify POWER_AVAILABLE (available (report s1) \<noteq> old) s1)"

definition mods_ptp_set_power_needs :: "('c, 'x) ptp_info \<Rightarrow> ('c, 'x) ptp_info" where
  "mods_ptp_set_power_needs s =
     (let old = required (report s);
          s1 = s\<lparr>report := (report s)\<lparr>required := if chg_allowed (battery s) then PTP_POWER_REQUIRED
                                                 else PTP_POWER_NOT_REQUIRED\<rparr>\<rparr>
      in notify POWER_REQUIRED (required (report s1) \<noteq> old) s1)"

definition mods_ptp_boost_fault :: "'c ptp_chg_ops \<Rightarrow> 'x ext_ops \<Rightarrow> ('c, 'x) ptp_info \<Rightarrow> ('c, 'x) ptp_info" where
  "mods_ptp_boost_fault Q X s =
     (if boost_fault s then s else snd (mods_ptp_process Q X (s\<lparr>boost_fault := True\<rparr>)))"

definition mods_ptp_set_battery_state :: "batt_state_s \<Rightarrow> mods_ptp_battery \<Rightarrow> mods_ptp_battery" where
  "mods_ptp_set_battery_state batt b =
     (let b1 = b\<lparr>chg_allowed := (batt_temp batt \<noteq> BATTERY_TEMP_NO_CHARGING \<and> batt_temp batt \<noteq> BATTERY_TEMP_COOL_DOWN \<and>
                                batt_level batt \<noteq> BATTERY_LEVEL_FULL),
                 dischg_allowed := (batt_temp batt \<noteq> BATTERY_TEMP_COOL_DOWN \<and> batt_temp batt \<noteq> BATTERY_TEMP_UNAVAILABLE \<and>
                                   batt_level batt \<noteq> BATTERY_LEVEL_EMPTY),
                 low_battery := (batt_level batt \<noteq> BATTERY_LEVEL_FULL \<and> batt_level batt \<noteq> BATTERY_LEVEL_NORMAL)\<rparr>
      in if \<not> chg_allowed b1 then b1
         else if batt_temp batt = BATTERY_TEMP_NORMAL
         then b1\<lparr>charge_current := if batt_voltage batt = BATTERY_QUICK_CHARGE then CONFIG_GREYBUS_MODS_QUICK_CHG_CURRENT
                                   else CONFIG_GREYBUS_MODS_SLOW_CHG_CURRENT,
                 charge_voltage := CONFIG_GREYBUS_MODS_FULL_CHG_VOLTAGE\<rparr>
         else b1\<lparr>charge_current := if batt_voltage batt = BATTERY_QUICK_CHARGE then CONFIG_GREYBUS_MODS_REDUCED_CHG_CURRENT
                                   else min CONFIG_GREYBUS_MODS_REDUCED_CHG_CURRENT CONFIG_GREYBUS_MODS_SLOW_CHG_CURRENT,
                 charge_voltage := CONFIG_GREYBUS_MODS_REDUCED_CHG_VOLTAGE\<rparr>)"

definition mods_ptp_battery_changed ::
    "'c ptp_chg_ops \<Rightarrow> 'x ext_ops \<Rightarrow> batt_state_s \<Rightarrow> ('c, 'x) ptp_info \<Rightarrow> ('c, 'x) ptp_info" where
  "mods_ptp_battery_changed Q X batt s =
     (if batt_first s
      then s\<lparr>batt_first := False, batt_last := batt, battery := mods_ptp_set_battery_state batt (battery s)\<rparr>
      else if batt_last s = batt then s
      else
        (let old = battery s;
             s1 = s\<lparr>batt_last := batt, battery := mods_ptp_set_battery_state batt (battery s)\<rparr>;
             s2 = (if (\<not> dischg_allowed old \<or> low_battery old \<noteq> low_battery (battery s1)) \<and>
                      source (report s1) = PTP_POWER_SOURCE_BATTERY
                   then s1\<lparr>commands := (commands s1)\<lparr>direction := PTP_CURRENT_OFF\<rparr>\<rparr> else s1);
             s3 = (if chg_allowed old \<noteq> chg_allowed (battery s2) then mods_ptp_set_power_needs s2 else s2);
             s4 = (if dischg_allowed old \<noteq> dischg_allowed (battery s3) then mods_ptp_set_power_availability s3 else s3)
         in snd (mods_ptp_process Q X s4)))"

definition mods_ptp_ext_power_present :: "('c, 'x) ptp_info \<Rightarrow> int \<times> ptp_ext_power" where
  "mods_ptp_ext_power_present s = (0, present (report s))"

definition mods_ptp_set_ext_power_presence :: "('c, 'x) ptp_info \<Rightarrow> ('c, 'x) ptp_info" where
  "mods_ptp_set_ext_power_presence s =
     (let old = present (report s);
          p = (if src_current (wired s) > 0 \<and> src_current (wireless s) > 0 then PTP_EXT_POWER_WIRED_WIRELESS_PRESENT
               else if src_current (wired s) > 0 then PTP_EXT_POWER_WIRED_PRESENT
               else if src_current (wireless s) > 0 then PTP_EXT_POWER_WIRELESS_PRESENT
               else if src_current (dongle s) > 0 then PTP_EXT_POWER_DONGLE_PRESENT
               else PTP_EXT_POWER_NOT_PRESENT)
      in notify POWER_PRESENT (p \<noteq> old) (s\<lparr>report := (report s)\<lparr>present := p\<rparr>\<rparr>))"

definition mods_ptp_get_ext_power_output :: "'x ext_ops \<Rightarrow> 'x ext_power \<Rightarrow> ext_power_source_e \<Rightarrow> mods_ptp_chg_source" where
  "mods_ptp_get_ext_power_output X e i =
     (if ext_dev e i
      then (case ext_get_output X i (ext_world e) of
              (r, cur, vol) \<Rightarrow> if r = 0 then \<lparr>src_current = cur, src_voltage = vol\<rparr> else no_source)
      else no_source)"

definition mods_ptp_get_external_power_sources :: "'x ext_ops \<Rightarrow> ('c, 'x) ptp_info \<Rightarrow> ('c, 'x) ptp_info" where
  "mods_ptp_get_external_power_sources X s =
     s\<lparr>wired := mods_ptp_get_ext_power_output X (ext s) EXT_POWER_WIRED,
       dongle := mods_ptp_get_ext_power_output X (ext s) EXT_POWER_DONGLE,
       wireless := mods_ptp_get_ext_power_output X (ext s) EXT_POWER_WIRELESS\<rparr>"

definition mods_ptp_ext_src_changed :: "mods_ptp_chg_source \<Rightarrow> mods_ptp_chg_source \<Rightarrow> bool" where
  "mods_ptp_ext_src_changed before now \<longleftrightarrow>
     src_current before \<noteq> src_current now \<or> src_voltage before \<noteq> src_voltage now"

definition mods_ptp_base_source_changed :: "('c, 'x) ptp_info \<Rightarrow> bool" where
  "mods_ptp_base_source_changed s =
     (let max_v = min (max_output_voltage (commands s)) (pmic_max_input_voltage s);
          new_src = do_choose_ext_src s max_v
      in case source (report s) of
           PTP_POWER_SOURCE_NONE \<Rightarrow> False
         | PTP_POWER_SOURCE_BATTERY \<Rightarrow> new_src \<noteq> None
         | PTP_POWER_SOURCE_WIRED \<Rightarrow>
             new_src \<noteq> Some EXT_POWER_WIRED \<or> mods_ptp_ext_src_changed (to_base (report s)) (wired s)
         | PTP_POWER_SOURCE_WIRELESS \<Rightarrow>
             new_src \<noteq> Some EXT_POWER_WIRELESS \<or> mods_ptp_ext_src_changed (to_base (report s)) (wireless s)
         | PTP_POWER_SOURCE_DONGLE \<Rightarrow> True)"

definition mods_ptp_ext_power_changed ::
    "'c ptp_chg_ops \<Rightarrow> 'x ext_ops \<Rightarrow> ('c, 'x) ptp_info \<Rightarrow> ('c, 'x) ptp_info" where
  "mods_ptp_ext_power_changed Q X s0 =
     (let s = mods_ptp_get_external_power_sources X s0 in
      if ext_first s then mods_ptp_set_ext_power_presence (s\<lparr>ext_first := False\<rparr>)
      else
        (let s1 = mods_ptp_set_power_availability (mods_ptp_set_ext_power_presence s);
             s2 = (if mods_ptp_base_source_changed s1
                   then s1\<lparr>commands := (commands s1)\<lparr>direction := PTP_CURRENT_OFF\<rparr>\<rparr> else s1)
         in snd (mods_ptp_process Q X s2)))"

section \<open>Requests of the base\<close>

definition mods_ptp_get_max_output_current :: "('c, 'x) ptp_info \<Rightarrow> int \<times> int" where
  "mods_ptp_get_max_output_current s = (0, src_current (to_base (report s)) * 1000)"

definition mods_ptp_set_max_output_voltage ::
    "'c ptp_chg_ops \<Rightarrow> 'x ext_ops \<Rightarrow> u32 \<Rightarrow> ('c, 'x) ptp_info \<Rightarrow> int \<times> ('c, 'x) ptp_info" where
  "mods_ptp_set_max_output_voltage Q X v s =
     (if attached s \<noteq> BASE_ATTACHED then (- EPERM, s)
      else
        (let mv = uint v div 1000 in
         if max_output_voltage (commands s) = mv then (0, s)
         else (0, snd (mods_ptp_process Q X (s\<lparr>commands := (commands s)\<lparr>max_output_voltage := mv\<rparr>\<rparr>)))))"

definition mods_ptp_get_output_voltage :: "('c, 'x) ptp_info \<Rightarrow> int \<times> int" where
  "mods_ptp_get_output_voltage s = (0, src_voltage (to_base (report s)) * 1000)"

definition mods_ptp_power_available :: "('c, 'x) ptp_info \<Rightarrow> int \<times> ptp_power_available" where
  "mods_ptp_power_available s = (0, available (report s))"

definition mods_ptp_power_source :: "('c, 'x) ptp_info \<Rightarrow> int \<times> ptp_power_source" where
  "mods_ptp_power_source s = (0, source (report s))"

definition mods_ptp_set_max_input_current ::
    "'c ptp_chg_ops \<Rightarrow> 'x ext_ops \<Rightarrow> u32 \<Rightarrow> ('c, 'x) ptp_info \<Rightarrow> int \<times> ('c, 'x) ptp_info" where
  "mods_ptp_set_max_input_current Q X cur s =
     (if attached s \<noteq> BASE_ATTACHED then (- EPERM, s)
      else
        (let ma = min CONFIG_GREYBUS_MODS_MAX_VBUS_CURRENT (uint cur div 1000) in
         if src_current (base_src (commands s)) = ma then (0, s)
         else (0, snd (mods_ptp_process Q X
                 (s\<lparr>commands := (commands s)\<lparr>base_src := (base_src (commands s))\<lparr>src_current := ma\<rparr>\<rparr>\<rparr>)))))"

definition mods_ptp_get_max_input_voltage :: "('c, 'x) ptp_info \<Rightarrow> int \<times> int" where
  "mods_ptp_get_max_input_voltage s = (0, max_input_voltage (report s) * 1000)"

definition mods_ptp_set_input_voltage ::
    "'c ptp_chg_ops \<Rightarrow> 'x ext_ops \<Rightarrow> u32 \<Rightarrow> ('c, 'x) ptp_info \<Rightarrow> int \<times> ('c, 'x) ptp_info" where
  "mods_ptp_set_input_voltage Q X v s =
     (if attached s \<noteq> BASE_ATTACHED then (- EPERM, s)
      else
        (let mv = uint v div 1000 in
         if src_voltage (base_src (commands s)) = mv then (0, s)
         else (0, snd (mods_ptp_process Q X
                 (s\<lparr>commands := (commands s)\<lparr>base_src := (base_src (commands s))\<lparr>src_voltage := mv\<rparr>\<rparr>\<rparr>)))))"

definition mods_ptp_power_required :: "('c, 'x) ptp_info \<Rightarrow> int \<times> ptp_power_required" where
  "mods_ptp_power_required s = (0, required (report s))"

definition mods_ptp_register_callback :: "('c, 'x) ptp_info \<Rightarrow> int \<times> ('c, 'x) ptp_info" where
  "mods_ptp_register_callback s =
     (if \<not> changed_cb s then (0, s\<lparr>changed_cb := True\<rparr>) else (- EEXIST, s))"

section \<open>Opening\<close>

text \<open>Cleared memory; enumerations start at their first value.\<close>

definition cleared_info :: "'c \<Rightarrow> 'x ext_power \<Rightarrow> ('c, 'x) ptp_info" where
  "cleared_info c e =
     \<lparr>attached = BASE_DETACHED,
      commands = \<lparr>direction = 0, base_src = no_source, max_output_voltage = 0\<rparr>,
      battery = \<lparr>chg_allowed = False, dischg_allowed = False, low_battery = False, charge_current = 0,
                 charge_voltage = 0, batt_src = no_source\<rparr>,
      wired = no_source, wireless = no_source, dongle = no_source, pmic_max_input_voltage = 0,
      base_powered_off = False,
      report = \<lparr>present = PTP_EXT_POWER_NOT_PRESENT, available = PTP_POWER_AVAILABLE_NONE,
                source = PTP_POWER_SOURCE_NONE, to_base = no_source, required = PTP_POWER_NOT_REQUIRED,
                max_input_voltage = 0\<rparr>,
      boost_fault = False, changed_cb = False, notified = [], attach_first = True, batt_first = True,
      batt_last = \<lparr>batt_temp = BATTERY_TEMP_NORMAL, batt_level = BATTERY_LEVEL_EMPTY,
                   batt_voltage = BATTERY_QUICK_CHARGE\<rparr>,
      ext_first = True, chg_dev = c, ext = e\<rparr>"

definition mods_ptp_probe :: "bool \<Rightarrow> 'c \<Rightarrow> 'x ext_power \<Rightarrow> int \<times> ('c, 'x) ptp_info option" where
  "mods_ptp_probe zalloc_ok c e = (if \<not> zalloc_ok then (- ENOMEM, None) else (0, Some (cleared_info c e)))"

text \<open>
  What the registrations called by \<^verbatim>\<open>mods_ptp_open\<close> return. Each successful registration runs
  the callback at once with the current state.
\<close>

record open_in =
  sem_init_ret :: int
  chg_open_ok :: bool
  ext_register_ret :: int
  batt_register_ret :: int
  batt_now :: batt_state_s
  attach_register_ret :: int
  attach_now :: base_attached_e

definition mods_ptp_open ::
    "'c ptp_chg_ops \<Rightarrow> 'x ext_ops \<Rightarrow> open_in \<Rightarrow> ('c, 'x) ptp_info \<Rightarrow> int \<times> ('c, 'x) ptp_info" where
  "mods_ptp_open Q X I s0 =
     (if sem_init_ret I \<noteq> 0 then (sem_init_ret I, s0)
      else
        (let s = s0\<lparr>commands := mods_ptp_reset_base_commands\<rparr> in
         if \<not> chg_open_ok I then (- EIO, s)
         else
           (let (r, v, c) = chg_max_input_voltage Q (chg_dev s);
                pmic = (if r \<noteq> 0 then DEFAULT_PMIC_MAX_INPUT_VOLTAGE else v);
                s1 = s\<lparr>boost_fault := False, chg_dev := c, pmic_max_input_voltage := pmic,
                       report := (report s)\<lparr>max_input_voltage := min pmic CONFIG_GREYBUS_MODS_MAX_VBUS_VOLTAGE\<rparr>\<rparr>;
                (r, e) = ext_power_init X (ext s1);
                s2 = s1\<lparr>ext := e\<rparr>
            in if r \<noteq> 0 then (r, s2)
               else if ext_register_ret I \<noteq> 0 then (ext_register_ret I, s2)
               else
                 (let s3 = mods_ptp_ext_power_changed Q X s2 in
                  if batt_register_ret I \<noteq> 0 then (batt_register_ret I, s3)
                  else
                    (let s4 = mods_ptp_set_power_availability (mods_ptp_set_power_needs
                                (mods_ptp_battery_changed Q X (batt_now I) s3)) in
                     if attach_register_ret I \<noteq> 0 then (attach_register_ret I, s4)
                     else
                       (let s5 = snd (mods_ptp_attach_changed Q X (attach_now I) s4)
                        in (0, snd (mods_ptp_process Q X s5))))))))"

end
