(* ===== verification/PtpInv.thy ===== *)
theory PtpInv
  imports Ptp
begin

text \<open>
  The contract of a charger, as the power transfer protocol relies on it, and what the protocol
  guarantees on top of any charger that keeps it: the source reported to the base is the one that
  is switched through, power flows to the base only where it may, and within its limits. The switch
  driver keeps the contract.
\<close>

section \<open>The contract of a charger\<close>

text \<open>
  A charger is seen as its three paths (wireless, wired, base) and the mode of its chip. An
  operation that returns 0 has put it into the configuration its name says; \<open>ok\<close> is what every
  operation keeps, and a \<open>reliable\<close> charger's operations return 0.
\<close>

locale ptp_charger =
  fixes Q :: "'c ptp_chg_ops"
    and look :: "'c \<Rightarrow> bool \<times> bool \<times> bool \<times> ic_mode"
    and ok :: "'c \<Rightarrow> bool"
    and reliable :: bool
  assumes send_wired: "ok c \<Longrightarrow> ok (snd (send_wired_pwr Q c)) \<and>
      (fst (send_wired_pwr Q c) = 0 \<longrightarrow> look (snd (send_wired_pwr Q c)) = (False, True, True, Ic_off))"
    and send_wireless: "ok c \<Longrightarrow> ok (snd (send_wireless_pwr Q c)) \<and>
      (fst (send_wireless_pwr Q c) = 0 \<longrightarrow> look (snd (send_wireless_pwr Q c)) = (True, False, True, Ic_off))"
    and send_batt: "ok c \<Longrightarrow> ok (snd (snd (send_batt_pwr Q i c))) \<and>
      (fst (send_batt_pwr Q i c) = 0 \<longrightarrow> look (snd (snd (send_batt_pwr Q i c))) = (False, False, True, Ic_send))"
    and off: "ok c \<Longrightarrow> ok (snd (chg_off Q c)) \<and>
      (fst (chg_off Q c) = 0 \<longrightarrow> look (snd (chg_off Q c)) = (False, False, False, Ic_off))"
    and all_open: "ok c \<Longrightarrow> ok (snd (all_paths_open Q c)) \<and>
      (fst (all_paths_open Q c) = 0 \<longrightarrow> look (snd (all_paths_open Q c)) = (True, True, True, Ic_off))"
    and receive_base: "ok c \<Longrightarrow> ok (snd (receive_base_pwr Q f c)) \<and>
      (fst (receive_base_pwr Q f c) = 0 \<longrightarrow> look (snd (receive_base_pwr Q f c)) = (False, False, True, Ic_receive f))"
    and receive_wired: "ok c \<Longrightarrow> ok (snd (receive_wired_pwr Q f c)) \<and>
      (fst (receive_wired_pwr Q f c) = 0 \<longrightarrow> look (snd (receive_wired_pwr Q f c)) = (False, True, False, Ic_receive f))"
    and receive_wireless: "ok c \<Longrightarrow> ok (snd (receive_wireless_pwr Q f c)) \<and>
      (fst (receive_wireless_pwr Q f c) = 0 \<longrightarrow> look (snd (receive_wireless_pwr Q f c)) = (True, False, False, Ic_receive f))"
    and voltage: "ok c \<Longrightarrow> ok (snd (snd (chg_max_input_voltage Q c))) \<and>
      look (snd (snd (chg_max_input_voltage Q c))) = look c"
    and never_fails: "reliable \<Longrightarrow> fst (send_wired_pwr Q c) = 0 \<and> fst (send_wireless_pwr Q c) = 0 \<and>
      fst (send_batt_pwr Q i c) = 0 \<and> fst (chg_off Q c) = 0 \<and> fst (all_paths_open Q c) = 0 \<and>
      fst (receive_base_pwr Q f c) = 0 \<and> fst (receive_wired_pwr Q f c) = 0 \<and> fst (receive_wireless_pwr Q f c) = 0"

section \<open>The invariant\<close>

text \<open>What is switched through agrees with the reported source.\<close>

fun power_matches :: "bool \<times> bool \<times> bool \<times> ic_mode \<Rightarrow> ptp_power_source \<Rightarrow> bool" where
  "power_matches (wl, wr, ba, m) PTP_POWER_SOURCE_NONE \<longleftrightarrow> m \<noteq> Ic_send"
| "power_matches v PTP_POWER_SOURCE_BATTERY \<longleftrightarrow> v = (False, False, True, Ic_send)"
| "power_matches v PTP_POWER_SOURCE_WIRED \<longleftrightarrow> v = (False, True, True, Ic_off)"
| "power_matches v PTP_POWER_SOURCE_WIRELESS \<longleftrightarrow> v = (True, False, True, Ic_off)"
| "power_matches v PTP_POWER_SOURCE_DONGLE \<longleftrightarrow> False"

text \<open>The base gets power only when it is there and asked for it or is off, the battery's only when it may.\<close>

definition sanctioned :: "('c, 'x) ptp_info \<Rightarrow> bool" where
  "sanctioned s \<longleftrightarrow>
     (source (report s) \<noteq> PTP_POWER_SOURCE_NONE \<longrightarrow> \<not> boost_fault s \<and>
        (attached s = BASE_ATTACHED_OFF \<or>
         attached s = BASE_ATTACHED \<and> direction (commands s) = PTP_CURRENT_FROM_MOD)) \<and>
     (source (report s) = PTP_POWER_SOURCE_BATTERY \<longrightarrow> dischg_allowed (battery s) \<and> \<not> base_powered_off s)"

text \<open>What is announced stays within the limits of connector, battery, base and charger.\<close>

definition in_limits :: "('c, 'x) ptp_info \<Rightarrow> bool" where
  "in_limits s \<longleftrightarrow>
     src_current (to_base (report s)) \<le> CONFIG_GREYBUS_MODS_MAX_VBUS_CURRENT \<and>
     (source (report s) = PTP_POWER_SOURCE_WIRED \<or> source (report s) = PTP_POWER_SOURCE_WIRELESS \<longrightarrow>
        src_voltage (to_base (report s)) \<le> max_output_voltage (commands s) \<and>
        src_voltage (to_base (report s)) \<le> pmic_max_input_voltage s) \<and>
     (source (report s) = PTP_POWER_SOURCE_BATTERY \<longrightarrow>
        src_voltage (to_base (report s)) = BATTERY_SOURCE_OUTPUT_VOLTAGE \<and>
        src_current (to_base (report s)) \<le>
          (if low_battery (battery s) then CONFIG_GREYBUS_MODS_LOW_BATTERY_OUTPUT_CURRENT
           else CONFIG_GREYBUS_MODS_NORMAL_BATTERY_OUTPUT_CURRENT))"

section \<open>Choosing a source\<close>

lemma choose_loop_spec:
  assumes "choose_loop s v is p sel = r"
  shows "(r = sel \<and> (\<forall>i \<in> set is. do_calculate_power (ext_src s i) v \<le> p)) \<or>
    (\<exists>i \<in> set is. r = Some i \<and> p < do_calculate_power (ext_src s i) v \<and>
       (\<forall>j \<in> set is. do_calculate_power (ext_src s j) v \<le> do_calculate_power (ext_src s i) v))"
  using assms
proof (induction "is" arbitrary: p sel)
  case (Cons i "is")
  show ?case
  proof (cases "do_calculate_power (ext_src s i) v > p")
    case True
    then have "choose_loop s v is (do_calculate_power (ext_src s i) v) (Some i) = r" using Cons.prems by simp
    from Cons.IH [OF this] show ?thesis using True by fastforce
  next
    case False
    then have "choose_loop s v is p sel = r" using Cons.prems by simp
    from Cons.IH [OF this] show ?thesis using False by fastforce
  qed
qed simp

lemma ext_source_cases: "set [EXT_POWER_WIRED, EXT_POWER_WIRELESS, EXT_POWER_DONGLE] = UNIV"
  using ext_power_source_e.exhaust by auto

lemma choose_ext_src_spec:
  "case do_choose_ext_src s v of
     None \<Rightarrow> \<forall>i. do_calculate_power (ext_src s i) v \<le> 0
   | Some i \<Rightarrow> 0 < do_calculate_power (ext_src s i) v \<and>
       (\<forall>j. do_calculate_power (ext_src s j) v \<le> do_calculate_power (ext_src s i) v)"
  using choose_loop_spec [OF refl, of s v "[EXT_POWER_WIRED, EXT_POWER_WIRELESS, EXT_POWER_DONGLE]" 0 None]
  unfolding do_choose_ext_src_def ext_source_cases by auto

lemma chosen_voltage: "do_choose_ext_src s v = Some i \<Longrightarrow> src_voltage (ext_src s i) \<le> v"
  using choose_ext_src_spec [of s v] by (auto simp: do_calculate_power_def split: if_splits)

section \<open>Frames\<close>

lemma set_base_source_simps [simp]:
  "attached (do_set_base_source p s) = attached s" "commands (do_set_base_source p s) = commands s"
  "battery (do_set_base_source p s) = battery s" "wired (do_set_base_source p s) = wired s"
  "wireless (do_set_base_source p s) = wireless s" "dongle (do_set_base_source p s) = dongle s"
  "pmic_max_input_voltage (do_set_base_source p s) = pmic_max_input_voltage s"
  "base_powered_off (do_set_base_source p s) = base_powered_off s" "boost_fault (do_set_base_source p s) = boost_fault s"
  "chg_dev (do_set_base_source p s) = chg_dev s" "ext (do_set_base_source p s) = ext s"
  "attach_first (do_set_base_source p s) = attach_first s"
  by (simp_all add: do_set_base_source_def split: option.splits)

lemma set_base_source_report:
  "source_output s p = Some out \<Longrightarrow> source (report (do_set_base_source p s)) = p \<and>
     to_base (report (do_set_base_source p s)) =
       \<lparr>src_current = min CONFIG_GREYBUS_MODS_MAX_VBUS_CURRENT (src_current out), src_voltage = src_voltage out\<rparr>"
  by (simp add: do_set_base_source_def)

lemma limit_ext_simps [simp]:
  "attached (limit_ext X v s) = attached s" "commands (limit_ext X v s) = commands s"
  "battery (limit_ext X v s) = battery s" "wired (limit_ext X v s) = wired s"
  "wireless (limit_ext X v s) = wireless s" "dongle (limit_ext X v s) = dongle s"
  "pmic_max_input_voltage (limit_ext X v s) = pmic_max_input_voltage s"
  "base_powered_off (limit_ext X v s) = base_powered_off s" "boost_fault (limit_ext X v s) = boost_fault s"
  "chg_dev (limit_ext X v s) = chg_dev s" "report (limit_ext X v s) = report s"
  "attach_first (limit_ext X v s) = attach_first s"
  by (simp_all add: limit_ext_def Let_def)

lemma on_chg_simps [simp]:
  "fst (on_chg f s) = fst (f (chg_dev s))" "snd (on_chg f s) = s\<lparr>chg_dev := snd (f (chg_dev s))\<rparr>"
  by (simp_all add: on_chg_def split_beta)

section \<open>What the protocol guarantees over a charger\<close>

context ptp_charger
begin

text \<open>Everything the driver guarantees after it has acted.\<close>

definition good :: "('c, 'x) ptp_info \<Rightarrow> bool" where
  "good s \<longleftrightarrow> ok (chg_dev s) \<and> power_matches (look (chg_dev s)) (source (report s)) \<and> sanctioned s \<and> in_limits s"

lemma none_good:
  assumes "ok c" "snd (snd (snd (look c))) \<noteq> Ic_send" "source (report s) = PTP_POWER_SOURCE_NONE"
    "src_current (to_base (report s)) \<le> CONFIG_GREYBUS_MODS_MAX_VBUS_CURRENT"
  shows "good (s\<lparr>chg_dev := c\<rparr>)"
  using assms by (cases "look c") (simp add: good_def sanctioned_def in_limits_def)

lemma none_source:
  "source (report (do_set_base_source PTP_POWER_SOURCE_NONE s)) = PTP_POWER_SOURCE_NONE"
  "src_current (to_base (report (do_set_base_source PTP_POWER_SOURCE_NONE s))) \<le> CONFIG_GREYBUS_MODS_MAX_VBUS_CURRENT"
  by (simp_all add: set_base_source_report no_source_def)

lemma off_good:
  assumes "reliable" "ok (chg_dev s)" "source (report s) = PTP_POWER_SOURCE_NONE"
    "src_current (to_base (report s)) \<le> CONFIG_GREYBUS_MODS_MAX_VBUS_CURRENT"
  shows "good (snd (on_chg (chg_off Q) s))"
  using assms off [of "chg_dev s"] never_fails by (auto intro!: none_good)

lemma send_battery_good:
  assumes r: "reliable" and "ok (chg_dev s)" and a: "\<not> boost_fault s" "dischg_allowed (battery s)" "\<not> base_powered_off s"
    "attached s = BASE_ATTACHED_OFF \<or> attached s = BASE_ATTACHED \<and> direction (commands s) = PTP_CURRENT_FROM_MOD"
  shows "good (snd (send_battery Q s))"
proof -
  obtain i c where c: "send_batt_pwr Q (src_current (batt_src (battery s))) (chg_dev s) = (0, i, c)"
    using never_fails [OF r] by (metis prod.collapse)
  have "ok c \<and> look c = (False, False, True, Ic_send)"
    using send_batt [OF assms(2), of "src_current (batt_src (battery s))"] c by simp
  then show ?thesis
    using a
    by (simp add: send_battery_def c good_def sanctioned_def in_limits_def set_base_source_report config_simps)
qed

lemma charge_base_good:
  assumes r: "reliable" and k: "ok (chg_dev s)"
    and a: "attached s = BASE_ATTACHED_OFF \<or> attached s = BASE_ATTACHED \<and> direction (commands s) = PTP_CURRENT_FROM_MOD"
  shows "good (snd (do_charge_base Q X s))"
proof -
  let ?n = "do_set_base_source PTP_POWER_SOURCE_NONE s"
  let ?v = "min (max_output_voltage (commands s)) (pmic_max_input_voltage s)"
  let ?s1 = "limit_ext X ?v ?n"
  note n = none_source [of s]
  have w: "do_choose_ext_src ?n ?v = Some EXT_POWER_WIRED \<Longrightarrow> src_voltage (wired s) \<le> ?v"
    and wl: "do_choose_ext_src ?n ?v = Some EXT_POWER_WIRELESS \<Longrightarrow> src_voltage (wireless s) \<le> ?v"
    using chosen_voltage [of ?n ?v] by (auto simp: ext_src_def)
  consider "boost_fault s"
    | "\<not> boost_fault s" "do_choose_ext_src ?n ?v = Some EXT_POWER_WIRED"
    | "\<not> boost_fault s" "do_choose_ext_src ?n ?v = Some EXT_POWER_WIRELESS"
    | "\<not> boost_fault s" "do_choose_ext_src ?n ?v \<noteq> Some EXT_POWER_WIRED"
      "do_choose_ext_src ?n ?v \<noteq> Some EXT_POWER_WIRELESS" by blast
  then show ?thesis
  proof cases
    case 1
    then show ?thesis
      using off_good [OF r, of "?n\<lparr>commands := (commands ?n)\<lparr>direction := PTP_CURRENT_OFF\<rparr>\<rparr>"] k n
      by (simp add: do_charge_base_def)
  next
    case 2
    have "fst (send_wired_pwr Q (chg_dev s)) = 0" using never_fails [OF r] by blast
    then show ?thesis
      using 2 w a send_wired [OF k]
      by (simp add: do_charge_base_def Let_def split_beta good_def sanctioned_def in_limits_def set_base_source_report)
  next
    case 3
    have "fst (send_wireless_pwr Q (chg_dev s)) = 0" using never_fails [OF r] by blast
    then show ?thesis
      using 3 wl a send_wireless [OF k]
      by (simp add: do_charge_base_def Let_def split_beta good_def sanctioned_def in_limits_def set_base_source_report)
  next
    case 4
    have "good (snd (send_battery Q ?s1))" if "dischg_allowed (battery s)" "\<not> base_powered_off s"
      using that 4 a k by (intro send_battery_good [OF r]) simp_all
    moreover have "good (snd (on_chg (chg_off Q) ?s1))"
      using k n by (intro off_good [OF r]) simp_all
    ultimately show ?thesis using 4 by (simp add: do_charge_base_def Let_def)
  qed
qed

lemma receive_good:
  assumes r: "reliable" and k: "ok (chg_dev s)" and n: "source (report s) = PTP_POWER_SOURCE_NONE"
    "src_current (to_base (report s)) \<le> CONFIG_GREYBUS_MODS_MAX_VBUS_CURRENT"
  shows "good (snd (on_chg (receive_base_pwr Q f) s))" "good (snd (on_chg (receive_wired_pwr Q f) s))"
    "good (snd (on_chg (receive_wireless_pwr Q f) s))" "good (snd (on_chg (all_paths_open Q) s))"
  using receive_base [OF k, of f] receive_wired [OF k, of f] receive_wireless [OF k, of f] all_open [OF k]
    never_fails [OF r] n
  by (auto intro!: none_good)

lemma charge_battery_ext_good:
  assumes "reliable" "ok (chg_dev s)"
  shows "good (snd (do_charge_battery_with_external_power Q X s))"
proof -
  let ?n = "do_set_base_source PTP_POWER_SOURCE_NONE s"
  let ?s1 = "limit_ext X (pmic_max_input_voltage s) ?n"
  have "ok (chg_dev ?s1)" "source (report ?s1) = PTP_POWER_SOURCE_NONE"
    "src_current (to_base (report ?s1)) \<le> CONFIG_GREYBUS_MODS_MAX_VBUS_CURRENT"
    using assms none_source by simp_all
  note g = receive_good [OF assms(1) this]
  show ?thesis
    unfolding do_charge_battery_with_external_power_def Let_def
    by (auto split: option.split ext_power_source_e.split simp del: on_chg_simps intro!: g)
qed

lemma charge_battery_base_good:
  assumes "reliable" "ok (chg_dev s)"
  shows "good (snd (do_charge_battery_with_base_power Q s))"
proof -
  let ?n = "do_set_base_source PTP_POWER_SOURCE_NONE s"
  have n: "ok (chg_dev ?n)" "source (report ?n) = PTP_POWER_SOURCE_NONE"
    "src_current (to_base (report ?n)) \<le> CONFIG_GREYBUS_MODS_MAX_VBUS_CURRENT"
    using assms none_source by simp_all
  show ?thesis
    unfolding do_charge_battery_with_base_power_def Let_def
    using receive_good [OF assms(1) n] off_good [OF assms(1) n] by simp
qed

text \<open>Processing puts everything right, from any state with a known base state.\<close>

lemma process_good:
  assumes "reliable" "ok (chg_dev s)" "attached s \<noteq> BASE_INVALID"
  shows "good (snd (mods_ptp_process Q X s))"
proof -
  have "good (do_off Q s)"
    unfolding do_off_def using assms none_source by (intro off_good) simp_all
  then show ?thesis
    using charge_base_good [OF assms(1,2)] charge_battery_ext_good [OF assms(1,2)] charge_battery_base_good [OF assms(1,2)]
      assms(3)
    unfolding mods_ptp_process_def by (auto split: base_attached_e.split)
qed

end

section \<open>Events\<close>

text \<open>The part of the state that the bookkeeping before an action leaves alone.\<close>

definition core :: "('c, 'x) ptp_info \<Rightarrow> 'c \<times> ptp_power_source \<times> mods_ptp_chg_source \<times> base_attached_e \<times> bool" where
  "core s = (chg_dev s, source (report s), to_base (report s), attached s, attach_first s)"

lemma core_updates [simp]:
  "core (s\<lparr>commands := c\<rparr>) = core s" "core (s\<lparr>battery := b\<rparr>) = core s" "core (s\<lparr>wired := w\<rparr>) = core s"
  "core (s\<lparr>wireless := w\<rparr>) = core s" "core (s\<lparr>dongle := w\<rparr>) = core s" "core (s\<lparr>ext := e\<rparr>) = core s"
  "core (s\<lparr>boost_fault := f\<rparr>) = core s" "core (s\<lparr>batt_last := l\<rparr>) = core s" "core (s\<lparr>notified := n\<rparr>) = core s"
  "core (s\<lparr>batt_first := f\<rparr>) = core s" "core (s\<lparr>ext_first := f\<rparr>) = core s" "core (s\<lparr>changed_cb := f\<rparr>) = core s"
  "core (s\<lparr>report := (report s)\<lparr>available := a\<rparr>\<rparr>) = core s" "core (s\<lparr>report := (report s)\<lparr>required := q\<rparr>\<rparr>) = core s"
  "core (s\<lparr>report := (report s)\<lparr>present := p\<rparr>\<rparr>) = core s"
  "core (s\<lparr>base_powered_off := f\<rparr>) = core s"
  by (simp_all add: core_def)

lemma core_notify [simp]: "core (notify ch b s) = core s"
  by (simp add: notify_def)

lemma core_bookkeeping [simp]:
  "core (mods_ptp_set_power_availability s) = core s" "core (mods_ptp_set_power_needs s) = core s"
  "core (mods_ptp_set_ext_power_presence s) = core s" "core (mods_ptp_get_external_power_sources X s) = core s"
  by (simp_all add: mods_ptp_set_power_availability_def mods_ptp_set_power_needs_def Let_def
      mods_ptp_set_ext_power_presence_def mods_ptp_get_external_power_sources_def)

text \<open>
  The events: a change of the base state (announced by the attach driver, never as invalid), the
  base's requests, a battery change, a change of the external sources, a boost fault, a client
  registering, and the outside world of the external sources moving on.
\<close>

inductive ptp_step :: "'c ptp_chg_ops \<Rightarrow> 'x ext_ops \<Rightarrow> ('c, 'x) ptp_info \<Rightarrow> ('c, 'x) ptp_info \<Rightarrow> bool" for Q X where
  attach_event: "st \<noteq> BASE_INVALID \<Longrightarrow> ptp_step Q X s (snd (mods_ptp_attach_changed Q X st s))"
| current_flow: "ptp_step Q X s (snd (mods_ptp_set_current_flow Q X dir s))"
| output_voltage: "ptp_step Q X s (snd (mods_ptp_set_max_output_voltage Q X v s))"
| input_current: "ptp_step Q X s (snd (mods_ptp_set_max_input_current Q X i s))"
| input_voltage: "ptp_step Q X s (snd (mods_ptp_set_input_voltage Q X v s))"
| battery_event: "ptp_step Q X s (mods_ptp_battery_changed Q X b s)"
| ext_event: "ptp_step Q X s (mods_ptp_ext_power_changed Q X s)"
| boost_event: "ptp_step Q X s (mods_ptp_boost_fault Q X s)"
| client: "ptp_step Q X s (snd (mods_ptp_register_callback s))"
| ext_moves: "ptp_step Q X s (s\<lparr>ext := (ext s)\<lparr>ext_world := x\<rparr>\<rparr>)"

inductive ptp_reach ::
    "'c ptp_chg_ops \<Rightarrow> 'x ext_ops \<Rightarrow> ('c \<Rightarrow> bool) \<Rightarrow> ('c, 'x) ptp_info \<Rightarrow> bool" for Q X start where
  opened: "start c \<Longrightarrow> mods_ptp_probe True c e = (0, Some s0) \<Longrightarrow> mods_ptp_open Q X I s0 = (0, s) \<Longrightarrow> ptp_reach Q X start s"
| stepped: "ptp_reach Q X start s \<Longrightarrow> ptp_step Q X s s' \<Longrightarrow> ptp_reach Q X start s'"

text \<open>The callbacks have run once; their first call only initialises.\<close>

definition ready :: "('c, 'x) ptp_info \<Rightarrow> bool" where
  "ready s \<longleftrightarrow> \<not> attach_first s \<and> \<not> batt_first s \<and> \<not> ext_first s"

lemma set_source_first [simp]:
  "batt_first (do_set_base_source p s) = batt_first s" "ext_first (do_set_base_source p s) = ext_first s"
  "batt_first (limit_ext X v s) = batt_first s" "ext_first (limit_ext X v s) = ext_first s"
  by (simp_all add: do_set_base_source_def limit_ext_def Let_def split: option.splits)

lemma send_battery_ready [simp]: "ready (snd (send_battery Q s)) = ready s"
  by (simp add: send_battery_def ready_def Let_def split: prod.split)

lemma ready_simps [simp]:
  "ready (snd (on_chg f s)) = ready s" "ready (limit_ext X v s) = ready s" "ready (do_set_base_source p s) = ready s"
  "ready (s\<lparr>commands := c\<rparr>) = ready s" "ready (s\<lparr>chg_dev := d\<rparr>) = ready s"
  by (simp_all add: ready_def)

lemma charge_ready:
  "ready (snd (do_charge_base Q X s)) = ready s"
  "ready (snd (do_charge_battery_with_external_power Q X s)) = ready s"
  "ready (snd (do_charge_battery_with_base_power Q s)) = ready s" "ready (do_off Q s) = ready s"
  by (simp_all add: do_charge_base_def do_charge_battery_with_external_power_def Let_def split_beta
      do_charge_battery_with_base_power_def do_off_def split: option.split ext_power_source_e.split)

lemma process_ready [simp]: "ready (snd (mods_ptp_process Q X s)) = ready s"
  by (simp add: mods_ptp_process_def charge_ready split: base_attached_e.split)

lemma core_eqD:
  "core s' = core s \<Longrightarrow> chg_dev s' = chg_dev s \<and> source (report s') = source (report s) \<and>
   to_base (report s') = to_base (report s) \<and> attached s' = attached s \<and> attach_first s' = attach_first s"
  by (simp add: core_def)

lemma ready_bookkeeping [simp]:
  "ready (mods_ptp_set_power_availability s) = ready s" "ready (mods_ptp_set_power_needs s) = ready s"
  "ready (mods_ptp_set_ext_power_presence s) = ready s" "ready (mods_ptp_get_external_power_sources X s) = ready s"
  by (simp_all add: mods_ptp_set_power_availability_def mods_ptp_set_power_needs_def Let_def notify_def ready_def
      mods_ptp_set_ext_power_presence_def mods_ptp_get_external_power_sources_def)

context ptp_charger
begin

lemma invalid_good:
  assumes "good s" "core s' = core s" "attached s = BASE_INVALID"
  shows "good s'"
proof -
  have "source (report s) = PTP_POWER_SOURCE_NONE"
    using assms(1,3) unfolding good_def sanctioned_def by auto
  then show ?thesis
    using assms core_eqD [OF assms(2)] unfolding good_def sanctioned_def in_limits_def by simp
qed

text \<open>Acting after any bookkeeping keeps the guarantees.\<close>

lemma act_good:
  assumes "reliable" "good s" "core s' = core s"
  shows "good (snd (mods_ptp_process Q X s'))"
proof (cases "attached s' = BASE_INVALID")
  case True
  then have "good s'" using invalid_good [OF assms(2,3)] core_eqD [OF assms(3)] by simp
  then show ?thesis using True by (simp add: mods_ptp_process_def)
next
  case False
  then show ?thesis
    using assms core_eqD [OF assms(3)] by (intro process_good) (simp_all add: good_def)
qed

lemma attach_good:
  assumes "reliable" "good s" "ready s" "st \<noteq> BASE_INVALID"
  shows "good (snd (mods_ptp_attach_changed Q X st s)) \<and> ready (snd (mods_ptp_attach_changed Q X st s))"
  using assms
  by (auto simp: mods_ptp_attach_changed_def Let_def ready_def [of s] good_def [of s] intro!: process_good)
    (simp_all add: ready_def)

lemma request_good:
  assumes "reliable" "good s" "ready s"
  shows "good (snd (mods_ptp_set_current_flow Q X dir s)) \<and> ready (snd (mods_ptp_set_current_flow Q X dir s))"
    "good (snd (mods_ptp_set_max_output_voltage Q X v s)) \<and> ready (snd (mods_ptp_set_max_output_voltage Q X v s))"
    "good (snd (mods_ptp_set_max_input_current Q X i s)) \<and> ready (snd (mods_ptp_set_max_input_current Q X i s))"
    "good (snd (mods_ptp_set_input_voltage Q X v s)) \<and> ready (snd (mods_ptp_set_input_voltage Q X v s))"
    "good (mods_ptp_boost_fault Q X s) \<and> ready (mods_ptp_boost_fault Q X s)"
  using assms
  by (auto simp: mods_ptp_set_current_flow_def mods_ptp_set_max_output_voltage_def mods_ptp_set_max_input_current_def
      mods_ptp_set_input_voltage_def mods_ptp_boost_fault_def Let_def intro!: act_good [OF assms(1,2)])
    (simp add: ready_def)

lemma battery_good:
  assumes "reliable" "good s" "ready s"
  shows "good (mods_ptp_battery_changed Q X b s) \<and> ready (mods_ptp_battery_changed Q X b s)"
proof -
  have f: "\<not> batt_first s" using assms(3) by (simp add: ready_def)
  have b: "ready (s\<lparr>batt_last := l, battery := y\<rparr>)" for l y using assms(3) by (simp add: ready_def)
  show ?thesis
    using assms(2,3) f b
    by (auto simp: mods_ptp_battery_changed_def Let_def intro!: act_good [OF assms(1,2)])
qed

lemma ext_good:
  assumes "reliable" "good s" "ready s"
  shows "good (mods_ptp_ext_power_changed Q X s) \<and> ready (mods_ptp_ext_power_changed Q X s)"
proof -
  have f: "\<not> ext_first (mods_ptp_get_external_power_sources X s)"
    using assms(3) by (simp add: ready_def mods_ptp_get_external_power_sources_def)
  show ?thesis
    using assms(2,3) f
    by (auto simp: mods_ptp_ext_power_changed_def Let_def intro!: act_good [OF assms(1,2)])
qed

lemma step_good:
  assumes "ptp_step Q X s s'" "reliable" "good s" "ready s"
  shows "good s' \<and> ready s'"
  using assms
proof (cases rule: ptp_step.cases)
  case client
  have "good (s\<lparr>changed_cb := b\<rparr>) \<and> ready (s\<lparr>changed_cb := b\<rparr>)" for b
    using assms(3,4) by (simp add: good_def sanctioned_def in_limits_def ready_def)
  then show ?thesis using client assms(3,4) by (simp add: mods_ptp_register_callback_def)
next
  case (ext_moves x)
  then show ?thesis using assms(3,4) by (simp add: good_def sanctioned_def in_limits_def ready_def)
qed (use assms in \<open>simp_all add: attach_good request_good battery_good ext_good\<close>)

end

end
