(* ===== verification/PtpProps.thy ===== *)
theory PtpProps
  imports PtpInv
begin

text \<open>
  The switch driver as a charger, the guarantees of the power transfer protocol over it in every
  reachable state, its choice of a source, and where the code does not do what it means to.
\<close>

section \<open>Opening and reachability\<close>

lemma core_first_calls:
  "ext_first s \<Longrightarrow> core (mods_ptp_ext_power_changed Q X s) = core s"
  "batt_first s \<Longrightarrow> core (mods_ptp_battery_changed Q X b s) = core s"
  by (simp_all add: mods_ptp_ext_power_changed_def mods_ptp_battery_changed_def Let_def)
    (simp add: mods_ptp_get_external_power_sources_def)

lemma first_calls:
  "ext_first s \<Longrightarrow> \<not> ext_first (mods_ptp_ext_power_changed Q X s)"
  "ext_first s \<Longrightarrow> batt_first (mods_ptp_ext_power_changed Q X s) = batt_first s"
  "batt_first s \<Longrightarrow> \<not> batt_first (mods_ptp_battery_changed Q X b s)"
  "batt_first s \<Longrightarrow> ext_first (mods_ptp_battery_changed Q X b s) = ext_first s"
  by (simp_all add: mods_ptp_ext_power_changed_def mods_ptp_battery_changed_def Let_def notify_def
      mods_ptp_set_ext_power_presence_def mods_ptp_get_external_power_sources_def)

lemma bookkeeping_firsts [simp]:
  "ext_first (mods_ptp_set_power_availability s) = ext_first s" "batt_first (mods_ptp_set_power_availability s) = batt_first s"
  "ext_first (mods_ptp_set_power_needs s) = ext_first s" "batt_first (mods_ptp_set_power_needs s) = batt_first s"
  by (simp_all add: mods_ptp_set_power_availability_def mods_ptp_set_power_needs_def Let_def notify_def)

lemma bookkeeping_battery [simp]:
  "battery (mods_ptp_set_power_availability s) = battery s" "battery (mods_ptp_set_power_needs s) = battery s"
  "battery (mods_ptp_set_ext_power_presence s) = battery s" "battery (mods_ptp_get_external_power_sources X s) = battery s"
  by (simp_all add: mods_ptp_set_power_availability_def mods_ptp_set_power_needs_def Let_def notify_def
      mods_ptp_set_ext_power_presence_def mods_ptp_get_external_power_sources_def)

context ptp_charger
begin

text \<open>The last two steps of a successful open: the first attach callback, then acting on all of it.\<close>

lemma first_attach_good:
  assumes "reliable" "ok (chg_dev s)" "snd (snd (snd (look (chg_dev s)))) \<noteq> Ic_send"
    "source (report s) = PTP_POWER_SOURCE_NONE" "to_base (report s) = no_source"
    "attach_first s" "\<not> batt_first s" "\<not> ext_first s"
  shows "good (snd (mods_ptp_process Q X (snd (mods_ptp_attach_changed Q X st s)))) \<and>
    ready (snd (mods_ptp_process Q X (snd (mods_ptp_attach_changed Q X st s))))"
proof -
  let ?s = "snd (mods_ptp_attach_changed Q X st s)"
  have u: "?s = s\<lparr>attach_first := False, attached := st, base_powered_off := (st = BASE_ATTACHED_OFF)\<rparr>"
    using assms(6) by (simp add: mods_ptp_attach_changed_def)
  have "src_current (to_base (report ?s)) \<le> CONFIG_GREYBUS_MODS_MAX_VBUS_CURRENT"
    using assms(5) by (simp add: u no_source_def config_simps)
  then have "good ?s"
    using none_good [of "chg_dev s" ?s] assms by (simp add: u)
  moreover have "ready ?s" using assms by (simp add: u ready_def)
  ultimately show ?thesis
    using act_good [OF assms(1), of ?s ?s] by simp
qed

lemma open_state:
  assumes k: "ok c" and o: "mods_ptp_open Q X I (cleared_info c e) = (0, s)"
  obtains t c' where "s = snd (mods_ptp_process Q X (snd (mods_ptp_attach_changed Q X (attach_now I) t)))"
    and "core t = (c', PTP_POWER_SOURCE_NONE, no_source, BASE_DETACHED, True)" "\<not> batt_first t" "\<not> ext_first t"
    and "ok c'" "look c' = look c" "\<exists>b x. battery t = mods_ptp_set_battery_state b x"
proof -
  let ?p = "(cleared_info c e)\<lparr>commands := mods_ptp_reset_base_commands\<rparr>"
  obtain r v c' where v: "chg_max_input_voltage Q c = (r, v, c')" by (metis prod.exhaust)
  have c': "ok c'" "look c' = look c" using voltage [OF k] v by simp_all
  obtain pm rep er e' where s2: "\<And>t. t = ?p\<lparr>boost_fault := False, chg_dev := c', pmic_max_input_voltage := pm,
      report := (report ?p)\<lparr>max_input_voltage := rep\<rparr>, ext := e'\<rparr> \<Longrightarrow>
      s = snd (mods_ptp_process Q X (snd (mods_ptp_attach_changed Q X (attach_now I)
            (mods_ptp_set_power_availability (mods_ptp_set_power_needs
               (mods_ptp_battery_changed Q X (batt_now I) (mods_ptp_ext_power_changed Q X t)))))))"
    using o v by (auto simp: mods_ptp_open_def Let_def cleared_info_def split_beta EIO_def split: if_splits)
  define t where "t = ?p\<lparr>boost_fault := False, chg_dev := c', pmic_max_input_voltage := pm,
      report := (report ?p)\<lparr>max_input_voltage := rep\<rparr>, ext := e'\<rparr>"
  define t1 where "t1 = mods_ptp_ext_power_changed Q X t"
  define t2 where "t2 = mods_ptp_set_power_availability (mods_ptp_set_power_needs (mods_ptp_battery_changed Q X (batt_now I) t1))"
  have t: "core t = (c', PTP_POWER_SOURCE_NONE, no_source, BASE_DETACHED, True)" "ext_first t" "batt_first t"
    by (simp_all add: t_def cleared_info_def core_def)
  have t1: "core t1 = core t" "\<not> ext_first t1" "batt_first t1"
    using t(2,3) by (simp_all add: t1_def core_first_calls first_calls)
  have t2: "core t2 = core t" "\<not> ext_first t2" "\<not> batt_first t2"
    using t1 by (simp_all add: t2_def core_first_calls first_calls)
  have b: "battery t2 = mods_ptp_set_battery_state (batt_now I) (battery t1)"
    using t1(3) by (simp add: t2_def mods_ptp_battery_changed_def)
  have "s = snd (mods_ptp_process Q X (snd (mods_ptp_attach_changed Q X (attach_now I) t2)))"
    unfolding t2_def t1_def by (rule s2) (rule t_def)
  then show thesis using that [of t2 c'] t2 t(1) c' b by auto
qed

lemma open_good:
  assumes "reliable" "ok c" "snd (snd (snd (look c))) = Ic_off" "mods_ptp_open Q X I (cleared_info c e) = (0, s)"
  shows "good s \<and> ready s"
  using assms(2,4)
proof (rule open_state)
  fix t c'
  assume "s = snd (mods_ptp_process Q X (snd (mods_ptp_attach_changed Q X (attach_now I) t)))"
    and "core t = (c', PTP_POWER_SOURCE_NONE, no_source, BASE_DETACHED, True)" "\<not> batt_first t" "\<not> ext_first t"
    and "ok c'" "look c' = look c"
  then show ?thesis using first_attach_good [of t] assms(1,3) by (simp add: core_def)
qed

lemma reach_good:
  assumes "ptp_reach Q X start s" "reliable" "\<And>c. start c \<Longrightarrow> ok c \<and> snd (snd (snd (look c))) = Ic_off"
  shows "good s \<and> ready s"
  using assms(1)
proof induction
  case (opened c e s0 I s)
  then have "s0 = cleared_info c e" by (simp add: mods_ptp_probe_def)
  then show ?case using open_good [OF assms(2)] assms(3) opened by blast
next
  case (stepped s s')
  then show ?case using step_good [OF _ assms(2)] by blast
qed

end

section \<open>Charging the battery\<close>

text \<open>The limits of a battery that may be charged are those of the configuration.\<close>

definition battery_limits :: "mods_ptp_battery \<Rightarrow> bool" where
  "battery_limits b \<longleftrightarrow> (chg_allowed b \<longrightarrow> charge_current b \<le> CONFIG_GREYBUS_MODS_QUICK_CHG_CURRENT \<and>
     charge_voltage b \<le> CONFIG_GREYBUS_MODS_FULL_CHG_VOLTAGE \<and>
     0 \<le> charge_current b \<and> CONFIG_GREYBUS_MODS_REDUCED_CHG_VOLTAGE \<le> charge_voltage b)"

text \<open>A chip that charges with a configuration does so with the battery's limits and consent.\<close>

definition charging_allowed :: "ic_mode \<Rightarrow> ('c, 'x) ptp_info \<Rightarrow> bool" where
  "charging_allowed m s \<longleftrightarrow> (\<forall>cfg. m = Ic_receive (Some cfg) \<longrightarrow>
     attached s \<noteq> BASE_INVALID \<and> chg_allowed (battery s) \<and> charge_current_limit cfg = charge_current (battery s) \<and>
     charge_voltage_limit cfg = charge_voltage (battery s))"

lemma charging_allowed_simps [simp]: "charging_allowed Ic_off s" "charging_allowed Ic_send s" "charging_allowed (Ic_receive None) s"
  by (simp_all add: charging_allowed_def)

lemma set_battery_state_limits [simp]: "battery_limits (mods_ptp_set_battery_state b x)"
  by (simp add: battery_limits_def mods_ptp_set_battery_state_def Let_def config_simps)

lemma battery_limits_src [simp]: "battery_limits (b\<lparr>batt_src := x\<rparr>) = battery_limits b"
  by (simp add: battery_limits_def)

lemma send_battery_limits [simp]: "battery_limits (battery (snd (send_battery Q s))) = battery_limits (battery s)"
  by (simp add: send_battery_def Let_def split: prod.split)

lemma charge_battery_limits:
  "battery_limits (battery (snd (do_charge_base Q X s))) = battery_limits (battery s)"
  "battery_limits (battery (snd (do_charge_battery_with_external_power Q X s))) = battery_limits (battery s)"
  "battery_limits (battery (snd (do_charge_battery_with_base_power Q s))) = battery_limits (battery s)"
  "battery_limits (battery (do_off Q s)) = battery_limits (battery s)"
  by (simp_all add: do_charge_base_def do_charge_battery_with_external_power_def Let_def split_beta
      do_charge_battery_with_base_power_def do_off_def split: option.split ext_power_source_e.split)

lemma process_battery_limits [simp]: "battery_limits (battery (snd (mods_ptp_process Q X s))) = battery_limits (battery s)"
  by (simp add: mods_ptp_process_def charge_battery_limits split: base_attached_e.split)

context ptp_charger
begin

abbreviation chip :: "'c \<Rightarrow> ic_mode" where
  "chip c \<equiv> snd (snd (snd (look c)))"

text \<open>What every operation leaves the chip in.\<close>

lemma chip_modes:
  assumes r: "reliable" and k: "ok c"
  shows "chip (snd (send_wired_pwr Q c)) = Ic_off" "chip (snd (send_wireless_pwr Q c)) = Ic_off"
    "chip (snd (snd (send_batt_pwr Q i c))) = Ic_send" "chip (snd (chg_off Q c)) = Ic_off"
    "chip (snd (all_paths_open Q c)) = Ic_off" "chip (snd (receive_base_pwr Q f c)) = Ic_receive f"
    "chip (snd (receive_wired_pwr Q f c)) = Ic_receive f" "chip (snd (receive_wireless_pwr Q f c)) = Ic_receive f"
  using never_fails [OF r, of c i f] send_wired [OF k] send_wireless [OF k] send_batt [OF k, of i] off [OF k]
    all_open [OF k] receive_base [OF k, of f] receive_wired [OF k, of f] receive_wireless [OF k, of f]
  by simp_all

lemma send_battery_chip:
  assumes "reliable" "ok (chg_dev s)"
  shows "chip (chg_dev (snd (send_battery Q s))) = Ic_send"
  using chip_modes(3) [OF assms, of "src_current (batt_src (battery s))"]
  by (auto simp: send_battery_def Let_def split: prod.split)

lemma charge_base_chip:
  assumes "reliable" "ok (chg_dev s)"
  shows "\<forall>cfg. chip (chg_dev (snd (do_charge_base Q X s))) \<noteq> Ic_receive cfg"
  using assms by (simp add: do_charge_base_def Let_def split_beta chip_modes send_battery_chip)

lemma process_charging:
  assumes "reliable" "ok (chg_dev s)" "attached s \<noteq> BASE_INVALID"
  shows "charging_allowed (chip (chg_dev (snd (mods_ptp_process Q X s)))) (snd (mods_ptp_process Q X s))"
proof -
  have "charging_allowed (chip (chg_dev (snd (do_charge_base Q X s)))) (snd (do_charge_base Q X s))"
    using charge_base_chip [OF assms(1,2)] by (simp add: charging_allowed_def)
  moreover have "charging_allowed (chip (chg_dev (snd (do_charge_battery_with_external_power Q X s))))
      (snd (do_charge_battery_with_external_power Q X s))"
    using assms unfolding do_charge_battery_with_external_power_def Let_def
    by (auto simp: chip_modes charging_allowed_def chg_cfg_def split: option.split ext_power_source_e.split)
  moreover have "charging_allowed (chip (chg_dev (snd (do_charge_battery_with_base_power Q s))))
      (snd (do_charge_battery_with_base_power Q s))"
    using assms unfolding do_charge_battery_with_base_power_def Let_def
    by (auto simp: chip_modes charging_allowed_def chg_cfg_def)
  moreover have "charging_allowed (chip (chg_dev (do_off Q s))) (do_off Q s)"
    using assms by (simp add: do_off_def chip_modes)
  ultimately show ?thesis using assms(3) by (simp add: mods_ptp_process_def split: base_attached_e.split)
qed

definition charging :: "('c, 'x) ptp_info \<Rightarrow> bool" where
  "charging s \<longleftrightarrow> charging_allowed (chip (chg_dev s)) s \<and> battery_limits (battery s)"

lemma act_charging:
  assumes "reliable" "ok (chg_dev s)" "charging s" "core s' = core s" "battery_limits (battery s')"
  shows "charging (snd (mods_ptp_process Q X s'))"
proof (cases "attached s' = BASE_INVALID")
  case True
  then have "chip (chg_dev s) \<noteq> Ic_receive (Some cfg)" for cfg
    using assms(3) core_eqD [OF assms(4)] by (auto simp: charging_def charging_allowed_def)
  then show ?thesis
    using True assms(5) core_eqD [OF assms(4)] by (simp add: mods_ptp_process_def charging_def charging_allowed_def)
next
  case False
  then show ?thesis
    using process_charging [OF assms(1), of s'] assms core_eqD [OF assms(4)] by (simp add: charging_def)
qed

lemma step_charging:
  assumes "ptp_step Q X s s'" and r: "reliable" and g: "good s" "ready s" and c: "charging s"
  shows "charging s'"
proof -
  have k: "ok (chg_dev s)" using g(1) by (simp add: good_def)
  have l: "battery_limits (battery s)" using c by (simp add: charging_def)
  note act = act_charging [OF r k c]
  have f: "\<not> attach_first s" "\<not> batt_first s" "\<not> ext_first (mods_ptp_get_external_power_sources X s)"
    using g(2) by (simp_all add: ready_def mods_ptp_get_external_power_sources_def)
  show ?thesis
    using assms(1)
  proof cases
    case (attach_event st)
    have "charging (snd (mods_ptp_process Q X t))"
      if "chg_dev t = chg_dev s" "attached t = st" "battery t = battery s" for t
      using process_charging [OF r, of t X] that attach_event(2) k l by (simp add: charging_def)
    then show ?thesis
      using attach_event c f(1) by (simp add: mods_ptp_attach_changed_def Let_def)
  qed (use c l f in \<open>auto simp: mods_ptp_set_current_flow_def mods_ptp_set_max_output_voltage_def
      mods_ptp_set_max_input_current_def mods_ptp_set_input_voltage_def mods_ptp_boost_fault_def Let_def
      mods_ptp_battery_changed_def mods_ptp_ext_power_changed_def mods_ptp_register_callback_def intro!: act\<close>,
      simp_all add: charging_def charging_allowed_def)
qed

lemma open_charging:
  assumes "reliable" "ok c" "chip c = Ic_off" "mods_ptp_open Q X I (cleared_info c e) = (0, s)"
  shows "charging s"
  using assms(2,4)
proof (rule open_state)
  fix t c'
  assume s: "s = snd (mods_ptp_process Q X (snd (mods_ptp_attach_changed Q X (attach_now I) t)))"
    and t: "core t = (c', PTP_POWER_SOURCE_NONE, no_source, BASE_DETACHED, True)" "ok c'" "look c' = look c"
      "\<exists>b x. battery t = mods_ptp_set_battery_state b x"
  let ?t = "snd (mods_ptp_attach_changed Q X (attach_now I) t)"
  have "ok (chg_dev ?t)" "charging ?t"
    using t assms(3) by (auto simp: mods_ptp_attach_changed_def core_def charging_def)
  then show "charging s" unfolding s by (intro act_charging [OF assms(1), of ?t]) (simp_all add: charging_def)
qed

lemma reach_charging:
  assumes "ptp_reach Q X start s" "reliable" "\<And>c. start c \<Longrightarrow> ok c \<and> chip c = Ic_off"
  shows "charging s"
  using assms(1)
proof induction
  case (opened c e s0 I s)
  then have "s0 = cleared_info c e" by (simp add: mods_ptp_probe_def)
  then show ?case using open_charging [OF assms(2)] assms(3) opened by blast
next
  case (stepped s s')
  then show ?case using step_charging [OF _ assms(2)] reach_good [OF _ assms(2,3)] by blast
qed

end

text \<open>Steps of the chip that change neither its mode nor the paths.\<close>

context ptp_charger
begin

lemma chip_step_good:
  assumes "good s" "ready s" "charging s" "ok c" "look c = look (chg_dev s)"
  shows "good (s\<lparr>chg_dev := c\<rparr>)" "ready (s\<lparr>chg_dev := c\<rparr>)" "charging (s\<lparr>chg_dev := c\<rparr>)"
  using assms by (simp_all add: good_def sanctioned_def in_limits_def ready_def charging_def charging_allowed_def)

end

section \<open>The switch driver keeps the contract\<close>

text \<open>A charger chip whose operations succeed.\<close>

definition chip_ok :: "'w charger_ops \<Rightarrow> bool" where
  "chip_ok E \<longleftrightarrow> (\<forall>w. fst (charger_off E w) = 0) \<and> (\<forall>f w. fst (charger_receive E f w) = 0) \<and>
     (\<forall>i w. fst (charger_send E i w) = 0)"

lemma charger_fst:
  "fst (device_charger_off E s) = fst (charger_off E (chg_world s))"
  "fst (device_charger_receive E f s) = fst (charger_receive E f (chg_world s))"
  "fst (device_charger_send E i s) = fst (charger_send E i (chg_world s))"
  by (simp_all add: device_charger_off_def device_charger_receive_def device_charger_send_def split_beta Let_def)

lemma view_eq:
  "view s = (a, b, c, m) \<longleftrightarrow> wireless_on s = a \<and> wired_on s = b \<and> base_on s = c \<and> ic s = m"
  by (auto simp: view_def)

lemma board_ok_off: "board_ok s \<Longrightarrow> off_state s = EXT_PWR_SOURCES_OFF"
  by (simp add: board_ok_def)

interpretation sw: ptp_charger "switch_ptp_chg_type_ops E" view board_ok "chip_ok E" for E :: "'w charger_ops"
proof unfold_locales
  fix c :: "'w switch_ptp_chg_info" and f i
  note pv = path_views [unfolded view_eq] and cv = charger_views [unfolded view_eq]
  assume c: "board_ok c"
  show "board_ok (snd (send_wired_pwr (switch_ptp_chg_type_ops E) c)) \<and>
      (fst (send_wired_pwr (switch_ptp_chg_type_ops E) c) = 0 \<longrightarrow>
       view (snd (send_wired_pwr (switch_ptp_chg_type_ops E) c)) = (False, True, True, Ic_off))"
    using c by (simp add: switch_ptp_chg_type_ops_def switch_ptp_chg_send_wired_pwr_def split_beta Let_def view_eq pv cv)
  show "board_ok (snd (send_wireless_pwr (switch_ptp_chg_type_ops E) c)) \<and>
      (fst (send_wireless_pwr (switch_ptp_chg_type_ops E) c) = 0 \<longrightarrow>
       view (snd (send_wireless_pwr (switch_ptp_chg_type_ops E) c)) = (True, False, True, Ic_off))"
    using c by (simp add: switch_ptp_chg_type_ops_def switch_ptp_chg_send_wireless_pwr_def split_beta Let_def view_eq pv cv)
  show "board_ok (snd (snd (send_batt_pwr (switch_ptp_chg_type_ops E) i c))) \<and>
      (fst (send_batt_pwr (switch_ptp_chg_type_ops E) i c) = 0 \<longrightarrow>
       view (snd (snd (send_batt_pwr (switch_ptp_chg_type_ops E) i c))) = (False, False, True, Ic_send))"
    using c by (simp add: switch_ptp_chg_type_ops_def switch_ptp_chg_send_batt_pwr_def split_beta Let_def view_eq pv cv)
  show "board_ok (snd (chg_off (switch_ptp_chg_type_ops E) c)) \<and>
      (fst (chg_off (switch_ptp_chg_type_ops E) c) = 0 \<longrightarrow>
       view (snd (chg_off (switch_ptp_chg_type_ops E) c)) = (False, False, False, Ic_off))"
    using c board_ok_off [OF c]
    by (simp add: switch_ptp_chg_type_ops_def switch_ptp_chg_off_def Let_def view_eq pv cv)
  show "board_ok (snd (all_paths_open (switch_ptp_chg_type_ops E) c)) \<and>
      (fst (all_paths_open (switch_ptp_chg_type_ops E) c) = 0 \<longrightarrow>
       view (snd (all_paths_open (switch_ptp_chg_type_ops E) c)) = (True, True, True, Ic_off))"
    using c by (simp add: switch_ptp_chg_type_ops_def switch_ptp_chg_all_paths_open_def split_beta Let_def view_eq pv cv)
  show "board_ok (snd (receive_base_pwr (switch_ptp_chg_type_ops E) f c)) \<and>
      (fst (receive_base_pwr (switch_ptp_chg_type_ops E) f c) = 0 \<longrightarrow>
       view (snd (receive_base_pwr (switch_ptp_chg_type_ops E) f c)) = (False, False, True, Ic_receive f))"
    using c by (simp add: switch_ptp_chg_type_ops_def switch_ptp_chg_receive_base_pwr_def split_beta Let_def view_eq pv cv)
  show "board_ok (snd (receive_wired_pwr (switch_ptp_chg_type_ops E) f c)) \<and>
      (fst (receive_wired_pwr (switch_ptp_chg_type_ops E) f c) = 0 \<longrightarrow>
       view (snd (receive_wired_pwr (switch_ptp_chg_type_ops E) f c)) = (False, True, False, Ic_receive f))"
    using c by (simp add: switch_ptp_chg_type_ops_def switch_ptp_chg_receive_wired_pwr_def split_beta Let_def view_eq pv cv)
  show "board_ok (snd (receive_wireless_pwr (switch_ptp_chg_type_ops E) f c)) \<and>
      (fst (receive_wireless_pwr (switch_ptp_chg_type_ops E) f c) = 0 \<longrightarrow>
       view (snd (receive_wireless_pwr (switch_ptp_chg_type_ops E) f c)) = (True, False, False, Ic_receive f))"
    using c by (simp add: switch_ptp_chg_type_ops_def switch_ptp_chg_receive_wireless_pwr_def split_beta Let_def view_eq pv cv)
  show "board_ok (snd (snd (chg_max_input_voltage (switch_ptp_chg_type_ops E) c))) \<and>
      view (snd (snd (chg_max_input_voltage (switch_ptp_chg_type_ops E) c))) = view c"
    using c by (simp add: switch_ptp_chg_type_ops_def switch_ptp_chg_max_input_voltage_def split_beta Let_def
        view_def board_ok_def path_on_def)
next
  fix c :: "'w switch_ptp_chg_info" and f i
  assume "chip_ok E"
  then show "fst (send_wired_pwr (switch_ptp_chg_type_ops E) c) = 0 \<and> fst (send_wireless_pwr (switch_ptp_chg_type_ops E) c) = 0 \<and>
      fst (send_batt_pwr (switch_ptp_chg_type_ops E) i c) = 0 \<and> fst (chg_off (switch_ptp_chg_type_ops E) c) = 0 \<and>
      fst (all_paths_open (switch_ptp_chg_type_ops E) c) = 0 \<and> fst (receive_base_pwr (switch_ptp_chg_type_ops E) f c) = 0 \<and>
      fst (receive_wired_pwr (switch_ptp_chg_type_ops E) f c) = 0 \<and> fst (receive_wireless_pwr (switch_ptp_chg_type_ops E) f c) = 0"
    by (simp add: switch_ptp_chg_type_ops_def chg_op_defs split_beta Let_def charger_fst chip_ok_def)
qed

text \<open>A charger as the probe and the open of the switch driver leave it, on a board with all three switches.\<close>

inductive probed :: "'w charger_ops \<Rightarrow> 'w switch_ptp_chg_info \<Rightarrow> bool" for E where
  "switch_ptp_chg_probe True init (Some a) (Some b) (Some d) gpios w = (0, Some s) \<Longrightarrow>
   0 \<le> a \<Longrightarrow> 0 \<le> b \<Longrightarrow> 0 \<le> d \<Longrightarrow> distinct [a, b, d] \<Longrightarrow>
   switch_ptp_chg_open E s = (0, c) \<Longrightarrow> probed E c"

lemma probe_state:
  assumes "switch_ptp_chg_probe True init (Some a) (Some b) (Some d) gpios w = (0, Some s)"
    "0 \<le> a" "0 \<le> b" "0 \<le> d" "distinct [a, b, d]"
  shows "board_ok s \<and> ic s = Ic_off"
  using assms(2-)
  by (cases "case init of Some x \<Rightarrow> x | None \<Rightarrow> (True, True, True)"; insert assms(1))
    (clarsimp simp: switch_ptp_chg_probe_def Let_def board_ok_def path_defs)

lemma probed_start:
  assumes "probed E c"
  shows "board_ok c \<and> snd (snd (snd (view c))) = Ic_off"
  using assms
proof cases
  case (1 init a b d gpios w s)
  have "c = s\<lparr>chg_world := snd (charger_open E (chg_world s))\<rparr>"
    using 1(6) by (simp add: switch_ptp_chg_open_def split_beta)
  then show ?thesis
    using probe_state [OF 1(1-5)] by (simp add: board_ok_def view_def)
qed

lemma switch_reach:
  assumes "chip_ok E" "ptp_reach (switch_ptp_chg_type_ops E) X (probed E) s"
  shows "board_ok (chg_dev s)" "power_matches (view (chg_dev s)) (source (report s))" "sanctioned s" "in_limits s" "ready s"
  using sw.reach_good [OF assms(2,1) probed_start] by (simp_all add: sw.good_def)

section \<open>A sample module\<close>

text \<open>A chip that does what it is told, and a wired source of 1 A at 5 V.\<close>

definition sample_chip :: "unit charger_ops" where
  "sample_chip = \<lparr>charger_off = (\<lambda>w. (0, w)), charger_receive = (\<lambda>_ w. (0, w)), charger_send = (\<lambda>_ w. (0, 400, w)),
     charger_max_input_voltage = (\<lambda>w. (0, 9000, w)), charger_open = (\<lambda>w. (True, w))\<rparr>"

definition sample_sources :: "int ext_ops" where
  "sample_sources = \<lparr>ext_open = (\<lambda>i x. (i = EXT_POWER_WIRED, x)), ext_close = (\<lambda>_ x. x), ext_register = (\<lambda>_ x. (0, x)),
     ext_set_max = (\<lambda>_ _ x. (0, x)), ext_get_output = (\<lambda>_ x. (0, x, 5000))\<rparr>"

definition sample_charger :: "unit switch_ptp_chg_info" where
  "sample_charger = the (snd (switch_ptp_chg_probe True None (Some 1) (Some 2) (Some 3) (\<lambda>_. False) ()))"

definition sample_open_in :: open_in where
  "sample_open_in = \<lparr>sem_init_ret = 0, chg_open_ok = True, ext_register_ret = 0, batt_register_ret = 0,
     batt_now = \<lparr>batt_temp = BATTERY_TEMP_NORMAL, batt_level = BATTERY_LEVEL_NORMAL, batt_voltage = BATTERY_SLOW_CHARGE\<rparr>,
     attach_register_ret = 0, attach_now = BASE_ATTACHED\<rparr>"

text \<open>The driver opened with the base attached; the argument is the current of the wired source.\<close>

definition sample_ptp :: "int \<Rightarrow> (unit switch_ptp_chg_info, int) ptp_info" where
  "sample_ptp cur = snd (mods_ptp_open (switch_ptp_chg_type_ops sample_chip) sample_sources sample_open_in
     (cleared_info sample_charger \<lparr>ext_dev = (\<lambda>_. False), initialized = False, ext_world = cur\<rparr>))"

text \<open>The same after the base has asked for power.\<close>

definition sample_sending :: "int \<Rightarrow> (unit switch_ptp_chg_info, int) ptp_info" where
  "sample_sending cur = snd (mods_ptp_set_current_flow (switch_ptp_chg_type_ops sample_chip) sample_sources
     PTP_CURRENT_FROM_MOD (sample_ptp cur))"

lemmas ptp_eval = mods_ptp_open_def cleared_info_def mods_ptp_process_def mods_ptp_attach_changed_def
  mods_ptp_battery_changed_def mods_ptp_set_battery_state_def mods_ptp_ext_power_changed_def notify_def
  mods_ptp_set_power_needs_def mods_ptp_set_power_availability_def mods_ptp_set_ext_power_presence_def
  mods_ptp_get_external_power_sources_def mods_ptp_get_ext_power_output_def mods_ptp_reset_base_commands_def
  do_charge_base_def do_charge_battery_with_external_power_def do_set_base_source_def do_choose_ext_src_def
  do_calculate_power_def ext_src_def limit_ext_def send_battery_def no_source_def
  ext_power_set_max_output_voltage_def ext_power_init_def mods_ptp_set_current_flow_def

lemmas eval_cong = let_weak_cong if_weak_cong prod.case_cong_weak option.case_cong_weak
  base_attached_e.case_cong_weak ext_power_source_e.case_cong_weak

lemmas sample_defs = sample_chip_def sample_sources_def sample_charger_def sample_open_in_def
  switch_ptp_chg_probe_def switch_ptp_chg_type_ops_def switch_ptp_chg_max_input_voltage_def chg_op_defs path_defs on_chg_def

lemma sample_chip_ok: "chip_ok sample_chip"
  by (simp add: chip_ok_def sample_chip_def)

lemma sample_probed: "probed sample_chip sample_charger"
proof (rule probed.intros)
  show "switch_ptp_chg_probe True None (Some 1) (Some 2) (Some 3) (\<lambda>_. False) () = (0, Some sample_charger)"
    by (simp add: sample_charger_def switch_ptp_chg_probe_def Let_def)
  show "switch_ptp_chg_open sample_chip sample_charger = (0, sample_charger)"
    by (simp add: switch_ptp_chg_open_def sample_chip_def sample_charger_def switch_ptp_chg_probe_def Let_def path_defs)
qed simp_all

lemma sample_reach: "ptp_reach (switch_ptp_chg_type_ops sample_chip) sample_sources (probed sample_chip) (sample_ptp cur)"
proof (rule ptp_reach.opened)
  show "probed sample_chip sample_charger" by (rule sample_probed)
  show "mods_ptp_probe True sample_charger \<lparr>ext_dev = (\<lambda>_. False), initialized = False, ext_world = cur\<rparr> =
      (0, Some (cleared_info sample_charger \<lparr>ext_dev = (\<lambda>_. False), initialized = False, ext_world = cur\<rparr>))"
    by (simp add: mods_ptp_probe_def)
  show "mods_ptp_open (switch_ptp_chg_type_ops sample_chip) sample_sources sample_open_in
      (cleared_info sample_charger \<lparr>ext_dev = (\<lambda>_. False), initialized = False, ext_world = cur\<rparr>) = (0, sample_ptp cur)"
    unfolding sample_ptp_def
    by (simp add: mods_ptp_open_def cleared_info_def Let_def sample_defs ext_power_init_def cong: eval_cong)
qed

lemma sample_sending_reach:
  "ptp_reach (switch_ptp_chg_type_ops sample_chip) sample_sources (probed sample_chip) (sample_sending cur)"
  unfolding sample_sending_def by (rule ptp_reach.stepped [OF sample_reach]) (rule ptp_step.current_flow)

lemma sample_sending_wired: "source (report (sample_sending 1000)) = PTP_POWER_SOURCE_WIRED"
  unfolding sample_sending_def sample_ptp_def
  by (simp add: Let_def sample_defs ptp_eval config_simps cong: eval_cong)

section \<open>Properties\<close>





text \<open>
  The battery is charged only with its consent: in every reachable state, a chip that charges
  with a configuration has one whose charge current and voltage are those of the battery state,
  the battery may be charged, and both are within the configured maxima.
\<close>

theorem charging_follows_the_battery:
  assumes "chip_ok E" "ptp_reach (switch_ptp_chg_type_ops E) X (probed E) s"
    and "ic (chg_dev s) = Ic_receive (Some cfg)"
  shows "chg_allowed (battery s) \<and> charge_current_limit cfg = charge_current (battery s) \<and>
    charge_voltage_limit cfg = charge_voltage (battery s) \<and>
    charge_current_limit cfg \<le> CONFIG_GREYBUS_MODS_QUICK_CHG_CURRENT \<and>
    charge_voltage_limit cfg \<le> CONFIG_GREYBUS_MODS_FULL_CHG_VOLTAGE"
  using sw.reach_charging [OF assms(2,1) probed_start] assms(3)
  by (simp add: sw.charging_def charging_allowed_def battery_limits_def view_def)

lemma sample_charging:
  "ic (chg_dev (sample_ptp 1000)) = Ic_receive (Some \<lparr>input_current_limit = 1000, input_voltage_limit = 4500,
     charge_current_limit = 300, charge_voltage_limit = 4350\<rparr>)"
  unfolding sample_ptp_def
  by (simp add: Let_def sample_defs ptp_eval chg_cfg_def config_simps cong: eval_cong)

theorem charging_follows_the_battery_witness:
  "chg_allowed (battery (sample_ptp 1000)) \<and> charge_voltage (battery (sample_ptp 1000)) = 4350"
  using charging_follows_the_battery [OF sample_chip_ok sample_reach sample_charging] by simp

text \<open>
  C21. The source chosen is the strongest one within the voltage limit: it gives power within the
  limit and no other source gives more; nothing is chosen exactly if no source gives any.
\<close>

theorem strongest_source_is_chosen:
  "case do_choose_ext_src s v of
     None \<Rightarrow> \<forall>i. do_calculate_power (ext_src s i) v \<le> 0
   | Some i \<Rightarrow> src_voltage (ext_src s i) \<le> v \<and> 0 < do_calculate_power (ext_src s i) v \<and>
       (\<forall>j. do_calculate_power (ext_src s j) v \<le> do_calculate_power (ext_src s i) v)"
  using choose_ext_src_spec [of s v] chosen_voltage [of s v] by (auto split: option.split)

section \<open>Where the code does something else\<close>

lemma bookkeeping_commands [simp]:
  "commands (mods_ptp_set_power_availability s) = commands s" "commands (mods_ptp_set_power_needs s) = commands s"
  "commands (mods_ptp_set_ext_power_presence s) = commands s" "commands (mods_ptp_get_external_power_sources X s) = commands s"
  "boost_fault (mods_ptp_set_power_availability s) = boost_fault s" "boost_fault (mods_ptp_set_power_needs s) = boost_fault s"
  by (simp_all add: mods_ptp_set_power_availability_def mods_ptp_set_power_needs_def Let_def notify_def
      mods_ptp_set_ext_power_presence_def mods_ptp_get_external_power_sources_def)

text \<open>A battery event acts on the state with the new battery, and perhaps a new direction.\<close>

lemma battery_event_acts:
  assumes "\<not> batt_first s" "batt_last s \<noteq> b"
  obtains t where "mods_ptp_battery_changed Q X b s = snd (mods_ptp_process Q X t)"
    and "core t = core s" "battery t = mods_ptp_set_battery_state b (battery s)" "boost_fault t = boost_fault s"
    and "direction (commands t) =
      (if (\<not> dischg_allowed (battery s) \<or> low_battery (battery s) \<noteq> low_battery (battery t)) \<and>
          source (report s) = PTP_POWER_SOURCE_BATTERY then PTP_CURRENT_OFF else direction (commands s))"
proof -
  define t1 where "t1 = s\<lparr>batt_last := b, battery := mods_ptp_set_battery_state b (battery s)\<rparr>"
  define t2 where "t2 = (if (\<not> dischg_allowed (battery s) \<or> low_battery (battery s) \<noteq> low_battery (battery t1)) \<and>
      source (report t1) = PTP_POWER_SOURCE_BATTERY
    then t1\<lparr>commands := (commands t1)\<lparr>direction := PTP_CURRENT_OFF\<rparr>\<rparr> else t1)"
  define t3 where "t3 = (if chg_allowed (battery s) \<noteq> chg_allowed (battery t2) then mods_ptp_set_power_needs t2 else t2)"
  define t4 where "t4 = (if dischg_allowed (battery s) \<noteq> dischg_allowed (battery t3)
    then mods_ptp_set_power_availability t3 else t3)"
  have t2: "core t2 = core s" "battery t2 = mods_ptp_set_battery_state b (battery s)" "boost_fault t2 = boost_fault s"
    by (simp_all add: t2_def t1_def)
  have t4: "core t4 = core t2" "battery t4 = battery t2" "boost_fault t4 = boost_fault t2" "commands t4 = commands t2"
    by (simp_all add: t4_def t3_def)
  have "direction (commands t2) =
      (if (\<not> dischg_allowed (battery s) \<or> low_battery (battery s) \<noteq> low_battery (battery t2)) \<and>
          source (report s) = PTP_POWER_SOURCE_BATTERY then PTP_CURRENT_OFF else direction (commands s))"
    by (simp add: t2_def t1_def)
  moreover have "mods_ptp_battery_changed Q X b s = snd (mods_ptp_process Q X t4)"
    using assms unfolding mods_ptp_battery_changed_def t4_def t3_def t2_def t1_def by (simp only: Let_def if_False)
  ultimately show thesis using that [of t4] t2 t4 by simp
qed

lemma receive_without_config:
  assumes "chip_ok E" "board_ok (chg_dev t)" "attached t = BASE_DETACHED" "\<not> chg_allowed (battery t)"
  shows "ic (chg_dev (snd (mods_ptp_process (switch_ptp_chg_type_ops E) X t))) = Ic_receive None"
    "battery (snd (mods_ptp_process (switch_ptp_chg_type_ops E) X t)) = battery t"
  using assms(3,4) sw.chip_modes(6) [OF assms(1,2), of None]
  by (auto simp: mods_ptp_process_def do_charge_battery_with_external_power_def Let_def view_def
      split: option.split)

lemma process_attached: "attached (snd (mods_ptp_process Q X s)) = attached s"
  by (simp add: mods_ptp_process_def do_charge_base_def do_charge_battery_with_external_power_def Let_def split_beta
      do_charge_battery_with_base_power_def do_off_def send_battery_def
      split: base_attached_e.split option.split ext_power_source_e.split)

lemma process_consent:
  "dischg_allowed (battery (snd (mods_ptp_process Q X s))) = dischg_allowed (battery s)"
  "chg_allowed (battery (snd (mods_ptp_process Q X s))) = chg_allowed (battery s)"
  by (simp_all add: mods_ptp_process_def do_charge_base_def do_charge_battery_with_external_power_def Let_def split_beta
      do_charge_battery_with_base_power_def do_off_def send_battery_def
      split: base_attached_e.split option.split ext_power_source_e.split)

lemma process_commands:
  "\<not> boost_fault s \<Longrightarrow> commands (snd (mods_ptp_process Q X s)) = commands s"
  by (simp add: mods_ptp_process_def do_charge_base_def do_charge_battery_with_external_power_def Let_def split_beta
      do_charge_battery_with_base_power_def do_off_def send_battery_def
      split: base_attached_e.split option.split ext_power_source_e.split)

text \<open>
  A battery that must not be charged gets the charger switched on. When the base is not there
  and a battery event says the battery is full, the driver, instead of switching the charger off,
  tells the chip to charge from the base with a configuration on the stack that nobody has written.
\<close>

theorem full_battery_starts_the_charger:
  assumes "chip_ok E" "ptp_reach (switch_ptp_chg_type_ops E) X (probed E) s"
    and "attached s = BASE_DETACHED" "batt_level b = BATTERY_LEVEL_FULL" "batt_last s \<noteq> b"
  shows "\<not> chg_allowed (battery (mods_ptp_battery_changed (switch_ptp_chg_type_ops E) X b s)) \<and>
    ic (chg_dev (mods_ptp_battery_changed (switch_ptp_chg_type_ops E) X b s)) = Ic_receive None"
proof -
  note g = switch_reach [OF assms(1,2)]
  have "\<not> batt_first s" using g(5) by (simp add: ready_def)
  then obtain t where t: "mods_ptp_battery_changed (switch_ptp_chg_type_ops E) X b s =
      snd (mods_ptp_process (switch_ptp_chg_type_ops E) X t)" "core t = core s"
      "battery t = mods_ptp_set_battery_state b (battery s)"
    using battery_event_acts [OF _ assms(5)] by metis
  have "\<not> chg_allowed (battery t)"
    using assms(4) t(3) by (simp add: mods_ptp_set_battery_state_def Let_def)
  then show ?thesis
    using receive_without_config [OF assms(1), of t] t(1) core_eqD [OF t(2)] g(1) assms(3) by simp
qed

definition full_battery :: batt_state_s where
  "full_battery = \<lparr>batt_temp = BATTERY_TEMP_NORMAL, batt_level = BATTERY_LEVEL_FULL, batt_voltage = BATTERY_SLOW_CHARGE\<rparr>"

text \<open>The sample module after the base has gone.\<close>

definition sample_alone :: "(unit switch_ptp_chg_info, int) ptp_info" where
  "sample_alone = snd (mods_ptp_attach_changed (switch_ptp_chg_type_ops sample_chip) sample_sources
     BASE_DETACHED (sample_ptp 1000))"

lemma sample_alone_reach:
  "ptp_reach (switch_ptp_chg_type_ops sample_chip) sample_sources (probed sample_chip) sample_alone"
  unfolding sample_alone_def by (rule ptp_reach.stepped [OF sample_reach]) (rule ptp_step.attach_event, simp)

lemma sample_alone_state: "attached sample_alone = BASE_DETACHED" "batt_level (batt_last sample_alone) = BATTERY_LEVEL_NORMAL"
  unfolding sample_alone_def sample_ptp_def
  by (simp_all add: Let_def sample_defs ptp_eval config_simps cong: eval_cong)

theorem full_battery_starts_the_charger_witness:
  "ic (chg_dev (mods_ptp_battery_changed (switch_ptp_chg_type_ops sample_chip) sample_sources full_battery sample_alone)) =
     Ic_receive None"
proof -
  have "batt_level full_battery = BATTERY_LEVEL_FULL" "batt_last sample_alone \<noteq> full_battery"
    using sample_alone_state(2) by (auto simp: full_battery_def)
  from full_battery_starts_the_charger [OF sample_chip_ok sample_alone_reach sample_alone_state(1) this]
  show ?thesis by simp
qed

text \<open>
  A battery that runs empty while it feeds the base does not end the transfer: a comment says
  that the driver goes to off when the conditions change, but the test reads the permission of the
  old battery state, so the direction stays ``from the module'' although the battery no longer feeds
  the base. As soon as the battery recovers, power flows again without a new request.
\<close>

theorem empty_battery_keeps_the_direction:
  assumes "chip_ok E" "ptp_reach (switch_ptp_chg_type_ops E) X (probed E) s"
    and "attached s = BASE_ATTACHED" "source (report s) = PTP_POWER_SOURCE_BATTERY" "low_battery (battery s)"
    and "batt_level b = BATTERY_LEVEL_EMPTY" "batt_last s \<noteq> b"
  shows "source (report (mods_ptp_battery_changed (switch_ptp_chg_type_ops E) X b s)) \<noteq> PTP_POWER_SOURCE_BATTERY \<and>
    direction (commands (mods_ptp_battery_changed (switch_ptp_chg_type_ops E) X b s)) = PTP_CURRENT_FROM_MOD"
proof -
  let ?Q = "switch_ptp_chg_type_ops E"
  note g = switch_reach [OF assms(1,2)]
  have d: "dischg_allowed (battery s)" "\<not> boost_fault s" "direction (commands s) = PTP_CURRENT_FROM_MOD"
    using g(3) assms(3,4) by (simp_all add: sanctioned_def)
  have "\<not> batt_first s" using g(5) by (simp add: ready_def)
  then obtain t where t: "mods_ptp_battery_changed ?Q X b s = snd (mods_ptp_process ?Q X t)" "core t = core s"
      "battery t = mods_ptp_set_battery_state b (battery s)" "boost_fault t = boost_fault s"
      "direction (commands t) =
      (if (\<not> dischg_allowed (battery s) \<or> low_battery (battery s) \<noteq> low_battery (battery t)) \<and>
          source (report s) = PTP_POWER_SOURCE_BATTERY then PTP_CURRENT_OFF else direction (commands s))"
    using battery_event_acts [OF _ assms(7)] by metis
  have e: "\<not> dischg_allowed (battery t)" "low_battery (battery t)"
    using assms(6) t(3) by (simp_all add: mods_ptp_set_battery_state_def Let_def)
  have "ptp_reach ?Q X (probed E) (snd (mods_ptp_process ?Q X t))"
    using ptp_reach.stepped [OF assms(2) ptp_step.battery_event] t(1) by metis
  from switch_reach(3) [OF assms(1) this]
  have "source (report (snd (mods_ptp_process ?Q X t))) \<noteq> PTP_POWER_SOURCE_BATTERY"
    using e(1) process_consent(1) [of ?Q X t] by (auto simp: sanctioned_def)
  then show ?thesis
    using t e d assms(5) by (simp add: process_commands)
qed

text \<open>The sample module without a wired source, its battery at the given level, after the base asked for power.\<close>

definition battery_at :: "batt_level_e \<Rightarrow> batt_state_s" where
  "battery_at l = \<lparr>batt_temp = BATTERY_TEMP_NORMAL, batt_level = l, batt_voltage = BATTERY_SLOW_CHARGE\<rparr>"

definition sample_feeding :: "(unit switch_ptp_chg_info, int) ptp_info" where
  "sample_feeding = snd (mods_ptp_set_current_flow (switch_ptp_chg_type_ops sample_chip) sample_sources PTP_CURRENT_FROM_MOD
     (mods_ptp_battery_changed (switch_ptp_chg_type_ops sample_chip) sample_sources (battery_at BATTERY_LEVEL_LOW) (sample_ptp 0)))"

lemma sample_feeding_reach:
  "ptp_reach (switch_ptp_chg_type_ops sample_chip) sample_sources (probed sample_chip) sample_feeding"
  unfolding sample_feeding_def
  by (rule ptp_reach.stepped [OF ptp_reach.stepped [OF sample_reach]])
    (rule ptp_step.battery_event, rule ptp_step.current_flow)

lemma sample_feeding_state:
  "attached sample_feeding = BASE_ATTACHED" "source (report sample_feeding) = PTP_POWER_SOURCE_BATTERY"
  "low_battery (battery sample_feeding)" "batt_level (batt_last sample_feeding) = BATTERY_LEVEL_LOW"
  unfolding sample_feeding_def sample_ptp_def
  by (simp_all add: Let_def sample_defs ptp_eval battery_at_def config_simps cong: eval_cong)

theorem empty_battery_keeps_the_direction_witness:
  "direction (commands (mods_ptp_battery_changed (switch_ptp_chg_type_ops sample_chip) sample_sources
     (battery_at BATTERY_LEVEL_EMPTY) sample_feeding)) = PTP_CURRENT_FROM_MOD"
proof -
  have "batt_level (battery_at BATTERY_LEVEL_EMPTY) = BATTERY_LEVEL_EMPTY"
    "batt_last sample_feeding \<noteq> battery_at BATTERY_LEVEL_EMPTY"
    using sample_feeding_state(4) by (auto simp: battery_at_def)
  from empty_battery_keeps_the_direction [OF sample_chip_ok sample_feeding_reach sample_feeding_state(1-3) this]
  show ?thesis by simp
qed

lemma process_available [simp]: "available (report (snd (mods_ptp_process Q X s))) = available (report s)"
  by (simp add: mods_ptp_process_def do_charge_base_def do_charge_battery_with_external_power_def Let_def split_beta
      do_charge_battery_with_base_power_def do_off_def send_battery_def do_set_base_source_def
      split: base_attached_e.split option.split ext_power_source_e.split)

lemma bookkeeping_available:
  "available (report (mods_ptp_set_power_needs s)) = available (report s)"
  "available (report (mods_ptp_set_ext_power_presence s)) = available (report s)"
  "available (report (mods_ptp_get_external_power_sources X s)) = available (report s)"
  "available (report s) \<noteq> PTP_POWER_AVAILABLE_NONE \<Longrightarrow>
   available (report (mods_ptp_set_power_availability s)) \<noteq> PTP_POWER_AVAILABLE_NONE"
  by (simp_all add: mods_ptp_set_power_availability_def mods_ptp_set_power_needs_def Let_def notify_def
      mods_ptp_set_ext_power_presence_def mods_ptp_get_external_power_sources_def)

text \<open>
  Availability of power is never withdrawn: once the driver has reported that it has external
  or battery power for the base, no event makes it report none again, not even when every source is
  gone and the battery may not be discharged.
\<close>

theorem availability_is_never_withdrawn:
  assumes "ptp_step Q X s s'" "available (report s) \<noteq> PTP_POWER_AVAILABLE_NONE"
  shows "available (report s') \<noteq> PTP_POWER_AVAILABLE_NONE"
  using assms
proof cases
  case (attach_event st)
  then show ?thesis using assms(2) by (simp add: mods_ptp_attach_changed_def Let_def)
next
  case (battery_event b)
  then show ?thesis using assms(2) by (auto simp: mods_ptp_battery_changed_def Let_def bookkeeping_available)
next
  case ext_event
  then show ?thesis using assms(2) by (auto simp: mods_ptp_ext_power_changed_def Let_def bookkeeping_available)
qed (use assms(2) in \<open>simp_all add: mods_ptp_set_current_flow_def mods_ptp_set_max_output_voltage_def
    mods_ptp_set_max_input_current_def mods_ptp_set_input_voltage_def mods_ptp_boost_fault_def Let_def
    mods_ptp_register_callback_def\<close>)

theorem availability_is_never_withdrawn_witness:
  "available (report (mods_ptp_battery_changed (switch_ptp_chg_type_ops sample_chip) sample_sources
     (battery_at BATTERY_LEVEL_EMPTY) sample_feeding)) \<noteq> PTP_POWER_AVAILABLE_NONE"
proof -
  have "available (report sample_feeding) \<noteq> PTP_POWER_AVAILABLE_NONE"
    unfolding sample_feeding_def sample_ptp_def
    by (simp add: Let_def sample_defs ptp_eval battery_at_def config_simps cong: eval_cong)
  from availability_is_never_withdrawn [OF ptp_step.battery_event this] show ?thesis .
qed

lemma charge_battery_ext_source:
  "source (report (snd (do_charge_battery_with_external_power Q X s))) = PTP_POWER_SOURCE_NONE"
  by (auto simp: do_charge_battery_with_external_power_def Let_def do_set_base_source_def
      split: option.split ext_power_source_e.split)

text \<open>
  A strong wired source is dropped by the next event of any source: the announced current is
  capped at the connector's limit, but the comparison that decides whether the source changed uses
  the uncapped one. So when the wired source gives more than the cap and an event finds every
  source as it was, the driver ends the transfer to the base.
\<close>

theorem strong_source_is_dropped:
  assumes "chip_ok E" "ptp_reach (switch_ptp_chg_type_ops E) X (probed E) s"
    and "attached s = BASE_ATTACHED" "source (report s) = PTP_POWER_SOURCE_WIRED"
    and "CONFIG_GREYBUS_MODS_MAX_VBUS_CURRENT < src_current (wired s)"
    and "mods_ptp_get_external_power_sources X s = s"
  shows "direction (commands (mods_ptp_ext_power_changed (switch_ptp_chg_type_ops E) X s)) = PTP_CURRENT_OFF \<and>
    source (report (mods_ptp_ext_power_changed (switch_ptp_chg_type_ops E) X s)) = PTP_POWER_SOURCE_NONE"
proof -
  let ?Q = "switch_ptp_chg_type_ops E"
  let ?s1 = "mods_ptp_set_power_availability (mods_ptp_set_ext_power_presence s)"
  note g = switch_reach [OF assms(1,2)]
  have f: "\<not> ext_first s" using g(5) by (simp add: ready_def)
  have c: "core ?s1 = core s" by simp
  have w: "wired ?s1 = wired s" "boost_fault ?s1 = boost_fault s"
    by (simp_all add: mods_ptp_set_power_availability_def mods_ptp_set_ext_power_presence_def notify_def Let_def)
  have "mods_ptp_base_source_changed ?s1"
    using assms(4,5) g(4) core_eqD [OF c] w(1)
    by (simp add: mods_ptp_base_source_changed_def Let_def mods_ptp_ext_src_changed_def in_limits_def)
  then have "mods_ptp_ext_power_changed ?Q X s =
      snd (mods_ptp_process ?Q X (?s1\<lparr>commands := (commands ?s1)\<lparr>direction := PTP_CURRENT_OFF\<rparr>\<rparr>))"
    using f assms(6) by (simp add: mods_ptp_ext_power_changed_def Let_def)
  moreover have "\<not> boost_fault s" using g(3) assms(4) by (simp add: sanctioned_def)
  ultimately show ?thesis
    using assms(3) core_eqD [OF c] w
    by (simp add: process_commands) (simp add: mods_ptp_process_def charge_battery_ext_source)
qed

theorem strong_source_is_dropped_witness:
  "source (report (mods_ptp_ext_power_changed (switch_ptp_chg_type_ops sample_chip) sample_sources (sample_sending 4000))) =
     PTP_POWER_SOURCE_NONE"
proof -
  have "attached (sample_sending 4000) = BASE_ATTACHED" "source (report (sample_sending 4000)) = PTP_POWER_SOURCE_WIRED"
    "CONFIG_GREYBUS_MODS_MAX_VBUS_CURRENT < src_current (wired (sample_sending 4000))"
    "mods_ptp_get_external_power_sources sample_sources (sample_sending 4000) = sample_sending 4000"
    unfolding sample_sending_def sample_ptp_def
    by (simp_all add: Let_def sample_defs ptp_eval config_simps cong: eval_cong)
  from strong_source_is_dropped [OF sample_chip_ok sample_sending_reach this] show ?thesis by simp
qed

end
