(* ===== verification/Bq25896Props.thy ===== *)
theory Bq25896Props
  imports Bq25896 PtpProps
begin

text \<open>
  The charger chip: the limits in its registers, its registers as the chip of the power transfer
  protocol, and where the driver does not do what it means to.
\<close>

section \<open>Registers on a working bus\<close>

definition good_bus :: "bq_env \<Rightarrow> bool" where
  "good_bus E \<longleftrightarrow> (\<forall>n. call_ret E n = 0)"

text \<open>A register with the masked bits replaced.\<close>

definition blend :: "u8 \<Rightarrow> u8 \<Rightarrow> u8 \<Rightarrow> u8" where
  "blend old msk val = (old AND NOT msk) OR (val AND msk)"

lemma blend_field [simp]: "blend old msk val AND msk = val AND msk"
  unfolding blend_def by (rule bit_word_eqI) (auto simp: bit_simps)

lemma blend_other: "msk AND m = 0 \<Longrightarrow> blend old msk val AND m = old AND m"
  unfolding blend_def by (rule bit_word_eqI) (auto simp: bit_simps bit_eq_iff)

lemma next_call_good [simp]: "good_bus E \<Longrightarrow> next_call E s = (0, s\<lparr>calls := Suc (calls s)\<rparr>)"
  by (simp add: next_call_def good_bus_def)

lemma reg_modify_good:
  assumes "good_bus E" "reg \<noteq> 0x0C"
  shows "reg_modify E reg msk val s =
    (0, s\<lparr>calls := Suc (Suc (calls s)), regs := (regs s)(reg := blend (regs s reg) msk val)\<rparr>)"
  using assms by (simp add: reg_modify_def reg_read_def reg_write_def blend_def)

lemma modify_good:
  assumes "good_bus E" "i2c_up s" "reg \<noteq> 0x0C"
  shows "bq25896_reg_modify E reg msk val s =
    (0, s\<lparr>calls := Suc (Suc (Suc (calls s))), regs := (regs s)(reg := blend (regs s reg) msk val)\<rparr>)"
  using assms by (simp add: bq25896_reg_modify_def locked_def reg_modify_good)

section \<open>The limits in the registers\<close>

text \<open>The input current, input voltage, charge current and charge voltage (mA, mV) that the fields stand for.\<close>

definition ilim :: "bq25896 \<Rightarrow> int" where "ilim s = 100 + 50 * uint (regs s 0x00 AND 63)"

definition vindpm :: "bq25896 \<Rightarrow> int" where "vindpm s = 2600 + 100 * uint (regs s 0x0D AND 127)"

definition ichg :: "bq25896 \<Rightarrow> int" where "ichg s = 64 * uint (regs s 0x04 AND 127)"

definition vreg :: "bq25896 \<Rightarrow> int" where "vreg s = 3840 + 16 * uint (drop_bit 2 (regs s 0x06 AND push_bit 2 63))"

lemma field_value:
  fixes v :: int
  shows "0 \<le> v \<Longrightarrow> v < 64 \<Longrightarrow> uint (word_of_int v AND (63 :: u8)) = v"
    and "0 \<le> v \<Longrightarrow> v < 128 \<Longrightarrow> uint (word_of_int v AND (127 :: u8)) = v"
    and "0 \<le> v \<Longrightarrow> v < 128 \<Longrightarrow> uint ((128 OR word_of_int v) AND (127 :: u8)) = v"
    and "0 \<le> v \<Longrightarrow> v < 64 \<Longrightarrow> uint (drop_bit 2 (push_bit 2 (word_of_int v) AND push_bit 2 (63 :: u8))) = v"
proof -
  have m: "(63 :: u8) = mask 6" "(127 :: u8) = mask 7" by (simp_all add: mask_eq_exp_minus_1)
  have w: "uint (word_of_int v :: u8) = v" if "0 \<le> v" "v < 128" for v
    using that by (simp add: word_of_int_inverse uint_word_of_int)
  show "0 \<le> v \<Longrightarrow> v < 64 \<Longrightarrow> uint (word_of_int v AND (63 :: u8)) = v"
    by (simp add: m take_bit_eq_mask [symmetric] unsigned_take_bit_eq w take_bit_int_eq_self)
  show 1: "0 \<le> v \<Longrightarrow> v < 128 \<Longrightarrow> uint (word_of_int v AND (127 :: u8)) = v"
    by (simp add: m take_bit_eq_mask [symmetric] unsigned_take_bit_eq w take_bit_int_eq_self)
  have "(128 OR x) AND (127 :: u8) = x AND 127" for x
    by (simp add: bit.conj_disj_distrib2)
  then show "0 \<le> v \<Longrightarrow> v < 128 \<Longrightarrow> uint ((128 OR word_of_int v) AND (127 :: u8)) = v"
    using 1 by simp
  have "drop_bit 2 (push_bit 2 x AND push_bit 2 (63 :: u8)) = x AND 63" for x :: u8
    by (rule bit_word_eqI) (auto simp: bit_simps m)
  then show "0 \<le> v \<Longrightarrow> v < 64 \<Longrightarrow> uint (drop_bit 2 (push_bit 2 (word_of_int v) AND push_bit 2 (63 :: u8))) = v"
    by (simp add: m take_bit_eq_mask [symmetric] unsigned_take_bit_eq w take_bit_int_eq_self)
qed

lemmas field_defs = ilim_def vindpm_def ichg_def vreg_def

text \<open>What one limit does: nothing outside its register and, inside, the closest setting on the safe side.\<close>

lemma set_input_current:
  fixes l :: int
  assumes "good_bus E" "i2c_up s"
  defines "s' \<equiv> snd (set_bq25896_input_current_limit E l s)"
  obtains v n where "s' = s\<lparr>calls := n, regs := (regs s)(0x00 := v)\<rparr>"
    "l < 100 \<longrightarrow> v = regs s 0x00" "100 \<le> l \<longrightarrow> ilim s' \<le> l \<and> min l 3250 < ilim s' + 50"
proof (cases "l < 100")
  case True
  then show thesis using that [of "regs s 0x00" "calls s"] by (simp add: s'_def set_bq25896_input_current_limit_def)
next
  case False
  define k where "k = (min l 3250 - 100) div 50"
  have k: "0 \<le> k" "k < 64" "100 + 50 * k \<le> min l 3250" "min l 3250 < 150 + 50 * k" using False by (auto simp: k_def)
  have e: "s' = s\<lparr>calls := Suc (Suc (Suc (calls s))), regs := (regs s)(0x00 := blend (regs s 0x00) 63 (word_of_int k))\<rparr>"
    using False assms(1,2) by (simp add: s'_def set_bq25896_input_current_limit_def modify_good k_def)
  then have "ilim s' = 100 + 50 * k" using k by (simp add: ilim_def field_value)
  then show thesis using that [OF e] k False by simp
qed

lemma set_input_voltage:
  fixes l :: int
  assumes "good_bus E" "i2c_up s"
  defines "s' \<equiv> snd (set_bq25896_input_voltage_limit E l s)"
  obtains v n where "s' = s\<lparr>calls := n, regs := (regs s)(0x0D := v)\<rparr>"
    "15300 < l \<longrightarrow> v = regs s 0x0D" "l \<le> 15300 \<longrightarrow> max l 3900 \<le> vindpm s' \<and> vindpm s' < max l 3900 + 100"
proof (cases "15300 < l")
  case True
  then show thesis using that [of "regs s 0x0D" "calls s"] by (simp add: s'_def set_bq25896_input_voltage_limit_def)
next
  case False
  define d where "d = max l 3900 - 2600"
  define k where "k = d div 100 + (if d mod 100 \<noteq> 0 then 1 else 0)"
  have m: "(if l \<le> 3900 then 3900 else l) = max l 3900" by simp
  have d: "1300 \<le> d" "d \<le> 12700" using False by (auto simp: d_def)
  define q r where "q = d div 100" and "r = d mod 100"
  have "d = 100 * q + r" "0 \<le> r" "r < 100" "k = q + (if r \<noteq> 0 then 1 else 0)" by (simp_all add: q_def r_def k_def)
  with d have k: "0 \<le> k" "k < 128" "d \<le> 100 * k" "100 * k < d + 100" by (auto split: if_splits)
  have e: "s' = s\<lparr>calls := Suc (Suc (Suc (calls s))),
      regs := (regs s)(0x0D := blend (regs s 0x0D) (128 OR 127) (128 OR word_of_int k))\<rparr>"
    unfolding s'_def set_bq25896_input_voltage_limit_def m Let_def d_def [symmetric] k_def [symmetric]
    using False assms(1,2) by (simp add: modify_good)
  have "(128 OR 127 :: u8) = - 1" by code_simp
  then have "blend r (128 OR 127) w = w" for r w :: u8 unfolding blend_def by (simp only:) simp
  then have "vindpm s' = 2600 + 100 * k" using k by (simp add: e vindpm_def field_value)
  then have "max l 3900 \<le> vindpm s'" "vindpm s' < max l 3900 + 100" using k(3,4) unfolding d_def by linarith+
  then show thesis using that [OF e] False by blast
qed

lemma set_charge_current:
  fixes l :: int
  assumes "good_bus E" "i2c_up s"
  defines "s' \<equiv> snd (set_bq25896_charge_current_limit E l s)"
  obtains v n where "s' = s\<lparr>calls := n, regs := (regs s)(0x04 := v)\<rparr>"
    "l < 0 \<longrightarrow> v = regs s 0x04" "0 \<le> l \<longrightarrow> ichg s' \<le> l \<and> min l 3008 < ichg s' + 64"
proof (cases "l < 0")
  case True
  then show thesis using that [of "regs s 0x04" "calls s"] by (simp add: s'_def set_bq25896_charge_current_limit_def)
next
  case False
  define k where "k = min l 3008 div 64"
  have k: "0 \<le> k" "k < 128" "64 * k \<le> min l 3008" "min l 3008 < 64 + 64 * k" using False by (auto simp: k_def)
  have e: "s' = s\<lparr>calls := Suc (Suc (Suc (calls s))), regs := (regs s)(0x04 := blend (regs s 0x04) 127 (word_of_int k))\<rparr>"
    using False assms(1,2) by (simp add: s'_def set_bq25896_charge_current_limit_def modify_good k_def)
  then have "ichg s' = 64 * k" using k by (simp add: ichg_def field_value)
  then show thesis using that [OF e] k False by simp
qed

lemma set_charge_voltage:
  fixes l :: int
  assumes "good_bus E" "i2c_up s"
  defines "s' \<equiv> snd (set_bq25896_charge_voltage_limit E l s)"
  obtains v n where "s' = s\<lparr>calls := n, regs := (regs s)(0x06 := v)\<rparr>"
    "l < 3840 \<longrightarrow> v = regs s 0x06" "3840 \<le> l \<longrightarrow> vreg s' \<le> l \<and> min l 4608 < vreg s' + 16"
proof (cases "l < 3840")
  case True
  then show thesis using that [of "regs s 0x06" "calls s"] by (simp add: s'_def set_bq25896_charge_voltage_limit_def)
next
  case False
  define k where "k = (min l 4608 - 3840) div 16"
  have k: "0 \<le> k" "k < 64" "3840 + 16 * k \<le> min l 4608" "min l 4608 < 3856 + 16 * k" using False by (auto simp: k_def)
  have e: "s' = s\<lparr>calls := Suc (Suc (Suc (calls s))),
      regs := (regs s)(0x06 := blend (regs s 0x06) (push_bit 2 63) (push_bit 2 (word_of_int k)))\<rparr>"
    using False assms(1,2) by (simp add: s'_def set_bq25896_charge_voltage_limit_def modify_good k_def)
  have f: "regs s' 0x06 = blend (regs s 0x06) (push_bit 2 63) (push_bit 2 (word_of_int k))"
    unfolding e by (simp del: push_bit_numeral push_bit_Suc)
  have "vreg s' = 3840 + 16 * uint (drop_bit 2 (push_bit 2 (word_of_int k) AND push_bit 2 (63 :: u8)))"
    unfolding vreg_def f by (simp only: blend_field)
  then have "vreg s' = 3840 + 16 * k" using k by (simp only: field_value)
  then show thesis using that [OF e] k False by simp
qed

text \<open>
  All four limits. A limit the chip cannot represent is skipped. Any other is rounded to the side
  that protects the source and the battery, by less than a step.
\<close>

definition limits_set :: "charger_config \<Rightarrow> bq25896 \<Rightarrow> bq25896 \<Rightarrow> bool" where
  "limits_set cfg s s' \<longleftrightarrow>
     (if input_current_limit cfg < 100 then ilim s' = ilim s
      else ilim s' \<le> input_current_limit cfg \<and> min (input_current_limit cfg) 3250 < ilim s' + 50) \<and>
     (if 15300 < input_voltage_limit cfg then vindpm s' = vindpm s
      else max (input_voltage_limit cfg) 3900 \<le> vindpm s' \<and> vindpm s' < max (input_voltage_limit cfg) 3900 + 100) \<and>
     (if charge_current_limit cfg < 0 then ichg s' = ichg s
      else ichg s' \<le> charge_current_limit cfg \<and> min (charge_current_limit cfg) 3008 < ichg s' + 64) \<and>
     (if charge_voltage_limit cfg < 3840 then vreg s' = vreg s
      else vreg s' \<le> charge_voltage_limit cfg \<and> min (charge_voltage_limit cfg) 4608 < vreg s' + 16)"

lemma field_cong:
  "regs s 0x00 = regs s' 0x00 \<Longrightarrow> ilim s = ilim s'" "regs s 0x0D = regs s' 0x0D \<Longrightarrow> vindpm s = vindpm s'"
  "regs s 0x04 = regs s' 0x04 \<Longrightarrow> ichg s = ichg s'" "regs s 0x06 = regs s' 0x06 \<Longrightarrow> vreg s = vreg s'"
  by (simp_all add: field_defs)

lemma set_limits_good:
  assumes b: "good_bus E" and u: "i2c_up s"
  obtains n v0 vd v4 v6
  where "set_bq25896_limits E cfg s = s\<lparr>calls := n, regs := (regs s)(0x00 := v0, 0x0D := vd, 0x04 := v4, 0x06 := v6)\<rparr>"
    "limits_set cfg s (set_bq25896_limits E cfg s)"
proof -
  define s1 where "s1 = snd (set_bq25896_input_current_limit E (input_current_limit cfg) s)"
  define s2 where "s2 = snd (set_bq25896_input_voltage_limit E (input_voltage_limit cfg) s1)"
  define s3 where "s3 = snd (set_bq25896_charge_current_limit E (charge_current_limit cfg) s2)"
  define s4 where "s4 = snd (set_bq25896_charge_voltage_limit E (charge_voltage_limit cfg) s3)"
  obtain v0 n0 where 1: "s1 = s\<lparr>calls := n0, regs := (regs s)(0x00 := v0)\<rparr>" "input_current_limit cfg < 100 \<longrightarrow> v0 = regs s 0x00"
    "100 \<le> input_current_limit cfg \<longrightarrow> ilim s1 \<le> input_current_limit cfg \<and> min (input_current_limit cfg) 3250 < ilim s1 + 50"
    using set_input_current [OF b u, of "input_current_limit cfg"] unfolding s1_def by blast
  have u1: "i2c_up s1" using u 1(1) by simp
  obtain vd n1 where 2: "s2 = s1\<lparr>calls := n1, regs := (regs s1)(0x0D := vd)\<rparr>" "15300 < input_voltage_limit cfg \<longrightarrow> vd = regs s1 0x0D"
    "input_voltage_limit cfg \<le> 15300 \<longrightarrow> max (input_voltage_limit cfg) 3900 \<le> vindpm s2 \<and>
       vindpm s2 < max (input_voltage_limit cfg) 3900 + 100"
    using set_input_voltage [OF b u1, of "input_voltage_limit cfg"] unfolding s2_def by blast
  have u2: "i2c_up s2" using u1 2(1) by simp
  obtain v4 n2 where 3: "s3 = s2\<lparr>calls := n2, regs := (regs s2)(0x04 := v4)\<rparr>" "charge_current_limit cfg < 0 \<longrightarrow> v4 = regs s2 0x04"
    "0 \<le> charge_current_limit cfg \<longrightarrow> ichg s3 \<le> charge_current_limit cfg \<and> min (charge_current_limit cfg) 3008 < ichg s3 + 64"
    using set_charge_current [OF b u2, of "charge_current_limit cfg"] unfolding s3_def by blast
  have u3: "i2c_up s3" using u2 3(1) by simp
  obtain v6 n3 where 4: "s4 = s3\<lparr>calls := n3, regs := (regs s3)(0x06 := v6)\<rparr>" "charge_voltage_limit cfg < 3840 \<longrightarrow> v6 = regs s3 0x06"
    "3840 \<le> charge_voltage_limit cfg \<longrightarrow> vreg s4 \<le> charge_voltage_limit cfg \<and> min (charge_voltage_limit cfg) 4608 < vreg s4 + 16"
    using set_charge_voltage [OF b u3, of "charge_voltage_limit cfg"] unfolding s4_def by blast
  have e: "set_bq25896_limits E cfg s = s4" by (simp add: set_bq25896_limits_def s1_def s2_def s3_def s4_def)
  have f: "ilim s4 = ilim s1" "vindpm s4 = vindpm s2" "ichg s4 = ichg s3"
    using 2(1) 3(1) 4(1) by (simp_all add: field_defs)
  have g: "input_current_limit cfg < 100 \<Longrightarrow> ilim s1 = ilim s" "15300 < input_voltage_limit cfg \<Longrightarrow> vindpm s2 = vindpm s"
    "charge_current_limit cfg < 0 \<Longrightarrow> ichg s3 = ichg s" "charge_voltage_limit cfg < 3840 \<Longrightarrow> vreg s4 = vreg s"
    using 1(1,2) 2(1,2) 3(1,2) 4(1,2) by (auto intro!: field_cong)
  have "limits_set cfg s s4"
    using 1(3) 2(3) 3(3) 4(3) g unfolding limits_set_def f by auto
  moreover have "s4 = s\<lparr>calls := n3, regs := (regs s)(0x00 := v0, 0x0D := vd, 0x04 := v4, 0x06 := v6)\<rparr>"
    using 1(1) 2(1) 3(1) 4(1) by simp
  ultimately show thesis using that e by simp
qed

lemma limits_set_good:
  assumes "good_bus E" "i2c_up s"
  shows "limits_set cfg s (set_bq25896_limits E cfg s)"
proof (rule set_limits_good [OF assms])
  show "limits_set cfg s (set_bq25896_limits E cfg s)" if "limits_set cfg s (set_bq25896_limits E cfg s)" by (rule that)
qed

section \<open>The mode in the registers\<close>

text \<open>The configuration field of \<^verbatim>\<open>REG03\<close>, with the settings the driver keeps beside it.\<close>

definition hw_mode :: "bq25896 \<Rightarrow> ic_mode" where
  "hw_mode s = (if regs s 0x03 AND 0x30 = 0x10 then Ic_receive (settings_cfg s)
                else if regs s 0x03 AND 0x30 = 0 then Ic_off else Ic_send)"

definition mode_field :: "bq25896_chg \<Rightarrow> u8" where
  "mode_field c = (case c of BQ25896_CHG_OFF \<Rightarrow> 0x00 | BQ25896_CHG_BATTERY \<Rightarrow> 0x10 | BQ25896_OTG \<Rightarrow> 0x20)"

text \<open>A charging chip respects the limits of its configuration, as far as it can represent them.\<close>

definition limits_hold :: "charger_config \<Rightarrow> bq25896 \<Rightarrow> bool" where
  "limits_hold cfg s \<longleftrightarrow>
     (100 \<le> input_current_limit cfg \<longrightarrow> ilim s \<le> input_current_limit cfg) \<and>
     (input_voltage_limit cfg \<le> 15300 \<longrightarrow> input_voltage_limit cfg \<le> vindpm s) \<and>
     (0 \<le> charge_current_limit cfg \<longrightarrow> ichg s \<le> charge_current_limit cfg) \<and>
     (3840 \<le> charge_voltage_limit cfg \<longrightarrow> vreg s \<le> charge_voltage_limit cfg)"

lemma limits_set_hold: "limits_set cfg s s' \<Longrightarrow> limits_hold cfg s'"
  by (auto simp: limits_set_def limits_hold_def split: if_splits)

text \<open>Initial data that leaves the mode and the limits alone.\<close>

definition init_safe :: "bq25896_reg list \<Rightarrow> bool" where
  "init_safe = list_all (\<lambda>(reg, msk, _). reg \<notin> {0x00, 0x04, 0x0C, 0x0D} \<and> (reg = 0x03 \<longrightarrow> msk AND 0x30 = 0) \<and>
     (reg = 0x06 \<longrightarrow> msk AND push_bit 2 63 = 0))"

text \<open>A driver in use: the bus is up, the initial data safe and every registered callback its own.\<close>

definition chip_base :: "bq25896 \<Rightarrow> bool" where
  "chip_base s \<longleftrightarrow> i2c_up s \<and> init_safe (bq_init_data s) \<and> (\<exists>i. info s = Some i \<and> set (notify_list s) \<subseteq> {i})"

text \<open>The registers agree with the settings of the driver.\<close>

definition chip_sync :: "bq25896 \<Rightarrow> bool" where
  "chip_sync s \<longleftrightarrow> regs s 0x03 AND 0x30 = mode_field (settings_chg s) \<and>
     (settings_chg s = BQ25896_CHG_BATTERY \<longrightarrow> (\<forall>cfg. settings_cfg s = Some cfg \<longrightarrow> limits_hold cfg s))"

definition chip_inv :: "bq25896 \<Rightarrow> bool" where
  "chip_inv s \<longleftrightarrow> chip_base s \<and> chip_sync s"

lemma limits_hold_regs: "limits_hold cfg s \<Longrightarrow> regs s 0x00 = regs s' 0x00 \<Longrightarrow> regs s 0x0D = regs s' 0x0D \<Longrightarrow>
    regs s 0x04 = regs s' 0x04 \<Longrightarrow> regs s 0x06 AND push_bit 2 63 = regs s' 0x06 AND push_bit 2 63 \<Longrightarrow> limits_hold cfg s'"
  unfolding limits_hold_def field_defs by (simp only:)

lemma sync_mode: "chip_sync s \<Longrightarrow> hw_mode s = (case settings_chg s of BQ25896_CHG_OFF \<Rightarrow> Ic_off
    | BQ25896_CHG_BATTERY \<Rightarrow> Ic_receive (settings_cfg s) | BQ25896_OTG \<Rightarrow> Ic_send)"
  by (simp add: chip_sync_def hw_mode_def mode_field_def split: bq25896_chg.splits)

lemma ce_pin_simps [simp]:
  "regs (set_bq25896_ce_pin b s) = regs s" "i2c_up (set_bq25896_ce_pin b s) = i2c_up s"
  "settings_chg (set_bq25896_ce_pin b s) = settings_chg s" "settings_cfg (set_bq25896_ce_pin b s) = settings_cfg s"
  "bq_init_data (set_bq25896_ce_pin b s) = bq_init_data s" "info (set_bq25896_ce_pin b s) = info s"
  "notify_list (set_bq25896_ce_pin b s) = notify_list s"
  by (simp_all add: set_bq25896_ce_pin_def)

lemma mode_field_and [simp]: "mode_field c AND 0x30 = mode_field c"
  by (simp add: mode_field_def split: bq25896_chg.split)

text \<open>What the functions of the charger leave alone.\<close>

lemma set_chg_good:
  assumes "good_bus E" "i2c_up s"
  obtains n r where "snd (set_bq25896_chg E c s) =
    (set_bq25896_ce_pin (c = BQ25896_CHG_BATTERY) s)
      \<lparr>calls := n, regs := (regs s)(0x0A := r, 0x03 := blend (regs s 0x03) 0x30 (mode_field c))\<rparr>"
proof -
  let ?p = "set_bq25896_ce_pin (c = BQ25896_CHG_BATTERY) s"
  have "snd (set_bq25896_chg E c s) =
    ?p\<lparr>calls := (if c = BQ25896_OTG then 6 else 3) + calls ?p,
       regs := (regs s)(0x0A := (if c = BQ25896_OTG then blend (regs s 0x0A) 7 0 else regs s 0x0A),
                        0x03 := blend (regs s 0x03) 0x30 (mode_field c))\<rparr>"
    using assms by (cases c) (auto simp: set_bq25896_chg_def Let_def modify_good boost_lim_def boost_current_def mode_field_def)
  then show thesis by (rule that)
qed

lemma configure_good:
  assumes "good_bus E" "init_safe cfg"
  obtains n r where "configure_device E cfg s = (0, s\<lparr>calls := n, regs := r\<rparr>)"
    "r 0x00 = regs s 0x00" "r 0x0D = regs s 0x0D" "r 0x04 = regs s 0x04"
    "r 0x03 AND 0x30 = regs s 0x03 AND 0x30" "r 0x06 AND push_bit 2 63 = regs s 0x06 AND push_bit 2 63"
proof -
  have "\<exists>n r. configure_device E cfg s = (0, s\<lparr>calls := n, regs := r\<rparr>) \<and>
    r 0x00 = regs s 0x00 \<and> r 0x0D = regs s 0x0D \<and> r 0x04 = regs s 0x04 \<and>
    r 0x03 AND 0x30 = regs s 0x03 AND 0x30 \<and> r 0x06 AND push_bit 2 63 = regs s 0x06 AND push_bit 2 63"
    using assms(2)
  proof (induction cfg arbitrary: s)
    case Nil
    then show ?case by (auto intro!: exI [of _ "calls s"] exI [of _ "regs s"])
  next
    case (Cons x cfg)
    obtain reg msk val where x: "x = (reg, msk, val)" by (cases x)
    let ?s = "s\<lparr>calls := Suc (Suc (calls s)), regs := (regs s)(reg := blend (regs s reg) msk val)\<rparr>"
    have i: "reg \<notin> {0x00, 0x04, 0x0C, 0x0D}" "reg = 0x03 \<Longrightarrow> msk AND 0x30 = 0"
      "reg = 0x06 \<Longrightarrow> msk AND push_bit 2 63 = 0" "init_safe cfg"
      using Cons.prems by (simp_all add: init_safe_def x)
    have e: "configure_device E (x # cfg) s = configure_device E cfg ?s"
      using assms(1) i(1) by (simp add: x reg_modify_good)
    have "regs ?s 0x03 AND 0x30 = regs s 0x03 AND 0x30" "regs ?s 0x06 AND push_bit 2 63 = regs s 0x06 AND push_bit 2 63"
      using i(2,3) by (simp_all add: blend_other)
    then show ?case using Cons.IH [OF i(4), of ?s] i(1) unfolding e by auto
  qed
  then show thesis using that by blast
qed

definition frame :: "bq25896 \<Rightarrow> bool \<times> bq25896_reg list \<times> nat option \<times> nat list" where
  "frame s = (i2c_up s, bq_init_data s, info s, notify_list s)"

lemma frame_base: "frame s' = frame s \<Longrightarrow> chip_base s' = chip_base s"
  by (simp add: frame_def chip_base_def)

text \<open>Programming a mode brings the registers into agreement, whatever they were.\<close>

lemma set_chg_sync:
  assumes "good_bus E" "i2c_up s" "settings_chg s = c"
    "c = BQ25896_CHG_BATTERY \<Longrightarrow> \<forall>cfg. settings_cfg s = Some cfg \<longrightarrow> limits_hold cfg s"
  defines "s' \<equiv> snd (set_bq25896_chg E c s)"
  shows "chip_sync s'" "frame s' = frame s" "settings_chg s' = c" "settings_cfg s' = settings_cfg s"
proof -
  obtain n r where e: "s' = (set_bq25896_ce_pin (c = BQ25896_CHG_BATTERY) s)
      \<lparr>calls := n, regs := (regs s)(0x0A := r, 0x03 := blend (regs s 0x03) 0x30 (mode_field c))\<rparr>"
    unfolding s'_def by (rule set_chg_good [OF assms(1,2)])
  show "frame s' = frame s" by (simp add: frame_def e)
  show "settings_chg s' = c" "settings_cfg s' = settings_cfg s" using assms(3) by (simp_all add: e)
  moreover have "limits_hold cfg s'" if "limits_hold cfg s" for cfg
    using that by (rule limits_hold_regs) (simp_all add: e)
  moreover have "regs s' 0x03 AND 0x30 = mode_field c" by (simp add: e)
  ultimately show "chip_sync s'" using assms(4) by (simp add: chip_sync_def)
qed

lemma set_limits_keep:
  fixes cfg :: charger_config
  assumes "good_bus E" "i2c_up s"
  defines "s' \<equiv> set_bq25896_limits E cfg s"
  shows "frame s' = frame s" "settings_chg s' = settings_chg s" "settings_cfg s' = settings_cfg s" "i2c_up s'"
    "limits_hold cfg s'"
proof -
  obtain n v0 vd v4 v6 where e: "s' = s\<lparr>calls := n, regs := (regs s)(0x00 := v0, 0x0D := vd, 0x04 := v4, 0x06 := v6)\<rparr>"
    and l: "limits_set cfg s s'"
    unfolding s'_def by (rule set_limits_good [OF assms(1,2)])
  show "frame s' = frame s" by (simp add: frame_def e)
  show "settings_chg s' = settings_chg s" "settings_cfg s' = settings_cfg s" "i2c_up s'" using assms(2) by (simp_all add: e)
  show "limits_hold cfg s'" using l by (rule limits_set_hold)
qed

lemma config_good:
  assumes b: "good_bus E" and s: "chip_base s" and c: "c = BQ25896_CHG_BATTERY \<longrightarrow> cfg \<noteq> None"
  defines "s' \<equiv> config_bq25896 E c cfg s"
  shows "frame s' = frame s" "chip_sync s'" "settings_chg s' = c"
    "settings_cfg s' = (case cfg of None \<Rightarrow> settings_cfg s | Some f \<Rightarrow> f)"
proof -
  define s1 where "s1 = (case cfg of None \<Rightarrow> s | Some f \<Rightarrow> set_bq25896_limits E (written E f) (s\<lparr>settings_cfg := f\<rparr>))"
  define s2 where "s2 = snd (set_bq25896_chg E c (s1\<lparr>settings_chg := c\<rparr>))"
  have u: "i2c_up s" using s by (simp add: chip_base_def)
  have k: "frame (s\<lparr>settings_cfg := f\<rparr>) = frame s" for f by (simp add: frame_def)
  have 1: "frame s1 = frame s" "settings_cfg s1 = (case cfg of None \<Rightarrow> settings_cfg s | Some f \<Rightarrow> f)" "i2c_up s1"
    using s u k set_limits_keep [OF b] by (simp_all add: s1_def split: option.split)
  have "\<forall>f. settings_cfg s1 = Some f \<longrightarrow> limits_hold f s1" if "cfg \<noteq> None"
    using that u set_limits_keep [OF b] by (auto simp: s1_def written_def)
  then have l: "\<forall>f. settings_cfg (s1\<lparr>settings_chg := c\<rparr>) = Some f \<longrightarrow> limits_hold f (s1\<lparr>settings_chg := c\<rparr>)"
    if "c = BQ25896_CHG_BATTERY"
    using c that limits_hold_regs [of _ s1 "s1\<lparr>settings_chg := c\<rparr>"] by simp
  have 2: "chip_sync s2" "frame s2 = frame (s1\<lparr>settings_chg := c\<rparr>)" "settings_chg s2 = c"
    "settings_cfg s2 = settings_cfg s1"
    using set_chg_sync [OF b, of "s1\<lparr>settings_chg := c\<rparr>" c] 1(3) l by (simp_all add: s2_def)
  have e: "s' = s2\<lparr>status_charging := (c = BQ25896_CHG_BATTERY)\<rparr>"
    by (simp add: s'_def config_bq25896_def s1_def s2_def Let_def)
  show "frame s' = frame s" using 1(1) 2(2) by (simp add: e frame_def)
  show "chip_sync s'" using 2(1) limits_hold_regs [of _ s2 s'] by (simp add: e chip_sync_def)
  show "settings_chg s' = c" "settings_cfg s' = (case cfg of None \<Rightarrow> settings_cfg s | Some f \<Rightarrow> f)"
    using 2(3,4) 1(2) by (simp_all add: e)
qed

lemma configure_keeps:
  assumes b: "good_bus E" and s: "chip_base s"
  defines "s' \<equiv> snd (bq25896_configure E (bq_init_data s) s)"
  shows "frame s' = frame s" "chip_sync s \<Longrightarrow> chip_sync s'" "settings_chg s' = settings_chg s" "settings_cfg s' = settings_cfg s"
proof -
  have u: "i2c_up s" "init_safe (bq_init_data s)" using s by (simp_all add: chip_base_def)
  let ?s = "s\<lparr>calls := Suc (calls s)\<rparr>"
  obtain n r where c: "configure_device E (bq_init_data s) ?s = (0, ?s\<lparr>calls := n, regs := r\<rparr>)"
    and r: "r 0x00 = regs ?s 0x00" "r 0x0D = regs ?s 0x0D" "r 0x04 = regs ?s 0x04"
    "r 0x03 AND 0x30 = regs ?s 0x03 AND 0x30" "r 0x06 AND push_bit 2 63 = regs ?s 0x06 AND push_bit 2 63"
    by (rule configure_good [OF b u(2)])
  have e: "s' = s\<lparr>calls := n, regs := r\<rparr>" using b u(1) c by (simp add: s'_def bq25896_configure_def locked_def)
  show "frame s' = frame s" by (simp add: e frame_def)
  show "settings_chg s' = settings_chg s" "settings_cfg s' = settings_cfg s" by (simp_all add: e)
  have "limits_hold cfg s'" if "limits_hold cfg s" for cfg
    using that by (rule limits_hold_regs) (use r in \<open>simp_all add: e\<close>)
  moreover have "regs s' 0x03 AND 0x30 = regs s 0x03 AND 0x30" "settings_chg s' = settings_chg s" "settings_cfg s' = settings_cfg s"
    using r(4) by (simp_all add: e)
  ultimately show "chip_sync s \<Longrightarrow> chip_sync s'" by (simp add: chip_sync_def)
qed

text \<open>Power came back: the registers agree with the settings again, except in boost mode.\<close>

lemma pwr_good_sync:
  assumes b: "good_bus E" and q: "chg_sem_ok E" and s: "chip_base s"
  defines "s' \<equiv> bq25896_pwr_good E s"
  shows "frame s' = frame s" "settings_chg s \<noteq> BQ25896_OTG \<or> chip_sync s \<Longrightarrow> chip_sync s'"
    "settings_chg s' = settings_chg s" "settings_cfg s' = settings_cfg s"
proof -
  define s1 where "s1 = snd (bq25896_configure E (bq_init_data s) s)"
  note 1 = configure_keeps [OF b s, folded s1_def]
  have u: "i2c_up s1" using s 1(1) by (simp add: chip_base_def frame_def)
  define s2 where "s2 = set_bq25896_limits E (written E (settings_cfg s1)) s1"
  note 2 = set_limits_keep [OF b u, of "written E (settings_cfg s1)", folded s2_def]
  have l: "\<forall>cfg. settings_cfg s2 = Some cfg \<longrightarrow> limits_hold cfg s2" using 2(3,5) by (auto simp: written_def)
  have e: "s' = (case settings_chg s of BQ25896_CHG_OFF \<Rightarrow> snd (set_bq25896_chg E BQ25896_CHG_OFF s1)
      | BQ25896_CHG_BATTERY \<Rightarrow> snd (set_bq25896_chg E BQ25896_CHG_BATTERY s2) | BQ25896_OTG \<Rightarrow> s1)"
    using q 1(3) by (cases "settings_chg s") (simp_all add: s'_def bq25896_pwr_good_def s1_def [symmetric] s2_def Let_def)
  have r: "frame s' = frame s \<and> settings_chg s' = settings_chg s \<and> settings_cfg s' = settings_cfg s \<and>
    (settings_chg s \<noteq> BQ25896_OTG \<or> chip_sync s \<longrightarrow> chip_sync s')"
  proof (cases "settings_chg s")
    case BQ25896_CHG_OFF
    with 1 set_chg_sync [OF b u, of BQ25896_CHG_OFF] show ?thesis by (simp add: e)
  next
    case BQ25896_CHG_BATTERY
    with 1 2(1-3) set_chg_sync [OF b 2(4) _ l, of BQ25896_CHG_BATTERY] show ?thesis by (simp add: e)
  next
    case BQ25896_OTG
    with 1 show ?thesis by (simp add: e)
  qed
  then show "frame s' = frame s" "settings_chg s \<noteq> BQ25896_OTG \<or> chip_sync s \<Longrightarrow> chip_sync s'"
    "settings_chg s' = settings_chg s" "settings_cfg s' = settings_cfg s" by blast+
qed

text \<open>Events keep the invariant and the mode, and never run into a freed structure.\<close>

definition kept :: "bq25896 \<Rightarrow> bq25896 \<Rightarrow> bool" where
  "kept s s' \<longleftrightarrow> frame s' = frame s \<and> settings_chg s' = settings_chg s \<and> settings_cfg s' = settings_cfg s \<and>
     (chip_sync s \<longrightarrow> chip_sync s')"

lemma kept_trans: "kept s s1 \<Longrightarrow> kept s1 s2 \<Longrightarrow> kept s s2"
  by (simp add: kept_def)

lemma kept_inv: "kept s s' \<Longrightarrow> chip_inv s \<Longrightarrow> chip_inv s' \<and> hw_mode s' = hw_mode s"
  using frame_base [of s' s] by (simp add: kept_def chip_inv_def sync_mode split: bq25896_chg.split)

lemma kept_base: "kept s s' \<Longrightarrow> chip_base s \<Longrightarrow> chip_base s'"
  using frame_base [of s' s] by (simp add: kept_def)

text \<open>Changes the invariant does not see.\<close>

lemma kept_other:
  assumes "regs s' = (regs s)(0x0B := a, 0x0C := b)" "frame s' = frame s" "settings_chg s' = settings_chg s"
    "settings_cfg s' = settings_cfg s"
  shows "kept s s'"
  using assms limits_hold_regs [of _ s s'] by (auto simp: kept_def chip_sync_def)

lemma kept_same:
  assumes "regs s' = regs s" "frame s' = frame s" "settings_chg s' = settings_chg s" "settings_cfg s' = settings_cfg s"
  shows "kept s s'"
  using assms by (intro kept_other [of s' s "regs s 0x0B" "regs s 0x0C"]) auto

lemma read_kept:
  assumes "good_bus E"
  shows "kept s (snd (bq25896_reg_read E reg s))"
  using assms by (intro kept_same) (simp_all add: bq25896_reg_read_def locked_def reg_read_def frame_def)

lemma read_fault_kept: "good_bus E \<Longrightarrow> kept s (snd (read_fault_reg E s))"
  unfolding read_fault_reg_def by (rule kept_trans [OF read_kept read_kept])

lemma notify_kept:
  assumes "good_bus E" "chg_sem_ok E"
  shows "chip_base s \<Longrightarrow> info s = Some i \<Longrightarrow> set nodes \<subseteq> {i} \<Longrightarrow> \<exists>s'. notify_event E ev nodes s = Some s' \<and> kept s s'"
proof (induction nodes arbitrary: s)
  case Nil
  then show ?case by (simp add: kept_def)
next
  case (Cons a nodes)
  have "kept s (bq25896_boost_fault E s)"
    by (rule kept_same) (simp_all add: bq25896_boost_fault_def frame_def)
  moreover have "kept s (bq25896_pwr_good E s)"
    using pwr_good_sync [OF assms Cons.prems(1)] by (simp add: kept_def)
  moreover have "kept s s" by (simp add: kept_def)
  ultimately obtain s1 where s1: "bq25896_charger_callback E ev a s = Some s1" "kept s s1"
    using Cons.prems by (cases ev) (auto simp: bq25896_charger_callback_def)
  have "chip_base s1" "info s1 = Some i" using kept_base [OF s1(2)] s1(2) Cons.prems by (simp_all add: kept_def frame_def)
  then show ?case using Cons.IH [of s1] Cons.prems(3) s1 kept_trans [OF s1(2)] by auto
qed

lemma notify_list_kept:
  assumes "good_bus E" "chg_sem_ok E" "chip_base s"
  shows "\<exists>s'. notify_event E ev (notify_list s) s = Some s' \<and> kept s s'"
  using notify_kept [OF assms(1,2,3)] assms(3) by (auto simp: chip_base_def)

lemma event_kept:
  assumes b: "good_bus E" "chg_sem_ok E" and s: "chip_base s" and e: "chip_event E s t"
  shows "\<exists>s'. t = Some s' \<and> kept s s'"
proof -
  have k: "kept s (s\<lparr>int_work := x\<rparr>)" "kept s (s\<lparr>pg_work := x\<rparr>)" "kept s (s\<lparr>fault_work := x\<rparr>)" for s x
    by (rule kept_same; simp add: frame_def)+
  have nl: "\<exists>s''. notify_event E ev (notify_list s') s' = Some s'' \<and> kept s s''" if "kept s s'" for ev s'
    using notify_list_kept [OF b kept_base [OF that s]] kept_trans [OF that] by blast
  have rd: "kept s (snd (bq25896_reg_read E reg s'))" "kept s (snd (read_fault_reg E s'))" if "kept s s'" for s' reg
    using kept_trans [OF that] read_kept [OF b(1)] read_fault_kept [OF b(1)] by blast+
  from e show ?thesis
  proof cases
    case run_int
    define a where "a = read_fault_reg E (s\<lparr>int_work := False\<rparr>)"
    define b where "b = (if boost_fault_bit (fst a) \<and> \<not> fault_work (snd a) then (snd a)\<lparr>fault_work := True\<rparr> else snd a)"
    define c where "c = bq25896_reg_read E 0x0B b"
    have "kept s (snd a)" unfolding a_def by (rule rd(2) [OF k(1)])
    then have b: "kept s b" by (simp add: b_def kept_trans [OF _ k(3)])
    have c: "kept s (snd c)" unfolding c_def by (rule rd(1) [OF b])
    have "t = (if pg_n_connected b then Some b else if fst c < 0 then Some (snd c)
        else notify_event E (if fst c AND 0x04 \<noteq> 0 then POWER_GOOD else NO_POWER_GOOD) (notify_list (snd c)) (snd c))"
      by (simp only: run_int(1) int_worker_def a_def b_def c_def Let_def split_beta)
    then show ?thesis using b c nl [OF c] by (cases "pg_n_connected b"; cases "fst c < 0") (simp_all only: if_True if_False, blast+)
  next
    case run_pg
    show ?thesis unfolding run_pg(1) pg_worker_def by (rule nl [OF k(2)])
  next
    case (status_moves l v f)
    have "kept s (s\<lparr>regs := (regs s)(0x0B := v, 0x0C := f), fault_latch := l\<rparr>)"
      by (rule kept_other [of _ _ v f]) (simp_all add: frame_def)
    then show ?thesis using status_moves by simp
  next
    case run_fault
    have "kept s (snd (read_fault_reg E (s\<lparr>fault_work := False\<rparr>)))" by (rule rd(2) [OF k(3)])
    then show ?thesis unfolding run_fault(1) fault_worker_def by (simp add: split_beta nl)
  next
    case int_irq
    have "kept s (int_isr s)" by (rule kept_same) (simp_all add: int_isr_def frame_def)
    then show ?thesis using int_irq by blast
  next
    case pg_irq
    have "kept s (pg_isr s)" by (rule kept_same) (simp_all add: pg_isr_def frame_def)
    then show ?thesis using pg_irq by blast
  qed
qed

section \<open>The chip behind the switches\<close>

text \<open>The paths as before, and the mode in the registers of the chip, which is the one its user told it last.\<close>

definition hw_view :: "bq25896 switch_ptp_chg_info \<Rightarrow> bool \<times> bool \<times> bool \<times> ic_mode" where
  "hw_view s = (wireless_on s, wired_on s, base_on s, hw_mode (chg_world s))"

definition hw_ok :: "bq_env \<Rightarrow> bq25896 switch_ptp_chg_info \<Rightarrow> bool" where
  "hw_ok E s \<longleftrightarrow> good_bus E \<and> board_ok s \<and> chip_inv (chg_world s) \<and> ic s = hw_mode (chg_world s)"

lemma config_inv:
  assumes "good_bus E" "chip_base s" "c = BQ25896_CHG_BATTERY \<longrightarrow> cfg \<noteq> None"
  shows "chip_inv (config_bq25896 E c cfg s)"
    "hw_mode (config_bq25896 E c cfg s) = (case c of BQ25896_CHG_OFF \<Rightarrow> Ic_off
       | BQ25896_CHG_BATTERY \<Rightarrow> Ic_receive (case cfg of None \<Rightarrow> settings_cfg s | Some f \<Rightarrow> f) | BQ25896_OTG \<Rightarrow> Ic_send)"
proof -
  note k = config_good [OF assms]
  show "chip_inv (config_bq25896 E c cfg s)" using frame_base [OF k(1)] k(2) assms(2) by (simp add: chip_inv_def)
  show "hw_mode (config_bq25896 E c cfg s) = (case c of BQ25896_CHG_OFF \<Rightarrow> Ic_off
       | BQ25896_CHG_BATTERY \<Rightarrow> Ic_receive (case cfg of None \<Rightarrow> settings_cfg s | Some f \<Rightarrow> f) | BQ25896_OTG \<Rightarrow> Ic_send)"
    unfolding sync_mode [OF k(2)] k(3,4) ..
qed

lemma charger_fails:
  "fst (bq25896_charger_off E w) \<noteq> 0 \<Longrightarrow> snd (bq25896_charger_off E w) = w"
  "fst (bq25896_charger_receive E f w) \<noteq> 0 \<Longrightarrow> snd (bq25896_charger_receive E f w) = w"
  "fst (bq25896_charger_send E i w) \<noteq> 0 \<Longrightarrow> snd (snd (bq25896_charger_send E i w)) = w"
  by (auto simp: bq25896_charger_off_def bq25896_charger_receive_def bq25896_charger_send_def split: if_splits)

lemma charger_ops_hw:
  assumes "good_bus E" "chip_inv w"
  shows "chip_inv (snd (bq25896_charger_off E w))" "fst (bq25896_charger_off E w) = 0 \<Longrightarrow> hw_mode (snd (bq25896_charger_off E w)) = Ic_off"
    "chip_inv (snd (bq25896_charger_receive E f w))"
    "fst (bq25896_charger_receive E f w) = 0 \<Longrightarrow> hw_mode (snd (bq25896_charger_receive E f w)) = Ic_receive f"
    "chip_inv (snd (snd (bq25896_charger_send E i w)))"
    "fst (bq25896_charger_send E i w) = 0 \<Longrightarrow> hw_mode (snd (snd (bq25896_charger_send E i w))) = Ic_send"
proof -
  have w: "chip_base w" using assms(2) by (simp add: chip_inv_def)
  let ?c = "snd (bq25896_configure E (bq_init_data w) w)"
  have c: "chip_base ?c" using configure_keeps(1) [OF assms(1) w] frame_base w by blast
  have off: "chip_inv (config_bq25896 E BQ25896_CHG_OFF None w)" "hw_mode (config_bq25896 E BQ25896_CHG_OFF None w) = Ic_off"
    using config_inv [OF assms(1) w, of BQ25896_CHG_OFF None] by simp_all
  have rcv: "chip_inv (config_bq25896 E BQ25896_CHG_BATTERY (Some f) w)"
    "hw_mode (config_bq25896 E BQ25896_CHG_BATTERY (Some f) w) = Ic_receive f"
    using config_inv [OF assms(1) w, of BQ25896_CHG_BATTERY "Some f"] by simp_all
  have snd: "chip_inv (config_bq25896 E BQ25896_OTG None ?c)" "hw_mode (config_bq25896 E BQ25896_OTG None ?c) = Ic_send"
    using config_inv [OF assms(1) c, of BQ25896_OTG None] by simp_all
  show "chip_inv (snd (bq25896_charger_off E w))" "chip_inv (snd (bq25896_charger_receive E f w))"
    "chip_inv (snd (snd (bq25896_charger_send E i w)))"
    using assms(2) off rcv snd by (simp_all add: bq25896_charger_off_def bq25896_charger_receive_def bq25896_charger_send_def)
  show "fst (bq25896_charger_off E w) = 0 \<Longrightarrow> hw_mode (snd (bq25896_charger_off E w)) = Ic_off"
    using off by (simp add: bq25896_charger_off_def EINVAL_def split: if_splits)
  show "fst (bq25896_charger_receive E f w) = 0 \<Longrightarrow> hw_mode (snd (bq25896_charger_receive E f w)) = Ic_receive f"
    using rcv by (simp add: bq25896_charger_receive_def EINVAL_def split: if_splits)
  show "fst (bq25896_charger_send E i w) = 0 \<Longrightarrow> hw_mode (snd (snd (bq25896_charger_send E i w))) = Ic_send"
    using snd by (simp add: bq25896_charger_send_def EINVAL_def split: if_splits)
qed

lemma paths_world [simp]:
  "chg_world (wireless_path b s) = chg_world s" "chg_world (wired_path b s) = chg_world s" "chg_world (base_path b s) = chg_world s"
  by (simp_all add: path_defs)

lemma charger_world [simp]:
  "chg_world (snd (device_charger_off Q s)) = snd (charger_off Q (chg_world s))"
  "chg_world (snd (device_charger_receive Q f s)) = snd (charger_receive Q f (chg_world s))"
  "chg_world (snd (snd (device_charger_send Q i s))) = snd (snd (charger_send Q i (chg_world s)))"
  by (simp_all add: device_charger_off_def device_charger_receive_def device_charger_send_def split_beta)

lemma hw_view_eq:
  "hw_view s = (a, b, c, m) \<longleftrightarrow> wireless_on s = a \<and> wired_on s = b \<and> base_on s = c \<and> hw_mode (chg_world s) = m"
  by (auto simp: hw_view_def)

lemmas bq_ops_simps = bq25896_charger_type_ops_def charger_ops.simps

abbreviation hw_ops :: "bq_env \<Rightarrow> bq25896 switch_ptp_chg_info ptp_chg_ops" where
  "hw_ops E \<equiv> switch_ptp_chg_type_ops (bq25896_charger_type_ops E)"

interpretation hw: ptp_charger "hw_ops E" hw_view "hw_ok E" "chg_sem_ok E" for E
proof unfold_locales
  fix c :: "bq25896 switch_ptp_chg_info" and f i
  note pv = path_views [unfolded view_eq] and cv = charger_views [unfolded view_eq]
  assume k: "hw_ok E c"
  have c: "good_bus E" "board_ok c" "chip_inv (chg_world c)" "off_state c = EXT_PWR_SOURCES_OFF"
    "ic c = hw_mode (chg_world c)"
    using k by (simp_all add: hw_ok_def board_ok_off)
  note ops = charger_ops_hw [OF c(1,3)]
  note simps = switch_ptp_chg_type_ops_def chg_op_defs split_beta Let_def hw_view_eq hw_ok_def pv cv c bq_ops_simps charger_fst ops charger_fails
  show "hw_ok E (snd (send_wired_pwr (hw_ops E) c)) \<and> (fst (send_wired_pwr (hw_ops E) c) = 0 \<longrightarrow>
       hw_view (snd (send_wired_pwr (hw_ops E) c)) = (False, True, True, Ic_off))" by (simp add: simps)
  show "hw_ok E (snd (send_wireless_pwr (hw_ops E) c)) \<and> (fst (send_wireless_pwr (hw_ops E) c) = 0 \<longrightarrow>
       hw_view (snd (send_wireless_pwr (hw_ops E) c)) = (True, False, True, Ic_off))" by (simp add: simps)
  show "hw_ok E (snd (snd (send_batt_pwr (hw_ops E) i c))) \<and> (fst (send_batt_pwr (hw_ops E) i c) = 0 \<longrightarrow>
       hw_view (snd (snd (send_batt_pwr (hw_ops E) i c))) = (False, False, True, Ic_send))" by (simp add: simps)
  show "hw_ok E (snd (chg_off (hw_ops E) c)) \<and> (fst (chg_off (hw_ops E) c) = 0 \<longrightarrow>
       hw_view (snd (chg_off (hw_ops E) c)) = (False, False, False, Ic_off))" by (simp add: simps)
  show "hw_ok E (snd (all_paths_open (hw_ops E) c)) \<and> (fst (all_paths_open (hw_ops E) c) = 0 \<longrightarrow>
       hw_view (snd (all_paths_open (hw_ops E) c)) = (True, True, True, Ic_off))" by (simp add: simps)
  show "hw_ok E (snd (receive_base_pwr (hw_ops E) f c)) \<and> (fst (receive_base_pwr (hw_ops E) f c) = 0 \<longrightarrow>
       hw_view (snd (receive_base_pwr (hw_ops E) f c)) = (False, False, True, Ic_receive f))" by (simp add: simps)
  show "hw_ok E (snd (receive_wired_pwr (hw_ops E) f c)) \<and> (fst (receive_wired_pwr (hw_ops E) f c) = 0 \<longrightarrow>
       hw_view (snd (receive_wired_pwr (hw_ops E) f c)) = (False, True, False, Ic_receive f))" by (simp add: simps)
  show "hw_ok E (snd (receive_wireless_pwr (hw_ops E) f c)) \<and> (fst (receive_wireless_pwr (hw_ops E) f c) = 0 \<longrightarrow>
       hw_view (snd (receive_wireless_pwr (hw_ops E) f c)) = (True, False, False, Ic_receive f))" by (simp add: simps)
  show "hw_ok E (snd (snd (chg_max_input_voltage (hw_ops E) c))) \<and>
      hw_view (snd (snd (chg_max_input_voltage (hw_ops E) c))) = hw_view c"
    using k by (simp add: switch_ptp_chg_type_ops_def switch_ptp_chg_max_input_voltage_def bq_ops_simps
        bq25896_charger_max_input_voltage_def)
next
  fix c :: "bq25896 switch_ptp_chg_info" and f i
  assume "chg_sem_ok E"
  then show "fst (send_wired_pwr (hw_ops E) c) = 0 \<and> fst (send_wireless_pwr (hw_ops E) c) = 0 \<and>
      fst (send_batt_pwr (hw_ops E) i c) = 0 \<and> fst (chg_off (hw_ops E) c) = 0 \<and>
      fst (all_paths_open (hw_ops E) c) = 0 \<and> fst (receive_base_pwr (hw_ops E) f c) = 0 \<and>
      fst (receive_wired_pwr (hw_ops E) f c) = 0 \<and> fst (receive_wireless_pwr (hw_ops E) f c) = 0"
    by (simp add: switch_ptp_chg_type_ops_def chg_op_defs split_beta Let_def charger_fst bq_ops_simps
        bq25896_charger_off_def bq25896_charger_receive_def bq25896_charger_send_def)
qed

section \<open>Reachable states of the whole power path\<close>

text \<open>
  The charger chip probed with any registers and safe initial data, then the switch driver probed and
  opened over it.
\<close>

inductive hw_probed :: "bq_env \<Rightarrow> bq25896 switch_ptp_chg_info \<Rightarrow> bool" for E where
  "bq25896_charger_probe E True True True init en en_n int_n pg_n w0 = (0, w) \<Longrightarrow> notify_list w0 = [] \<Longrightarrow> init_safe init \<Longrightarrow>
   switch_ptp_chg_probe True data (Some a) (Some b) (Some d) gpios w = (0, Some s) \<Longrightarrow>
   0 \<le> a \<Longrightarrow> 0 \<le> b \<Longrightarrow> 0 \<le> d \<Longrightarrow> distinct [a, b, d] \<Longrightarrow>
   switch_ptp_chg_open (bq25896_charger_type_ops E) s = (0, c) \<Longrightarrow> hw_probed E c"

text \<open>The steps of the power transfer driver and the events of the chip, in any order.\<close>

inductive hw_reach :: "bq_env \<Rightarrow> 'x ext_ops \<Rightarrow> (bq25896 switch_ptp_chg_info, 'x) ptp_info \<Rightarrow> bool" for E X where
  opened: "hw_probed E c \<Longrightarrow> mods_ptp_probe True c e = (0, Some s0) \<Longrightarrow> mods_ptp_open (hw_ops E) X I s0 = (0, s) \<Longrightarrow> hw_reach E X s"
| stepped: "hw_reach E X s \<Longrightarrow> ptp_step (hw_ops E) X s s' \<Longrightarrow> hw_reach E X s'"
| chip: "hw_reach E X s \<Longrightarrow> chip_event E (chg_world (chg_dev s)) (Some w) \<Longrightarrow>
    hw_reach E X (s\<lparr>chg_dev := (chg_dev s)\<lparr>chg_world := w\<rparr>\<rparr>)"

lemma probe_base:
  assumes "good_bus E" "bq25896_charger_probe E True True True init en en_n int_n pg_n w0 = (0, w)"
    "notify_list w0 = []" "init_safe init"
  shows "chip_base w"
  using assms
  by (auto simp: bq25896_charger_probe_def bq25896_driver_init_def Let_def chip_base_def split: if_splits)

lemma modify_kept_base:
  assumes "good_bus E" "chip_base w"
  shows "chip_base (snd (bq25896_reg_modify E 0x09 m v w))"
  using assms by (simp add: modify_good chip_base_def)

lemma open_inv:
  assumes "good_bus E" "chip_base w" "bq25896_charger_open E w = (0, w')"
  shows "chip_inv w' \<and> hw_mode w' = Ic_off"
proof -
  let ?w = "config_bq25896 E BQ25896_CHG_OFF None (snd (bq25896_reg_modify E 0x09 0x20 0x00 w))"
  have i: "chip_inv ?w" "hw_mode ?w = Ic_off"
    using config_inv [OF assms(1) modify_kept_base [OF assms(1,2)], of BQ25896_CHG_OFF None] by simp_all
  then obtain i where "info ?w = Some i" by (auto simp: chip_inv_def chip_base_def)
  then have e: "w' = ?w\<lparr>notify_list := notify_list ?w @ [i]\<rparr>"
    using assms(3) by (auto simp: bq25896_charger_open_def bq25896_register_callback_def ENOMEM_def split: if_splits)
  have "chip_base w'" using i(1) \<open>info ?w = Some i\<close> unfolding e by (simp add: chip_inv_def chip_base_def)
  moreover have "chip_sync w'"
    using i(1) limits_hold_regs [of _ ?w w'] unfolding chip_inv_def chip_sync_def e by auto
  moreover have "hw_mode w' = hw_mode ?w" unfolding e by (simp add: hw_mode_def)
  ultimately show ?thesis using i(2) by (simp add: chip_inv_def)
qed

lemma hw_probed_start:
  assumes b: "good_bus E" and p: "hw_probed E c"
  shows "hw_ok E c \<and> snd (snd (snd (hw_view c))) = Ic_off"
  using p
proof cases
  case (1 init en en_n int_n pg_n w0 w data a b d gpios s)
  have s: "board_ok s" "ic s = Ic_off" "chg_world s = w"
    using probe_state [OF 1(4-8)] 1(4)
    by (auto simp: switch_ptp_chg_probe_def Let_def split: prod.splits)
  have o: "bq25896_charger_open E w = (0, chg_world c)" "c = s\<lparr>chg_world := chg_world c\<rparr>"
    using 1(9) s(3) by (auto simp: switch_ptp_chg_open_def bq_ops_simps split_beta EIO_def Let_def prod_eq_iff split: if_splits)
  have "board_ok (s\<lparr>chg_world := x\<rparr>) \<and> ic (s\<lparr>chg_world := x\<rparr>) = Ic_off" for x using s(1,2) by (simp add: board_ok_def)
  then have "board_ok c" "ic c = Ic_off" using o(2) by metis+
  then show ?thesis
    using open_inv [OF b probe_base [OF b 1(1-3)] o(1)] b by (simp add: hw_ok_def hw_view_def)
qed

lemma hw_reach_inv:
  assumes "good_bus E" "chg_sem_ok E" "hw_reach E X s"
  shows "hw.good E s \<and> ready s \<and> hw.charging s"
  using assms(3)
proof induction
  case (opened c e s0 I s)
  then have s: "ptp_reach (hw_ops E) X (hw_probed E) s" by (intro ptp_reach.opened)
  note start = hw_probed_start [OF assms(1)]
  show ?case using hw.reach_good [OF s assms(2) start] hw.reach_charging [OF s assms(2) start] by blast
next
  case (stepped s s')
  then show ?case using hw.step_good [OF _ assms(2)] hw.step_charging [OF _ assms(2)] by blast
next
  case (chip s w)
  let ?c = "(chg_dev s)\<lparr>chg_world := w\<rparr>"
  have k: "hw_ok E (chg_dev s)" using chip(3) by (simp add: hw.good_def)
  then have "chip_base (chg_world (chg_dev s))" "chip_inv (chg_world (chg_dev s))" by (simp_all add: hw_ok_def chip_inv_def)
  then have "chip_inv w" "hw_mode w = hw_mode (chg_world (chg_dev s))"
    using event_kept [OF assms(1,2) _ chip(2)] kept_inv by blast+
  then have "hw_ok E ?c" "hw_view ?c = hw_view (chg_dev s)"
    using k by (simp_all add: hw_ok_def hw_view_def board_ok_def path_on_def)
  then show ?case using hw.chip_step_good [of E s ?c] chip(3) by blast
qed

section \<open>A sample module\<close>

definition sample_bq_env :: bq_env where
  "sample_bq_env = \<lparr>call_ret = (\<lambda>_. 0), unwritten = \<lparr>input_current_limit = 0, input_voltage_limit = 0, charge_current_limit = 0,
     charge_voltage_limit = 0\<rparr>, chg_sem_ok = True, sem_init_rets = (0, 0), node_ok = True\<rparr>"

text \<open>The chip with all bits of its registers set, before the driver runs.\<close>

definition sample_bq_chip :: bq25896 where
  "sample_bq_chip = \<lparr>regs = (\<lambda>_. 0xFF), fault_latch = 0, calls = 0, i2c_up = False, pg_n_connected = False, int_work = False,
     pg_work = False, fault_work = False, int_attached = False, notify_list = [], info = None, infos = 0, bq_init_data = [],
     settings_chg = BQ25896_CHG_OFF, settings_cfg = None, boost_fault_cb = False, boost_faults = 0, chg_en = - 1,
     chg_en_active_high = False, ce_value = False, status_charging = False\<rparr>"

lemma sample_bus [simp]: "good_bus sample_bq_env" "chg_sem_ok sample_bq_env" "node_ok sample_bq_env" "sem_init_rets sample_bq_env = (0, 0)"
  by (simp_all add: good_bus_def sample_bq_env_def)

lemma board_init_safe: "init_safe bq25896_charger_init_data"
  by (simp add: init_safe_def bq25896_charger_init_data_def)

definition sample_hw_world :: bq25896 where
  "sample_hw_world = snd (bq25896_charger_probe sample_bq_env True True True bq25896_charger_init_data 7 (- 1) 9 (- 1) sample_bq_chip)"

definition sample_hw_charger :: "bq25896 switch_ptp_chg_info" where
  "sample_hw_charger = snd (switch_ptp_chg_open (bq25896_charger_type_ops sample_bq_env)
     (the (snd (switch_ptp_chg_probe True None (Some 1) (Some 2) (Some 3) (\<lambda>_. False) sample_hw_world))))"

definition sample_hw :: "int \<Rightarrow> (bq25896 switch_ptp_chg_info, int) ptp_info" where
  "sample_hw cur = snd (mods_ptp_open (hw_ops sample_bq_env) sample_sources sample_open_in
     (cleared_info sample_hw_charger \<lparr>ext_dev = (\<lambda>_. False), initialized = False, ext_world = cur\<rparr>))"

definition sample_hw_sending :: "int \<Rightarrow> (bq25896 switch_ptp_chg_info, int) ptp_info" where
  "sample_hw_sending cur = snd (mods_ptp_set_current_flow (hw_ops sample_bq_env) sample_sources PTP_CURRENT_FROM_MOD (sample_hw cur))"

lemma sample_hw_probed: "hw_probed sample_bq_env sample_hw_charger"
proof (rule hw_probed.intros)
  let ?s = "the (snd (switch_ptp_chg_probe True None (Some 1) (Some 2) (Some 3) (\<lambda>_. False) sample_hw_world))"
  show "bq25896_charger_probe sample_bq_env True True True bq25896_charger_init_data 7 (- 1) 9 (- 1) sample_bq_chip = (0, sample_hw_world)"
    by (simp add: sample_hw_world_def bq25896_charger_probe_def bq25896_driver_init_def Let_def sample_bq_chip_def split_beta)
  show "init_safe bq25896_charger_init_data" by (rule board_init_safe)
  show "switch_ptp_chg_probe True None (Some 1) (Some 2) (Some 3) (\<lambda>_. False) sample_hw_world = (0, Some ?s)"
    by (simp add: switch_ptp_chg_probe_def Let_def)
  show "switch_ptp_chg_open (bq25896_charger_type_ops sample_bq_env) ?s = (0, sample_hw_charger)"
    by (simp add: sample_hw_charger_def switch_ptp_chg_open_def bq_ops_simps bq25896_charger_open_def
        bq25896_register_callback_def split_beta Let_def)
qed (simp_all add: sample_bq_chip_def)

lemma sample_hw_reach: "hw_reach sample_bq_env sample_sources (sample_hw cur)"
proof (rule hw_reach.opened)
  show "hw_probed sample_bq_env sample_hw_charger" by (rule sample_hw_probed)
  show "mods_ptp_probe True sample_hw_charger \<lparr>ext_dev = (\<lambda>_. False), initialized = False, ext_world = cur\<rparr> =
      (0, Some (cleared_info sample_hw_charger \<lparr>ext_dev = (\<lambda>_. False), initialized = False, ext_world = cur\<rparr>))"
    by (simp add: mods_ptp_probe_def)
  show "mods_ptp_open (hw_ops sample_bq_env) sample_sources sample_open_in
      (cleared_info sample_hw_charger \<lparr>ext_dev = (\<lambda>_. False), initialized = False, ext_world = cur\<rparr>) = (0, sample_hw cur)"
    unfolding sample_hw_def
    by (simp add: mods_ptp_open_def cleared_info_def Let_def sample_sources_def sample_open_in_def switch_ptp_chg_type_ops_def
        switch_ptp_chg_max_input_voltage_def bq_ops_simps bq25896_charger_max_input_voltage_def ext_power_init_def cong: eval_cong)
qed

lemma sample_hw_sending_reach: "hw_reach sample_bq_env sample_sources (sample_hw_sending cur)"
  unfolding sample_hw_sending_def by (rule hw_reach.stepped [OF sample_hw_reach]) (rule ptp_step.current_flow)

lemmas hw_eval = sample_sources_def sample_open_in_def switch_ptp_chg_type_ops_def switch_ptp_chg_max_input_voltage_def
  chg_op_defs path_defs on_chg_def bq_ops_simps bq25896_charger_max_input_voltage_def bq25896_charger_off_def
  bq25896_charger_receive_def bq25896_charger_send_def

lemma sample_hw_charging:
  "ic (chg_dev (sample_hw 1000)) = Ic_receive (Some \<lparr>input_current_limit = 1000, input_voltage_limit = 4500,
     charge_current_limit = 300, charge_voltage_limit = 4350\<rparr>)"
  unfolding sample_hw_def
  by (simp add: Let_def hw_eval ptp_eval chg_cfg_def config_simps cong: eval_cong)

lemma sample_hw_wired: "source (report (sample_hw_sending 1000)) = PTP_POWER_SOURCE_WIRED"
  unfolding sample_hw_sending_def sample_hw_def
  by (simp add: Let_def hw_eval ptp_eval config_simps cong: eval_cong)

section \<open>Properties\<close>





text \<open>
  C35. The four limits as programmed. A limit that the chip cannot represent is skipped and the field keeps its
  value. Otherwise the input current, the charge current and the charge voltage are rounded down and
  the input voltage threshold is rounded up, each by less than one step of its field, within the
  range of the chip.
\<close>

theorem limits_rounded_to_the_safe_side:
  assumes "good_bus E" "i2c_up s"
  shows "limits_set cfg s (set_bq25896_limits E cfg s)"
  using assms by (rule limits_set_good)

theorem limits_rounded_to_the_safe_side_witness:
  "ilim (set_bq25896_limits sample_bq_env \<lparr>input_current_limit = 1049, input_voltage_limit = 4501,
     charge_current_limit = 300, charge_voltage_limit = 4350\<rparr> (sample_bq_chip\<lparr>i2c_up := True\<rparr>)) > 999"
  using limits_rounded_to_the_safe_side [OF sample_bus(1), of "sample_bq_chip\<lparr>i2c_up := True\<rparr>"
      "\<lparr>input_current_limit = 1049, input_voltage_limit = 4501, charge_current_limit = 300, charge_voltage_limit = 4350\<rparr>"]
  by (simp add: limits_set_def)



text \<open>
  C37. A source that gives less than 100 mA is overdrawn: the driver ignores that its input current limit was
  refused, starts the charger and reports success, with the input current limit of the charge before.
\<close>

theorem weak_source_is_overdrawn:
  assumes "good_bus E" "chg_sem_ok E" "chip_base s" "input_current_limit cfg < 100"
  shows "fst (bq25896_charger_receive E (Some cfg) s) = 0 \<and>
    hw_mode (snd (bq25896_charger_receive E (Some cfg) s)) = Ic_receive (Some cfg) \<and>
    ilim (snd (bq25896_charger_receive E (Some cfg) s)) = ilim s"
proof -
  have u: "i2c_up s" using assms(3) by (simp add: chip_base_def)
  have "hw_mode (config_bq25896 E BQ25896_CHG_BATTERY (Some (Some cfg)) s) = Ic_receive (Some cfg)"
    using config_inv [OF assms(1,3), of BQ25896_CHG_BATTERY "Some (Some cfg)"] by simp
  moreover have "ilim (config_bq25896 E BQ25896_CHG_BATTERY (Some (Some cfg)) s) = ilim s"
  proof -
    let ?s = "s\<lparr>settings_cfg := Some cfg\<rparr>"
    define s1 where "s1 = set_bq25896_limits E cfg ?s"
    have u': "i2c_up ?s" using u by simp
    have "limits_set cfg ?s s1" unfolding s1_def by (rule limits_set_good [OF assms(1) u'])
    then have 1: "ilim s1 = ilim s" using assms(4) by (simp add: limits_set_def ilim_def)
    have "i2c_up (s1\<lparr>settings_chg := BQ25896_CHG_BATTERY\<rparr>)" using set_limits_keep(4) [OF assms(1) u'] by (simp add: s1_def)
    then obtain n r where "snd (set_bq25896_chg E BQ25896_CHG_BATTERY (s1\<lparr>settings_chg := BQ25896_CHG_BATTERY\<rparr>)) =
      (set_bq25896_ce_pin True (s1\<lparr>settings_chg := BQ25896_CHG_BATTERY\<rparr>))\<lparr>calls := n, regs := (regs s1)(0x0A := r, 0x03 := blend (regs s1 0x03) 0x30 0x10)\<rparr>"
      by (rule set_chg_good [OF assms(1), where c = BQ25896_CHG_BATTERY]) (simp add: mode_field_def)
    then show ?thesis using 1 by (simp add: config_bq25896_def written_def s1_def [symmetric] ilim_def)
  qed
  ultimately show ?thesis using assms(2) by (simp add: bq25896_charger_receive_def)
qed

theorem weak_source_is_overdrawn_witness:
  "ilim (snd (bq25896_charger_receive sample_bq_env (Some \<lparr>input_current_limit = 50, input_voltage_limit = 4500,
     charge_current_limit = 300, charge_voltage_limit = 4350\<rparr>) (sample_bq_chip\<lparr>i2c_up := True, info := Some 0\<rparr>))) = 3250"
  using weak_source_is_overdrawn [OF sample_bus(1,2), of "sample_bq_chip\<lparr>i2c_up := True, info := Some 0\<rparr>"
      "\<lparr>input_current_limit = 50, input_voltage_limit = 4500, charge_current_limit = 300, charge_voltage_limit = 4350\<rparr>"]
  by (simp add: chip_base_def init_safe_def sample_bq_chip_def ilim_def)

lemma dead_bus:
  assumes "\<forall>n. call_ret E n \<noteq> 0"
  shows "regs (snd (bq25896_reg_modify E reg m v s)) = regs s"
  using assms by (simp add: bq25896_reg_modify_def locked_def next_call_def)

text \<open>
  Switching the charger off reports success even when the chip was never reached: if no transfer works, all
  registers keep their values, so a chip that boosts or charges goes on doing so.
\<close>

theorem off_is_reported_without_the_chip:
  assumes "\<forall>n. call_ret E n \<noteq> 0" "chg_sem_ok E"
  shows "fst (bq25896_charger_off E s) = 0 \<and> regs (snd (bq25896_charger_off E s)) = regs s"
  using assms(2) dead_bus [OF assms(1)]
  by (simp add: bq25896_charger_off_def config_bq25896_def set_bq25896_chg_def Let_def)

theorem off_is_reported_without_the_chip_witness:
  "fst (bq25896_charger_off (sample_bq_env\<lparr>call_ret := \<lambda>_. - EIO\<rparr>) (sample_bq_chip\<lparr>i2c_up := True\<rparr>)) = 0 \<and>
   regs (snd (bq25896_charger_off (sample_bq_env\<lparr>call_ret := \<lambda>_. - EIO\<rparr>) (sample_bq_chip\<lparr>i2c_up := True\<rparr>))) 0x03 = 0xFF"
  using off_is_reported_without_the_chip [of "sample_bq_env\<lparr>call_ret := \<lambda>_. - EIO\<rparr>" "sample_bq_chip\<lparr>i2c_up := True\<rparr>"]
  by (simp add: EIO_def) (simp add: sample_bq_chip_def)

text \<open>
  Closing and removing the charger leaves its callback registered: the next interrupt with the power good bit set
  runs it on the freed structure.
\<close>

theorem interrupt_after_remove_faults:
  assumes "good_bus E" "i2c_up s" "notify_list s = i # nodes" "\<not> pg_n_connected s" "uint (regs s 0x0B) AND 4 \<noteq> 0"
  shows "int_worker E (bq25896_charger_remove s) = None"
proof -
  have r: "bq25896_reg_read E reg x = (uint (if reg = 0x0C then fault_latch x else regs x reg),
      x\<lparr>calls := Suc (Suc (calls x)), fault_latch := if reg = 0x0C then regs x 0x0C else fault_latch x\<rparr>)" if "i2c_up x" for reg x
    using assms(1) that by (simp add: bq25896_reg_read_def locked_def reg_read_def)
  show ?thesis using assms(2-)
    by (simp add: int_worker_def read_fault_reg_def r bq25896_charger_remove_def Let_def bq25896_charger_callback_def)
qed

theorem interrupt_after_remove_faults_witness:
  "int_worker sample_bq_env (bq25896_charger_remove (sample_bq_chip\<lparr>i2c_up := True, info := Some 0, notify_list := [0]\<rparr>)) = None"
  using interrupt_after_remove_faults [OF sample_bus(1), of "sample_bq_chip\<lparr>i2c_up := True, info := Some 0, notify_list := [0]\<rparr>" 0 "[]"]
  by (simp add: sample_bq_chip_def)

end
