(* ===== verification/Max17050.thy ===== *)
theory Max17050
  imports Prelude "HOL-Library.Signed_Division"
begin

text \<open>
  The fuel gauge, first half: its registers over I2C, what they mean, the configuration after a
  power-on reset and the alert thresholds, \<^verbatim>\<open>drivers/power/max17050.c\<close> with the battery data of
  \<^verbatim>\<open>max17050_sample_cfg.c\<close> and the thermistor tables of \<^verbatim>\<open>configs/hdk/muc/src/stm32_thermistor.c\<close>. The chip
  is a parameter with a state \<open>'h\<close>: what a read returns and what a write does. The environment says
  how the \<open>n\<close>-th transfer ends, 0 being success; a transfer that fails does not reach the chip.
  Configuration: temperature and level devices, empty battery detection at 3000 mV, accurate
  thermistor, no voltage device, no sense trace correction. Waiting for a semaphore only fails for
  good on a null pointer, and the semaphores here are not, so they only serialise the operations.
\<close>

section \<open>Thermistor\<close>

text \<open>Pairs of the real temperature and the one the fuel gauge measures, in degrees Celsius.\<close>

definition f2r :: "(int \<times> int) list" where
  "f2r =
     [(- 35, - 22), (- 34, - 21), (- 31, - 20), (- 28, - 19), (- 25, - 18), (- 23, - 17), (- 21, - 16),
      (- 18, - 15), (- 16, - 14), (- 15, - 13), (- 13, - 12), (- 11, - 11), (- 10, - 10), (- 8, - 9),
      (- 7, - 8), (- 6, - 7), (- 4, - 6), (- 3, - 5), (- 2, - 4), (- 1, - 3), (0, - 2), (1, - 1), (2, 0),
      (3, 1), (4, 2), (5, 3), (6, 4), (7, 5), (8, 6), (9, 7), (10, 8), (11, 9), (12, 10), (13, 11), (14, 12),
      (15, 13), (16, 14), (16, 15), (17, 16), (18, 17), (19, 18), (20, 19), (21, 20), (22, 21), (23, 22),
      (24, 23), (25, 24), (26, 25), (26, 26), (27, 27), (28, 28), (29, 29), (30, 30), (31, 31), (32, 32),
      (33, 33), (34, 34), (35, 35), (36, 36), (37, 37), (39, 38), (40, 39), (41, 40), (42, 41), (43, 42),
      (44, 43), (45, 44), (47, 45), (48, 46), (49, 47), (50, 48), (52, 49), (53, 50), (55, 51), (56, 52),
      (58, 53), (60, 54), (62, 55), (63, 56), (65, 57), (68, 58), (70, 59), (72, 60), (74, 61), (77, 62),
      (79, 63), (80, 64)]"

definition r2f :: "(int \<times> int) list" where
  "r2f =
     [(- 35, - 21), (- 34, - 21), (- 33, - 21), (- 32, - 21), (- 31, - 20), (- 30, - 20), (- 29, - 20),
      (- 28, - 19), (- 27, - 19), (- 26, - 19), (- 25, - 18), (- 24, - 18), (- 23, - 17), (- 22, - 17),
      (- 21, - 16), (- 20, - 16), (- 19, - 15), (- 18, - 15), (- 17, - 14), (- 16, - 14), (- 15, - 13),
      (- 14, - 13), (- 13, - 12), (- 12, - 11), (- 11, - 11), (- 10, - 10), (- 9, - 9), (- 8, - 9),
      (- 7, - 8), (- 6, - 7), (- 5, - 6), (- 4, - 5), (- 3, - 5), (- 2, - 4), (- 1, - 3), (0, - 2), (1, - 1),
      (2, 0), (3, 1), (4, 2), (5, 3), (6, 4), (7, 5), (8, 6), (9, 7), (10, 8), (11, 9), (12, 10), (13, 11),
      (14, 12), (15, 13), (16, 14), (17, 15), (18, 17), (19, 18), (20, 19), (21, 20), (22, 21), (23, 22),
      (24, 23), (25, 24), (26, 25), (27, 26), (28, 27), (29, 29), (30, 30), (31, 31), (32, 32), (33, 33),
      (34, 34), (35, 35), (36, 36), (37, 37), (38, 38), (39, 38), (40, 39), (41, 40), (42, 41), (43, 42),
      (44, 43), (45, 44), (46, 45), (47, 45), (48, 46), (49, 47), (50, 48), (51, 48), (52, 49), (53, 50),
      (54, 50), (55, 51), (56, 52), (57, 52), (58, 53), (59, 54), (60, 54), (61, 55), (62, 55), (63, 56),
      (64, 56), (65, 57), (66, 57), (67, 58), (68, 58), (69, 59), (70, 59), (71, 60), (72, 60), (73, 60),
      (74, 61), (75, 61), (76, 61), (77, 62), (78, 62), (79, 63), (80, 62)]"

definition max17050_thermistor_real_to_fuelgauge :: "int \<Rightarrow> int" where
  "max17050_thermistor_real_to_fuelgauge real_temp =
     (let i = real_temp sdiv 10 - fst (r2f ! 0);
          i = (if real_temp < 0 then i - 1 else i)
      in if i < 0 then snd (r2f ! 0) * 10
         else if i \<ge> int (length r2f) - 1 then snd (r2f ! (length r2f - 1)) * 10
         else
           (let dt = real_temp - fst (r2f ! nat i) * 10
            in snd (r2f ! nat i) * 10 + (snd (r2f ! (nat i + 1)) - snd (r2f ! nat i)) * dt))"

definition max17050_thermistor_fuelgauge_to_real :: "int \<Rightarrow> int" where
  "max17050_thermistor_fuelgauge_to_real fuelgauge_temp =
     (let i = fuelgauge_temp sdiv 10 - snd (f2r ! 0);
          i = (if fuelgauge_temp < 0 then i - 1 else i)
      in if i < 0 then fst (f2r ! 0) * 10
         else if i \<ge> int (length f2r) - 1 then fst (f2r ! (length f2r - 1)) * 10
         else
           (let dt = fuelgauge_temp - snd (f2r ! nat i) * 10
            in fst (f2r ! nat i) * 10 + (fst (f2r ! (nat i + 1)) - fst (f2r ! nat i)) * dt))"

section \<open>Data\<close>

record max17050_config =
  cfg_version :: u16
  cfg_config :: u16
  cfg_relax :: u16
  cfg_filter :: u16
  cfg_learn :: u16
  cfg_full_soc_thr :: u16
  cfg_tgain :: u16
  cfg_toff :: u16
  cfg_sns_resistor :: int
  cfg_qr_table_00 :: u16
  cfg_qr_table_10 :: u16
  cfg_qr_table_20 :: u16
  cfg_qr_table_30 :: u16
  cfg_rcomp0 :: u16
  cfg_tempco :: u16
  cfg_capacity :: int
  cfg_vf_fullcap :: int
  cfg_ichg_term :: u16
  cfg_voltage_max_design :: int
  cfg_cell_data :: "int list"

definition max17050_cfg :: max17050_config where
  "max17050_cfg =
     \<lparr>cfg_version = 0xFF00, cfg_config = 0x0210, cfg_relax = 0x023B, cfg_filter = 0x87A4, cfg_learn = 0x2606, cfg_full_soc_thr = 0x5F00,
      cfg_tgain = 0xE71C, cfg_toff = 0x251A, cfg_sns_resistor = 10000, cfg_qr_table_00 = 0x1B94, cfg_qr_table_10 = 0x0E94, cfg_qr_table_20 = 0x0594,
      cfg_qr_table_30 = 0x0294, cfg_rcomp0 = 0x0052, cfg_tempco = 0x333A, cfg_capacity = 606, cfg_vf_fullcap = 606, cfg_ichg_term = 0x0060,
      cfg_voltage_max_design = 4200000,
      cfg_cell_data =
       [0x9cf0, 0xa310, 0xb180, 0xb360, 0xb6a0, 0xb6e0, 0xba10, 0xbb10, 0xbbd0, 0xbc10, 0xc200, 0xc250, 0xc7c0, 0xc820, 0xd050, 0xd710,
        0x0140, 0x0110, 0x0210, 0x02c0, 0x1000, 0x0a00, 0x06c0, 0x31a0,
        0x0af0, 0x1170, 0x0cb0, 0x08d0, 0x0aa0, 0x0880, 0x07b0, 0x07b0,
        0x0100, 0x0100, 0x0100, 0x0100, 0x0100, 0x0100, 0x0100, 0x0100, 0x0100, 0x0100, 0x0100, 0x0100, 0x0100, 0x0100, 0x0100, 0x0100]\<rparr>"

text \<open>The limits of an \<^verbatim>\<open>int\<close>, which stand for no limit.\<close>

abbreviation INT_MIN :: int where "INT_MIN \<equiv> - 2147483648"

abbreviation INT_MAX :: int where "INT_MAX \<equiv> 2147483647"

record 'h gauge_env =
  chip_read :: "u8 \<Rightarrow> 'h \<Rightarrow> u16 \<times> 'h"
  chip_write :: "u8 \<Rightarrow> u16 \<Rightarrow> 'h \<Rightarrow> 'h"
  gauge_ret :: "nat \<Rightarrow> int"

text \<open>
  The structure of the driver, with its static variables, \<^verbatim>\<open>g_status\<close> (charging or not) and the chip.
  \<open>gauge_present\<close> says that \<^verbatim>\<open>g_max17050_dev\<close> is set, a flag \<open>_work\<close> that the work is queued, \<open>batt_good_work\<close> which
  worker it is queued with, \<open>alrt_released\<close> the level of the alert pin and \<open>por_threads\<close> counts the
  threads created for the configuration that have not run.
\<close>

record 'h max17050_dev =
  chip :: 'h
  transfers :: nat
  gauge_present :: bool
  gauge_initialized :: bool
  batt_good_work :: "bool option"
  por_threads :: nat
  alrt_work :: bool
  alrt_gpio :: int
  alrt_released :: bool
  min_max_valrt :: bool
  min_max_talrt :: bool
  min_max_salrt :: bool
  valrt_limits :: "int \<times> int"
  talrt_limits :: "int \<times> int"
  salrt_limits :: "int \<times> int"
  empty_battery_detection :: bool
  saved_valrt :: "int \<times> int"
  saved_talrt :: "int \<times> int"
  saved_salrt :: "int \<times> int"
  temp_limits_cb :: bool
  temp_available_cb :: bool
  level_limits_cb :: bool
  level_available_cb :: bool
  max_soc_alrt :: bool
  eoc_counter :: int
  state_changed_work :: bool
  eoc_work :: bool
  g_status_charging :: bool

section \<open>Registers\<close>

definition i2c_writeread :: "'h gauge_env \<Rightarrow> u8 \<Rightarrow> ('h, 'z) max17050_dev_scheme \<Rightarrow> int \<times> u16 \<times> ('h, 'z) max17050_dev_scheme" where
  "i2c_writeread E reg s =
     (let ret = gauge_ret E (transfers s); s1 = s\<lparr>transfers := Suc (transfers s)\<rparr>
      in if ret \<noteq> 0 then (ret, 0, s1) else (let (v, h) = chip_read E reg (chip s1) in (0, v, s1\<lparr>chip := h\<rparr>)))"

definition max17050_reg_read :: "'h gauge_env \<Rightarrow> u8 \<Rightarrow> ('h, 'z) max17050_dev_scheme \<Rightarrow> int \<times> ('h, 'z) max17050_dev_scheme" where
  "max17050_reg_read E reg s =
     (let (ret, v, s1) = i2c_writeread E reg s in (if ret \<noteq> 0 then ret else uint v, s1))"

text \<open>The loops count the tries that are left after the current one.\<close>

fun read_tries :: "'h gauge_env \<Rightarrow> u8 \<Rightarrow> nat \<Rightarrow> ('h, 'z) max17050_dev_scheme \<Rightarrow> int \<times> ('h, 'z) max17050_dev_scheme" where
  "read_tries E reg n s =
     (let (ret, v, s1) = i2c_writeread E reg s in
      if ret = 0 then (uint v, s1)
      else (case n of 0 \<Rightarrow> (ret, s1) | Suc m \<Rightarrow> read_tries E reg m s1))"

definition max17050_reg_read_retry ::
    "'h gauge_env \<Rightarrow> u8 \<Rightarrow> ('h, 'z) max17050_dev_scheme \<Rightarrow> int \<times> ('h, 'z) max17050_dev_scheme" where
  "max17050_reg_read_retry E reg s = read_tries E reg 7 s"

definition max17050_reg_write ::
    "'h gauge_env \<Rightarrow> u8 \<Rightarrow> u16 \<Rightarrow> ('h, 'z) max17050_dev_scheme \<Rightarrow> int \<times> ('h, 'z) max17050_dev_scheme" where
  "max17050_reg_write E reg val s =
     (let ret = gauge_ret E (transfers s); s1 = s\<lparr>transfers := Suc (transfers s)\<rparr>
      in (ret, if ret \<noteq> 0 then s1 else s1\<lparr>chip := chip_write E reg val (chip s1)\<rparr>))"

text \<open>An operation that is tried until it returns 0.\<close>

fun op_tries :: "('s \<Rightarrow> int \<times> 's) \<Rightarrow> nat \<Rightarrow> 's \<Rightarrow> int \<times> 's" where
  "op_tries f n s =
     (let (ret, s1) = f s in
      if ret = 0 then (ret, s1) else (case n of 0 \<Rightarrow> (ret, s1) | Suc m \<Rightarrow> op_tries f m s1))"

definition max17050_reg_write_retry ::
    "'h gauge_env \<Rightarrow> u8 \<Rightarrow> u16 \<Rightarrow> ('h, 'z) max17050_dev_scheme \<Rightarrow> int \<times> ('h, 'z) max17050_dev_scheme" where
  "max17050_reg_write_retry E reg val s = op_tries (max17050_reg_write E reg val) 7 s"

definition max17050_reg_write_verify ::
    "'h gauge_env \<Rightarrow> u8 \<Rightarrow> u16 \<Rightarrow> ('h, 'z) max17050_dev_scheme \<Rightarrow> int \<times> ('h, 'z) max17050_dev_scheme" where
  "max17050_reg_write_verify E reg val s =
     op_tries (\<lambda>s. let (ret, s1) = max17050_reg_read E reg (snd (max17050_reg_write E reg val s))
                   in (if ret = uint val then 0 else - EIO, s1)) 7 s"

definition max17050_reg_modify ::
    "'h gauge_env \<Rightarrow> u8 \<Rightarrow> u16 \<Rightarrow> u16 \<Rightarrow> ('h, 'z) max17050_dev_scheme \<Rightarrow> int \<times> ('h, 'z) max17050_dev_scheme" where
  "max17050_reg_modify E reg msk val s =
     (let (ret, s1) = max17050_reg_read E reg s in
      if ret < 0 then (ret, s1)
      else max17050_reg_write E reg ((word_of_int ret AND NOT msk) OR (val AND msk)) s1)"

definition max17050_reg_modify_retry ::
    "'h gauge_env \<Rightarrow> u8 \<Rightarrow> u16 \<Rightarrow> u16 \<Rightarrow> ('h, 'z) max17050_dev_scheme \<Rightarrow> int \<times> ('h, 'z) max17050_dev_scheme" where
  "max17050_reg_modify_retry E reg msk val s = op_tries (max17050_reg_modify E reg msk val) 7 s"

section \<open>Measurements\<close>

text \<open>
  A value is returned beside the result code; it is only meaningful with 0. Every measurement needs the
  gauge to be initialized and turns a failed transfer into \<^verbatim>\<open>-ENODEV\<close>.
\<close>

definition measured ::
    "'h gauge_env \<Rightarrow> u8 \<Rightarrow> (int \<Rightarrow> 'a) \<Rightarrow> ('h, 'z) max17050_dev_scheme \<Rightarrow> (int + 'a) \<times> ('h, 'z) max17050_dev_scheme" where
  "measured E reg f s =
     (if \<not> gauge_initialized s then (Inl (- EAGAIN), s)
      else
        (let (ret, s1) = max17050_reg_read_retry E reg s
         in (if ret < 0 then Inl (- ENODEV) else Inr (f ret), s1)))"

text \<open>The battery status bit is 0 when the battery is there.\<close>

definition max17050_online ::
    "'h gauge_env \<Rightarrow> ('h, 'z) max17050_dev_scheme \<Rightarrow> (int + bool) \<times> ('h, 'z) max17050_dev_scheme" where
  "max17050_online E s = measured E 0x00 (\<lambda>ret. ret AND 8 \<noteq> 8) s"

definition max17050_voltage ::
    "'h gauge_env \<Rightarrow> ('h, 'z) max17050_dev_scheme \<Rightarrow> (int + int) \<times> ('h, 'z) max17050_dev_scheme" where
  "max17050_voltage E s = measured E 0x09 (\<lambda>ret. ret * 625 sdiv 8) s"

definition max17050_capacity ::
    "'h gauge_env \<Rightarrow> ('h, 'z) max17050_dev_scheme \<Rightarrow> (int + int) \<times> ('h, 'z) max17050_dev_scheme" where
  "max17050_capacity E s = measured E 0x06 (\<lambda>ret. drop_bit 8 ret + (if ret AND 0x80 \<noteq> 0 then 1 else 0)) s"

definition max17050_max_voltage :: "int" where
  "max17050_max_voltage = cfg_voltage_max_design max17050_cfg"

text \<open>A register in two's complement.\<close>

definition signed_reg :: "int \<Rightarrow> int" where
  "signed_reg ret = (if ret AND 0x8000 \<noteq> 0 then - ((0x7FFF AND NOT ret) + 1) else ret)"

definition max17050_temperature ::
    "'h gauge_env \<Rightarrow> ('h, 'z) max17050_dev_scheme \<Rightarrow> (int + int) \<times> ('h, 'z) max17050_dev_scheme" where
  "max17050_temperature E s =
     measured E 0x08 (\<lambda>ret. max17050_thermistor_fuelgauge_to_real (signed_reg ret * 10 sdiv 256)) s"

definition max17050_get_current ::
    "'h gauge_env \<Rightarrow> bool \<Rightarrow> ('h, 'z) max17050_dev_scheme \<Rightarrow> (int + int) \<times> ('h, 'z) max17050_dev_scheme" where
  "max17050_get_current E average s =
     measured E (if average then 0x0B else 0x0A) (\<lambda>ret. signed_reg ret * (1562500 sdiv cfg_sns_resistor max17050_cfg)) s"

definition max17050_full_capacity ::
    "'h gauge_env \<Rightarrow> ('h, 'z) max17050_dev_scheme \<Rightarrow> (int + int) \<times> ('h, 'z) max17050_dev_scheme" where
  "max17050_full_capacity E s = measured E 0x10 (\<lambda>ret. ret * (5000000 sdiv cfg_sns_resistor max17050_cfg)) s"

datatype battery_status_e = BATTERY_UNKNOWN | BATTERY_IDLE | BATTERY_FULL | BATTERY_CHARGING | BATTERY_DISCHARGING

definition max17050_state ::
    "'h gauge_env \<Rightarrow> ('h, 'z) max17050_dev_scheme \<Rightarrow> battery_status_e \<times> ('h, 'z) max17050_dev_scheme" where
  "max17050_state E s =
     (let status = (if g_status_charging s then BATTERY_CHARGING else BATTERY_DISCHARGING) in
      if gauge_initialized s
      then (case max17050_capacity E s of
              (Inr value, s1) \<Rightarrow> (if value \<ge> 100 then BATTERY_FULL else status, s1)
            | (Inl _, s1) \<Rightarrow> (status, s1))
      else (status, s))"

section \<open>Configuration after a power-on reset\<close>

text \<open>The macros \<^verbatim>\<open>WRITE_RETRY\<close> and \<^verbatim>\<open>WRITE_VERIFY\<close>: a list of writes, verified or not, up to the first that fails.\<close>

fun write_all :: "'h gauge_env \<Rightarrow> (bool \<times> u8 \<times> u16) list \<Rightarrow> ('h, 'z) max17050_dev_scheme \<Rightarrow> int \<times> ('h, 'z) max17050_dev_scheme" where
  "write_all E [] s = (0, s)"
| "write_all E ((verify, reg, val) # ws) s =
     (let (ret, s1) = (if verify then max17050_reg_write_verify E reg val s else max17050_reg_write_retry E reg val s)
      in if ret \<noteq> 0 then (ret, s1) else write_all E ws s1)"

definition max17050_por_perform_init_config :: "(bool \<times> u8 \<times> u16) list" where
  "max17050_por_perform_init_config =
     (let c = max17050_cfg in
      [(False, 0x1D, cfg_config c), (False, 0x29, cfg_filter c), (False, 0x2A, cfg_relax c), (False, 0x28, cfg_learn c),
       (False, 0x13, cfg_full_soc_thr c)])"

definition max17050_por_write_cell_data :: "(bool \<times> u8 \<times> u16) list" where
  "max17050_por_write_cell_data =
     map (\<lambda>i. (False, 0x80 + word_of_nat i, word_of_int (cfg_cell_data max17050_cfg ! i))) [0..<48]"

fun max17050_por_read_cell_data ::
    "'h gauge_env \<Rightarrow> nat list \<Rightarrow> ('h, 'z) max17050_dev_scheme \<Rightarrow> u16 list \<times> ('h, 'z) max17050_dev_scheme" where
  "max17050_por_read_cell_data E [] s = ([], s)"
| "max17050_por_read_cell_data E (i # is) s =
     (let (ret, s1) = max17050_reg_read_retry E (0x80 + word_of_nat i) s;
          (ds, s2) = max17050_por_read_cell_data E is s1
      in (word_of_int ret # ds, s2))"

definition max17050_por_cell_data_correct ::
    "'h gauge_env \<Rightarrow> ('h, 'z) max17050_dev_scheme \<Rightarrow> bool \<times> ('h, 'z) max17050_dev_scheme" where
  "max17050_por_cell_data_correct E s =
     (let (ds, s1) = max17050_por_read_cell_data E [0..<48] s in (map uint ds = cfg_cell_data max17050_cfg, s1))"

definition max17050_por_model_locked ::
    "'h gauge_env \<Rightarrow> ('h, 'z) max17050_dev_scheme \<Rightarrow> bool \<times> ('h, 'z) max17050_dev_scheme" where
  "max17050_por_model_locked E s =
     (let (ds, s1) = max17050_por_read_cell_data E [0..<48] s in (list_all (\<lambda>d. d = 0) ds, s1))"

text \<open>The two loops: unlock, write and compare the model; lock it and see that it reads as zero.\<close>

definition max17050_por_load_model ::
    "'h gauge_env \<Rightarrow> ('h, 'z) max17050_dev_scheme \<Rightarrow> int \<times> ('h, 'z) max17050_dev_scheme" where
  "max17050_por_load_model E s =
     (let load = (\<lambda>s. let (r, s1) = write_all E [(False, 0x62, 0x59), (False, 0x63, 0xC4)] s in
                      if r < 0 then (- EIO, s1)
                      else
                        (let (r, s2) = write_all E max17050_por_write_cell_data s1 in
                         if r < 0 then (- EIO, s2)
                         else
                           (let (ok, s3) = max17050_por_cell_data_correct E s2
                            in (if ok then 0 else - EIO, s3))));
          lock = (\<lambda>s. let (r, s1) = write_all E [(False, 0x62, 0x00), (False, 0x63, 0x00)] s in
                      if r < 0 then (- EIO, s1)
                      else (let (ok, s2) = max17050_por_model_locked E s1 in (if ok then 0 else - EIO, s2)));
          (ret, s1) = op_tries load 7 s
      in if ret \<noteq> 0 then (- EIO, s1) else op_tries lock 7 s1)"

definition max17050_por_write_custom_params :: "(bool \<times> u8 \<times> u16) list" where
  "max17050_por_write_custom_params =
     (let c = max17050_cfg in
      [(True, 0x38, cfg_rcomp0 c), (True, 0x39, cfg_tempco c), (False, 0x1E, cfg_ichg_term c), (False, 0x2C, cfg_tgain c),
       (False, 0x2D, cfg_toff c), (True, 0x12, cfg_qr_table_00 c), (True, 0x22, cfg_qr_table_10 c),
       (True, 0x32, cfg_qr_table_20 c), (True, 0x42, cfg_qr_table_30 c)])"

definition max17050_por_update_full_capacity_params :: "(bool \<times> u8 \<times> u16) list" where
  "max17050_por_update_full_capacity_params =
     (let c = max17050_cfg in
      [(True, 0x10, word_of_int (cfg_capacity c)), (False, 0x18, word_of_int (cfg_vf_fullcap c)),
       (True, 0x23, word_of_int (cfg_vf_fullcap c))])"

definition max17050_por_write_vfsoc_and_qh0 ::
    "'h gauge_env \<Rightarrow> ('h, 'z) max17050_dev_scheme \<Rightarrow> int \<times> ('h, 'z) max17050_dev_scheme" where
  "max17050_por_write_vfsoc_and_qh0 E s =
     (let (vfsoc, s1) = max17050_reg_read_retry E 0xFF s;
          (qh, s2) = max17050_reg_read_retry E 0x4D s1
      in if vfsoc < 0 \<or> qh < 0 then (- EIO, s2)
         else write_all E [(False, 0x60, 0x80), (True, 0x48, word_of_int vfsoc), (False, 0x4C, word_of_int qh), (False, 0x60, 0x00)] s2)"

definition max17050_por_load_new_capacity_params ::
    "'h gauge_env \<Rightarrow> ('h, 'z) max17050_dev_scheme \<Rightarrow> int \<times> ('h, 'z) max17050_dev_scheme" where
  "max17050_por_load_new_capacity_params E s =
     (let (vfsoc, s1) = max17050_reg_read_retry E 0xFF s;
          c = max17050_cfg;
          remcap = vfsoc * cfg_vf_fullcap c sdiv 25600;
          repcap = remcap * cfg_capacity c sdiv cfg_vf_fullcap c;
          dq_acc = cfg_vf_fullcap c sdiv 16
      in if vfsoc < 0 then (- EIO, s1)
         else write_all E
           [(True, 0x0F, word_of_int remcap), (True, 0x05, word_of_int repcap), (True, 0x46, 0x0C80), (True, 0x45, word_of_int dq_acc),
            (True, 0x10, word_of_int (cfg_capacity c)), (False, 0x18, word_of_int (cfg_vf_fullcap c)),
            (True, 0x23, word_of_int (cfg_vf_fullcap c)), (False, 0x06, word_of_int vfsoc)] s1)"

text \<open>One step of the configuration after another, up to the first that does not return 0.\<close>

fun por_steps :: "('s \<Rightarrow> int \<times> 's) list \<Rightarrow> 's \<Rightarrow> int \<times> 's" where
  "por_steps [] s = (0, s)"
| "por_steps (f # fs) s = (let (ret, s1) = f s in if ret \<noteq> 0 then (- EIO, s1) else por_steps fs s1)"

definition max17050_por_init ::
    "'h gauge_env \<Rightarrow> ('h, 'z) max17050_dev_scheme \<Rightarrow> int \<times> ('h, 'z) max17050_dev_scheme" where
  "max17050_por_init E s =
     (let (ret, s1) = max17050_reg_write_retry E 0x2E 0x4000 s in
      if ret \<noteq> 0 then (ret, s1)
      else
        (let (ret, s2) = por_steps
               [write_all E max17050_por_perform_init_config, max17050_por_load_model E,
                write_all E max17050_por_write_custom_params, write_all E max17050_por_update_full_capacity_params,
                max17050_por_write_vfsoc_and_qh0 E, write_all E [(True, 0x17, 96)], max17050_por_load_new_capacity_params E] s1
         in if ret \<noteq> 0 then (ret, s2)
            else
              (let (ret, s3) = max17050_reg_modify_retry E 0x00 0x0002 0 s2 in
               if ret \<noteq> 0 then (- EIO, s3)
               else
                 (let (status, s4) = max17050_reg_read_retry E 0x00 s3
                  in (if status \<ge> 0 \<and> status AND 2 = 0 then 0 else - EIO, s4)))))"

section \<open>Alerts\<close>

definition max17050_enable_alrt ::
    "'h gauge_env \<Rightarrow> bool \<Rightarrow> ('h, 'z) max17050_dev_scheme \<Rightarrow> int \<times> ('h, 'z) max17050_dev_scheme" where
  "max17050_enable_alrt E state s = max17050_reg_modify_retry E 0x1D 0x0004 (if state then 0x0004 else NOT 0x0004) s"

text \<open>
  The voltage alert serves the empty battery detection only: a maximum of \<^verbatim>\<open>INT_MIN\<close> marks its requests,
  and its minimum is only used where nothing else has set one. The limits are remembered before they
  are written.
\<close>

definition max17050_set_voltage_alert ::
    "'h gauge_env \<Rightarrow> int \<Rightarrow> int \<Rightarrow> ('h, 'z) max17050_dev_scheme \<Rightarrow> int \<times> ('h, 'z) max17050_dev_scheme" where
  "max17050_set_voltage_alert E mn mx s =
     (let detector = (mx = INT_MIN);
          s1 = (if detector then s\<lparr>empty_battery_detection := (mn \<noteq> INT_MIN)\<rparr> else s);
          mx = (if detector then snd (valrt_limits s1) else mx)
      in if detector \<and> empty_battery_detection s1 \<and> fst (valrt_limits s1) \<noteq> INT_MIN then (0, s1)
         else
           (let mn = (if \<not> detector \<and> mn = INT_MIN \<and> empty_battery_detection s1 then 3000 else mn);
                valrt_min = (if mn = INT_MIN then 0x00 else word_of_int (mn sdiv 20)) :: u16;
                valrt_max = (if mx = INT_MAX then 0xFF else word_of_int (mx sdiv 20)) :: u16
            in max17050_reg_write E 0x01 (valrt_min OR push_bit 8 valrt_max) (s1\<lparr>valrt_limits := (mn, mx)\<rparr>)))"

text \<open>A temperature limit as a byte in two's complement, \<open>None\<close> where it is out of range.\<close>

definition talrt_byte :: "int \<Rightarrow> u16 option" where
  "talrt_byte t =
     (if t < - 128 \<or> t > 127 then None
      else if t \<ge> 0 then Some (word_of_int t)
      else Some ((NOT (word_of_int (- t)) + 1) AND 0x00FF))"

definition max17050_set_temperature_alert ::
    "'h gauge_env \<Rightarrow> int \<Rightarrow> int \<Rightarrow> ('h, 'z) max17050_dev_scheme \<Rightarrow> int \<times> ('h, 'z) max17050_dev_scheme" where
  "max17050_set_temperature_alert E mn mx s =
     (case (if mn = INT_MIN then Some 0x80 else talrt_byte mn) of
        None \<Rightarrow> (- EINVAL, s)
      | Some talrt_min \<Rightarrow>
          (case (if mx = INT_MAX then Some 0x7F else talrt_byte mx) of
             None \<Rightarrow> (- EINVAL, s)
           | Some talrt_max \<Rightarrow>
               max17050_reg_write E 0x02 (talrt_min OR push_bit 8 talrt_max) (s\<lparr>talrt_limits := (mn, mx)\<rparr>)))"

definition max17050_set_soc_alert ::
    "'h gauge_env \<Rightarrow> int \<Rightarrow> int \<Rightarrow> ('h, 'z) max17050_dev_scheme \<Rightarrow> int \<times> ('h, 'z) max17050_dev_scheme" where
  "max17050_set_soc_alert E mn mx s =
     (let salrt_min = (if mn = INT_MIN then 0x00 else word_of_int mn) :: u16;
          salrt_max = (if mx = INT_MAX then 0xFF else word_of_int mx) :: u16
      in max17050_reg_write E 0x03 (salrt_min OR push_bit 8 salrt_max) (s\<lparr>salrt_limits := (mn, mx)\<rparr>))"

definition max17050_battery_level_empty_detection ::
    "'h gauge_env \<Rightarrow> bool \<Rightarrow> ('h, 'z) max17050_dev_scheme \<Rightarrow> ('h, 'z) max17050_dev_scheme" where
  "max17050_battery_level_empty_detection E enable s =
     snd (max17050_set_voltage_alert E (if enable then 3000 else INT_MIN) INT_MIN s)"

definition max17050_battery_level_set_empty ::
    "'h gauge_env \<Rightarrow> ('h, 'z) max17050_dev_scheme \<Rightarrow> ('h, 'z) max17050_dev_scheme" where
  "max17050_battery_level_set_empty E s = snd (max17050_reg_write_verify E 0x05 0 s)"

definition max17050_queue_alrt_work :: "('h, 'z) max17050_dev_scheme \<Rightarrow> ('h, 'z) max17050_dev_scheme" where
  "max17050_queue_alrt_work s = s\<lparr>alrt_work := True\<rparr>"

section \<open>The temperature and level devices\<close>

definition max17050_battery_temp_get_temperature ::
    "'h gauge_env \<Rightarrow> ('h, 'z) max17050_dev_scheme \<Rightarrow> (int + int) \<times> ('h, 'z) max17050_dev_scheme" where
  "max17050_battery_temp_get_temperature E s =
     (let (r, s1) = max17050_temperature E s in (map_sum id (\<lambda>t. t sdiv 10) r, s1))"

definition max17050_battery_temp_set_limits ::
    "'h gauge_env \<Rightarrow> int \<Rightarrow> int \<Rightarrow> ('h, 'z) max17050_dev_scheme \<Rightarrow> int \<times> ('h, 'z) max17050_dev_scheme" where
  "max17050_battery_temp_set_limits E mn mx s =
     max17050_set_temperature_alert E
       (if mn \<noteq> INT_MIN then max17050_thermistor_real_to_fuelgauge (mn * 10) sdiv 10 else mn)
       (if mx \<noteq> INT_MAX then max17050_thermistor_real_to_fuelgauge (mx * 10) sdiv 10 else mx) s"

definition max17050_battery_level_set_limits ::
    "'h gauge_env \<Rightarrow> int \<Rightarrow> int \<Rightarrow> ('h, 'z) max17050_dev_scheme \<Rightarrow> int \<times> ('h, 'z) max17050_dev_scheme" where
  "max17050_battery_level_set_limits E mn mx s =
     (if mn \<noteq> INT_MIN \<and> mn < 0 then (- EINVAL, s)
      else if mx \<noteq> INT_MAX \<and> mx > 100 then (- EINVAL, s)
      else
        (let s1 = s\<lparr>max_soc_alrt := (mx = 100)\<rparr>;
             mx = (if mx = 100 then INT_MAX else mx);
             s2 = max17050_battery_level_empty_detection E (mn \<noteq> INT_MIN) s1;
             mn = (if mn = 0 then INT_MIN else mn)
         in max17050_set_soc_alert E mn mx s2))"

end
