(* ===== verification/Battery.thy ===== *)
theory Battery
  imports Max17050 Ptp "HOL-Library.Monad_Syntax"
begin

text \<open>
  The state of the battery, \<^verbatim>\<open>drivers/power/battery_state.c\<close>, \<^verbatim>\<open>battery_temp.c\<close> and \<^verbatim>\<open>battery_level.c\<close>, and the second
  half of the fuel gauge driver \<^verbatim>\<open>max17050.c\<close>: its devices, alerts, workers and initialisation, which call
  each other. The value \<open>None\<close> is an access through a null pointer. Delays of queued work are left out.
  Configuration: zones at -20, 0, 45, 60 and 70 degrees with 2 degrees of hysteresis, low battery at
  20 percent and 1 percent of hysteresis.
\<close>

section \<open>Data\<close>

datatype battery_temp_zone_e = BATTERY_COLD | BATTERY_COOL | BATTERY_NORMAL | BATTERY_WARM | BATTERY_HOT | BATTERY_COOL_DOWN

record battery_temp_info_s =
  temp_available :: bool
  temp_zone :: battery_temp_zone_e

record battery_level_info_s =
  level_available :: bool
  level_now :: batt_level_e

text \<open>
  The fuel gauge with the three structures above it, \<open>None\<close> where a pointer is null. \<open>batt_clients\<close> counts the
  registered callbacks, and \<open>batt_notified\<close> has every call of one of them with the state it was passed.
\<close>

record 'h battery = "'h max17050_dev" +
  batt_info :: "batt_state_s option"
  batt_clients :: nat
  batt_notified :: "(nat \<times> batt_state_s) list"
  temp_info :: "battery_temp_info_s option"
  level_info :: "battery_level_info_s option"

section \<open>Battery state\<close>

definition battery_notify :: "'h battery \<Rightarrow> 'h battery option" where
  "battery_notify s =
     do { b \<leftarrow> batt_info s;
          Some (s\<lparr>batt_notified := batt_notified s @ map (\<lambda>c. (c, b)) [0..<batt_clients s]\<rparr>) }"

definition battery_state_set_level :: "batt_level_e \<Rightarrow> 'h battery \<Rightarrow> 'h battery option" where
  "battery_state_set_level level s =
     do { b \<leftarrow> batt_info s;
          if batt_level b = level then Some s else battery_notify (s\<lparr>batt_info := Some (b\<lparr>batt_level := level\<rparr>)\<rparr>) }"

definition battery_state_set_temp :: "batt_temp_e \<Rightarrow> 'h battery \<Rightarrow> 'h battery option" where
  "battery_state_set_temp temp s =
     do { b \<leftarrow> batt_info s;
          if batt_temp b = temp then Some s else battery_notify (s\<lparr>batt_info := Some (b\<lparr>batt_temp := temp\<rparr>)\<rparr>) }"

definition battery_state_set_voltage :: "batt_voltage_e \<Rightarrow> 'h battery \<Rightarrow> 'h battery option" where
  "battery_state_set_voltage voltage s =
     do { b \<leftarrow> batt_info s;
          if batt_voltage b = voltage then Some s else battery_notify (s\<lparr>batt_info := Some (b\<lparr>batt_voltage := voltage\<rparr>)\<rparr>) }"

definition battery_state_register :: "bool \<Rightarrow> 'h battery \<Rightarrow> int \<times> 'h battery" where
  "battery_state_register zalloc_ok s =
     (case batt_info s of
        None \<Rightarrow> (- EAGAIN, s)
      | Some b \<Rightarrow>
          if \<not> zalloc_ok then (- ENOMEM, s)
          else (0, s\<lparr>batt_clients := Suc (batt_clients s), batt_notified := batt_notified s @ [(batt_clients s, b)]\<rparr>))"

section \<open>Temperature zones\<close>

text \<open>What a zone reports and its limits.\<close>

definition zone_settings :: "battery_temp_zone_e \<Rightarrow> batt_temp_e \<times> int \<times> int" where
  "zone_settings zone =
     (case zone of
        BATTERY_COLD \<Rightarrow> (BATTERY_TEMP_NO_CHARGING, INT_MIN, - 20 + 2)
      | BATTERY_COOL \<Rightarrow> (BATTERY_TEMP_REDUCED_CHARGING, - 20, 0 + 2)
      | BATTERY_NORMAL \<Rightarrow> (BATTERY_TEMP_NORMAL, 0, 45)
      | BATTERY_WARM \<Rightarrow> (BATTERY_TEMP_REDUCED_CHARGING, 45 - 2, 60)
      | BATTERY_HOT \<Rightarrow> (BATTERY_TEMP_NO_CHARGING, 60 - 2, 70)
      | BATTERY_COOL_DOWN \<Rightarrow> (BATTERY_TEMP_COOL_DOWN, 70 - 2, INT_MAX))"

definition battery_temp_set_zone :: "'h gauge_env \<Rightarrow> battery_temp_zone_e \<Rightarrow> 'h battery \<Rightarrow> 'h battery option" where
  "battery_temp_set_zone E zone s =
     do { info \<leftarrow> temp_info s;
          s1 \<leftarrow> battery_state_set_temp (fst (zone_settings zone)) (s\<lparr>temp_info := Some (info\<lparr>temp_zone := zone\<rparr>)\<rparr>);
          Some (snd (max17050_battery_temp_set_limits E (fst (snd (zone_settings zone))) (snd (snd (zone_settings zone))) s1)) }"

definition next_zone :: "battery_temp_zone_e \<Rightarrow> bool \<Rightarrow> battery_temp_zone_e" where
  "next_zone zone mn =
     (case zone of
        BATTERY_COLD \<Rightarrow> BATTERY_COOL
      | BATTERY_COOL \<Rightarrow> if mn then BATTERY_COLD else BATTERY_NORMAL
      | BATTERY_NORMAL \<Rightarrow> if mn then BATTERY_COOL else BATTERY_WARM
      | BATTERY_WARM \<Rightarrow> if mn then BATTERY_NORMAL else BATTERY_HOT
      | BATTERY_HOT \<Rightarrow> if mn then BATTERY_WARM else BATTERY_COOL_DOWN
      | BATTERY_COOL_DOWN \<Rightarrow> BATTERY_HOT)"

definition battery_temp_limits_cb :: "'h gauge_env \<Rightarrow> bool \<Rightarrow> 'h battery \<Rightarrow> 'h battery option" where
  "battery_temp_limits_cb E mn s =
     do { info \<leftarrow> temp_info s; battery_temp_set_zone E (next_zone (temp_zone info) mn) s }"

definition initial_zone :: "int + int \<Rightarrow> battery_temp_zone_e" where
  "initial_zone temperature =
     (case temperature of
        Inl _ \<Rightarrow> BATTERY_COOL_DOWN
      | Inr t \<Rightarrow>
          if t \<le> - 20 then BATTERY_COLD else if t \<le> 0 then BATTERY_COOL else if t < 45 then BATTERY_NORMAL
          else if t < 60 then BATTERY_WARM else if t < 70 then BATTERY_HOT else BATTERY_COOL_DOWN)"

definition battery_temp_available_cb :: "'h gauge_env \<Rightarrow> bool \<Rightarrow> 'h battery \<Rightarrow> 'h battery option" where
  "battery_temp_available_cb E avail s =
     do { info \<leftarrow> temp_info s;
          if \<not> temp_available info \<and> avail
          then
            (let (t, s1) = max17050_battery_temp_get_temperature E (s\<lparr>temp_info := Some (info\<lparr>temp_available := True\<rparr>)\<rparr>)
             in battery_temp_set_zone E (initial_zone t) s1)
          else if temp_available info \<and> \<not> avail
          then battery_state_set_temp BATTERY_TEMP_UNAVAILABLE (s\<lparr>temp_info := Some (info\<lparr>temp_available := False\<rparr>)\<rparr>)
          else Some s }"

section \<open>Levels\<close>

definition level_limits :: "batt_level_e \<Rightarrow> int \<times> int" where
  "level_limits level =
     (case level of
        BATTERY_LEVEL_EMPTY \<Rightarrow> (INT_MIN, 0 + 1)
      | BATTERY_LEVEL_LOW \<Rightarrow> (0, 20 + 1)
      | BATTERY_LEVEL_NORMAL \<Rightarrow> (20, 100)
      | BATTERY_LEVEL_FULL \<Rightarrow> (100 - 1, INT_MAX))"

definition battery_level_set :: "'h gauge_env \<Rightarrow> batt_level_e \<Rightarrow> 'h battery \<Rightarrow> 'h battery option" where
  "battery_level_set E level s =
     do { info \<leftarrow> level_info s;
          s1 \<leftarrow> battery_state_set_level level (s\<lparr>level_info := Some (info\<lparr>level_now := level\<rparr>)\<rparr>);
          Some (snd (max17050_battery_level_set_limits E (fst (level_limits level)) (snd (level_limits level)) s1)) }"

definition battery_level_limits_cb :: "'h gauge_env \<Rightarrow> bool \<Rightarrow> 'h battery \<Rightarrow> 'h battery option" where
  "battery_level_limits_cb E mn s =
     do { info \<leftarrow> level_info s;
          case level_now info of
            BATTERY_LEVEL_EMPTY \<Rightarrow> if mn then Some s else battery_level_set E BATTERY_LEVEL_LOW s
          | BATTERY_LEVEL_LOW \<Rightarrow> battery_level_set E (if mn then BATTERY_LEVEL_EMPTY else BATTERY_LEVEL_NORMAL) s
          | BATTERY_LEVEL_NORMAL \<Rightarrow> battery_level_set E (if mn then BATTERY_LEVEL_LOW else BATTERY_LEVEL_FULL) s
          | BATTERY_LEVEL_FULL \<Rightarrow> if \<not> mn then Some s else battery_level_set E BATTERY_LEVEL_NORMAL s }"

definition initial_level :: "int + int \<Rightarrow> batt_level_e" where
  "initial_level c =
     (case c of
        Inl _ \<Rightarrow> BATTERY_LEVEL_EMPTY
      | Inr c \<Rightarrow>
          if c \<le> 0 then BATTERY_LEVEL_EMPTY else if c \<le> 20 then BATTERY_LEVEL_LOW
          else if c < 100 then BATTERY_LEVEL_NORMAL else BATTERY_LEVEL_FULL)"

definition battery_level_available_cb :: "'h gauge_env \<Rightarrow> bool \<Rightarrow> 'h battery \<Rightarrow> 'h battery option" where
  "battery_level_available_cb E avail s =
     do { info \<leftarrow> level_info s;
          if \<not> level_available info \<and> avail
          then
            (let (c, s1) = max17050_capacity E (s\<lparr>level_info := Some (info\<lparr>level_available := True\<rparr>)\<rparr>)
             in battery_level_set E (initial_level c) s1)
          else if level_available info \<and> \<not> avail
          then battery_state_set_level BATTERY_LEVEL_EMPTY (s\<lparr>level_info := Some (info\<lparr>level_available := False\<rparr>)\<rparr>)
          else Some s }"

section \<open>Alerts of the fuel gauge\<close>

definition max17050_do_temp_limits_cb :: "'h gauge_env \<Rightarrow> bool \<Rightarrow> 'h battery \<Rightarrow> 'h battery option" where
  "max17050_do_temp_limits_cb E mn s =
     (if gauge_initialized s \<and> temp_limits_cb s then battery_temp_limits_cb E mn s else Some s)"

definition max17050_do_level_limits_cb :: "'h gauge_env \<Rightarrow> bool \<Rightarrow> 'h battery \<Rightarrow> 'h battery option" where
  "max17050_do_level_limits_cb E mn s =
     (if gauge_initialized s \<and> level_limits_cb s then battery_level_limits_cb E mn s else Some s)"

text \<open>
  Both alerts of a kind at once are an error of the chip: the thresholds are remembered and disabled,
  and programmed again in the next run. The status is -1 when the alert line is not asserted, and 0
  when it cannot be read.
\<close>

definition max17050_min_max_alrt :: "'h gauge_env \<Rightarrow> 'h battery \<Rightarrow> int \<times> 'h battery" where
  "max17050_min_max_alrt E s0 =
     (let valrt = min_max_valrt s0; talrt = min_max_talrt s0; salrt = min_max_salrt s0;
          s1 = (if valrt then (snd (max17050_set_voltage_alert E (fst (saved_valrt s0)) (snd (saved_valrt s0)) s0))
                                \<lparr>min_max_valrt := False\<rparr> else s0);
          s2 = (if talrt then (snd (max17050_set_temperature_alert E (fst (saved_talrt s1)) (snd (saved_talrt s1)) s1))
                                \<lparr>min_max_talrt := False\<rparr> else s1);
          s3 = (if salrt then (snd (max17050_set_soc_alert E (fst (saved_salrt s2)) (snd (saved_salrt s2)) s2))
                                \<lparr>min_max_salrt := False\<rparr> else s2)
      in if alrt_gpio s3 \<ge> 0 \<and> alrt_released s3 then (- 1, s3)
         else
           (let (status, s4) = max17050_reg_read_retry E 0x00 s3 in
            if status < 0 then (0, s4)
            else
              (let vboth = (status AND 0x100 \<noteq> 0 \<and> status AND 0x1000 \<noteq> 0);
                   status1 = (if valrt \<or> vboth then status AND NOT (0x100 OR 0x1000) else status);
                   s5 = (if \<not> valrt \<and> vboth
                         then snd (max17050_set_voltage_alert E INT_MIN INT_MAX
                                     (s4\<lparr>min_max_valrt := True, saved_valrt := valrt_limits s4\<rparr>)) else s4);
                   tboth = (status1 AND 0x200 \<noteq> 0 \<and> status1 AND 0x2000 \<noteq> 0);
                   status2 = (if talrt \<or> tboth then status1 AND NOT (0x200 OR 0x2000) else status1);
                   s6 = (if \<not> talrt \<and> tboth
                         then snd (max17050_set_temperature_alert E INT_MIN INT_MAX
                                     (s5\<lparr>min_max_talrt := True, saved_talrt := talrt_limits s5\<rparr>)) else s5);
                   sboth = (status2 AND 0x400 \<noteq> 0 \<and> status2 AND 0x4000 \<noteq> 0);
                   status3 = (if salrt \<or> sboth then status2 AND NOT (0x400 OR 0x4000) else status2);
                   s7 = (if \<not> salrt \<and> sboth
                         then snd (max17050_set_soc_alert E INT_MIN INT_MAX
                                     (s6\<lparr>min_max_salrt := True, saved_salrt := salrt_limits s6\<rparr>)) else s6)
               in (status3, s7))))"

definition max17050_alrt_worker :: "'h gauge_env \<Rightarrow> 'h battery \<Rightarrow> 'h battery option" where
  "max17050_alrt_worker E s =
     (if \<not> gauge_initialized s then Some s
      else
        (let (status, s1) = max17050_min_max_alrt E s in
         if status < 0 then Some s1
         else
           do { s3 \<leftarrow> (if status > 0
                       then
                         do { s2 \<leftarrow> (if status AND 0x100 \<noteq> 0 \<and> fst (valrt_limits s1) = 3000
                                    then max17050_do_level_limits_cb E True (max17050_battery_level_set_empty E s1)
                                    else if status AND 0x400 \<noteq> 0 then max17050_do_level_limits_cb E True s1
                                    else if status AND 0x4000 \<noteq> 0 then max17050_do_level_limits_cb E False s1
                                    else Some s1);
                              if status AND 0x200 \<noteq> 0 then max17050_do_temp_limits_cb E True s2
                              else if status AND 0x2000 \<noteq> 0 then max17050_do_temp_limits_cb E False s2
                              else Some s2 }
                       else Some s1);
                Some (max17050_queue_alrt_work s3) }))"

definition max17050_alrt_isr :: "'h battery \<Rightarrow> 'h battery" where
  "max17050_alrt_isr s = (if alrt_work s then s else s\<lparr>alrt_work := True\<rparr>)"

section \<open>Initialisation of the fuel gauge\<close>

definition max17050_set_initialized :: "'h gauge_env \<Rightarrow> bool \<Rightarrow> 'h battery \<Rightarrow> 'h battery option" where
  "max17050_set_initialized E state s0 =
     (if state = gauge_initialized s0 then Some s0
      else
        (let s = s0\<lparr>gauge_initialized := state\<rparr>;
             s = (if state then s else s\<lparr>min_max_valrt := False, min_max_talrt := False, min_max_salrt := False\<rparr>)
         in do { s1 \<leftarrow> (if temp_available_cb s then battery_temp_available_cb E state s else Some s);
                 s2 \<leftarrow> Some (if state then s1 else snd (max17050_set_temperature_alert E INT_MIN INT_MAX s1));
                 s3 \<leftarrow> (if level_available_cb s2 then battery_level_available_cb E state s2 else Some s2);
                 s4 \<leftarrow> Some (if state then s3
                            else max17050_battery_level_set_empty E
                                   (max17050_battery_level_empty_detection E False
                                      (snd (max17050_set_soc_alert E INT_MIN INT_MAX s3))));
                 Some (if state then max17050_queue_alrt_work (snd (max17050_enable_alrt E True s4))
                       else snd (max17050_enable_alrt E False s4)) }))"

definition max17050_por :: "'h gauge_env \<Rightarrow> 'h battery \<Rightarrow> 'h battery option" where
  "max17050_por E s =
     (let (ret, s1) = max17050_por_init E s in
      if ret = 0
      then do { s2 \<leftarrow> max17050_set_initialized E True s1;
                Some (snd (max17050_reg_write E 0x20 (cfg_version max17050_cfg) s2)) }
      else Some s1)"

definition max17050_new_config :: "'h gauge_env \<Rightarrow> 'h battery \<Rightarrow> bool \<times> 'h battery" where
  "max17050_new_config E s =
     (let (ret, s1) = max17050_reg_read_retry E 0x20 s
      in (ret \<ge> 0 \<and> uint (cfg_version max17050_cfg) \<noteq> ret, s1))"

text \<open>A configuration that has to be loaded is left to a thread of its own.\<close>

definition max17050_batt_is_good_worker :: "'h gauge_env \<Rightarrow> 'h battery \<Rightarrow> 'h battery option" where
  "max17050_batt_is_good_worker E s =
     (let (ret, s1) = max17050_reg_read_retry E 0x21 s in
      if ret < 0 \<or> ret \<noteq> 0x00AC then max17050_set_initialized E False s1
      else
        (let (ret, s2) = max17050_reg_read_retry E 0x00 s1 in
         if ret < 0 then max17050_set_initialized E False s2
         else
           (let (load, s3) = (if ret AND 2 \<noteq> 0 then (True, s2) else max17050_new_config E s2) in
            if load
            then do { s4 \<leftarrow> max17050_set_initialized E False s3; Some (s4\<lparr>por_threads := Suc (por_threads s4)\<rparr>) }
            else max17050_set_initialized E True s3)))"

definition max17050_batt_is_bad_worker :: "'h gauge_env \<Rightarrow> 'h battery \<Rightarrow> 'h battery option" where
  "max17050_batt_is_bad_worker E s = max17050_set_initialized E False s"

definition max17050_battery_good :: "bool \<Rightarrow> 'h battery \<Rightarrow> 'h battery" where
  "max17050_battery_good good s = s\<lparr>batt_good_work := Some good\<rparr>"

text \<open>
  The results of \<^verbatim>\<open>kmm_zalloc\<close> and \<^verbatim>\<open>I2C_SETADDRESS\<close>, and of registering with the battery good device where there is
  one. The structure is fresh; the state of the chip and the static variables are as they were.
\<close>

definition max17050_initialize ::
    "'h gauge_env \<Rightarrow> bool \<Rightarrow> int \<Rightarrow> int option \<Rightarrow> int \<Rightarrow> 'h battery \<Rightarrow> bool \<times> 'h battery" where
  "max17050_initialize E zalloc_ok setaddress_ret batt_good gpio s0 =
     (if cfg_sns_resistor max17050_cfg = 0 then (False, s0)
      else if \<not> zalloc_ok then (False, s0)
      else if setaddress_ret \<noteq> 0 then (False, s0)
      else
        (let s = s0\<lparr>gauge_initialized := False, batt_good_work := None, alrt_work := False, alrt_gpio := gpio,
                    min_max_valrt := False, min_max_talrt := False, min_max_salrt := False,
                    valrt_limits := (0, 0), talrt_limits := (0, 0), salrt_limits := (0, 0),
                    temp_limits_cb := False, temp_available_cb := False, level_limits_cb := False, level_available_cb := False,
                    max_soc_alrt := False, eoc_counter := 0, state_changed_work := False, eoc_work := False\<rparr>;
             s1 = snd (max17050_enable_alrt E False
                    (snd (max17050_set_temperature_alert E INT_MIN INT_MAX
                      (snd (max17050_set_voltage_alert E INT_MIN INT_MAX
                        (snd (max17050_set_soc_alert E INT_MIN INT_MAX s)))))));
             s2 = s1\<lparr>valrt_limits := (INT_MIN, INT_MAX), gauge_present := True\<rparr>
         in case batt_good of
              Some ret \<Rightarrow> if ret \<noteq> 0 then (False, s2\<lparr>gauge_present := False\<rparr>) else (True, s2)
            | None \<Rightarrow> (True, s2\<lparr>batt_good_work := Some True\<rparr>)))"

section \<open>The devices on the fuel gauge\<close>

text \<open>\<^verbatim>\<open>open\<close> of both devices.\<close>

definition max17050_battery_temp_open :: "'h battery \<Rightarrow> int" where
  "max17050_battery_temp_open s = (if gauge_present s then 0 else - ENODEV)"

definition max17050_battery_temp_close :: "'h gauge_env \<Rightarrow> 'h battery \<Rightarrow> 'h battery" where
  "max17050_battery_temp_close E s =
     (snd (max17050_set_temperature_alert E INT_MIN INT_MAX s))\<lparr>temp_limits_cb := False, temp_available_cb := False\<rparr>"

definition max17050_battery_temp_register_limits_cb :: "'h battery \<Rightarrow> int \<times> 'h battery" where
  "max17050_battery_temp_register_limits_cb s =
     (if temp_limits_cb s then (- EEXIST, s) else (0, s\<lparr>temp_limits_cb := True\<rparr>))"

definition max17050_battery_temp_register_available_cb :: "'h gauge_env \<Rightarrow> 'h battery \<Rightarrow> (int \<times> 'h battery) option" where
  "max17050_battery_temp_register_available_cb E s =
     (if temp_available_cb s then Some (- EEXIST, s)
      else
        do { s1 \<leftarrow> battery_temp_available_cb E (gauge_initialized s) (s\<lparr>temp_available_cb := True\<rparr>);
             Some (0, if gauge_initialized s1 then max17050_queue_alrt_work s1 else s1) })"

definition max17050_battery_level_close :: "'h gauge_env \<Rightarrow> 'h battery \<Rightarrow> 'h battery" where
  "max17050_battery_level_close E s =
     (max17050_battery_level_empty_detection E False (snd (max17050_set_soc_alert E INT_MIN INT_MAX s)))
       \<lparr>level_limits_cb := False, level_available_cb := False\<rparr>"

definition max17050_battery_level_register_limits_cb :: "'h battery \<Rightarrow> int \<times> 'h battery" where
  "max17050_battery_level_register_limits_cb s =
     (if level_limits_cb s then (- EEXIST, s) else (0, s\<lparr>level_limits_cb := True\<rparr>))"

definition max17050_battery_level_register_available_cb :: "'h gauge_env \<Rightarrow> 'h battery \<Rightarrow> (int \<times> 'h battery) option" where
  "max17050_battery_level_register_available_cb E s =
     (if level_available_cb s then Some (- EEXIST, s)
      else
        do { s1 \<leftarrow> battery_level_available_cb E (gauge_initialized s) (s\<lparr>level_available_cb := True\<rparr>);
             Some (0, if gauge_initialized s1 then max17050_queue_alrt_work s1 else s1) })"

section \<open>End of charge\<close>

definition max17050_voltage_capacity :: "'h gauge_env \<Rightarrow> 'h battery \<Rightarrow> (int + int) \<times> 'h battery" where
  "max17050_voltage_capacity E s =
     (if \<not> gauge_initialized s then (Inl (- EAGAIN), s)
      else (let (ret, s1) = max17050_reg_read E 0xFF s in (if ret < 0 then Inl (- ENODEV) else Inr (drop_bit 8 ret), s1)))"

definition max17050_battery_level_charge_complete :: "'h gauge_env \<Rightarrow> 'h battery \<Rightarrow> int \<times> 'h battery" where
  "max17050_battery_level_charge_complete E s =
     (let (repcap, s1) = max17050_reg_read E 0x05 s in
      if repcap < 0 then (repcap, s1) else max17050_reg_write_verify E 0x10 (word_of_int repcap) s1)"

definition max17050_battery_level_eoc_conditions :: "'h gauge_env \<Rightarrow> 'h battery \<Rightarrow> bool \<times> 'h battery" where
  "max17050_battery_level_eoc_conditions E s =
     (case max17050_get_current E False s of
        (Inl _, s1) \<Rightarrow> (False, s1)
      | (Inr current, s1) \<Rightarrow>
          (case max17050_get_current E True s1 of
             (Inl _, s2) \<Rightarrow> (False, s2)
           | (Inr a_current, s2) \<Rightarrow>
               (case max17050_voltage_capacity E s2 of
                  (Inl _, s3) \<Rightarrow> (False, s3)
                | (Inr v_capacity, s3) \<Rightarrow>
                    (5 \<le> current sdiv 1000 \<and> current sdiv 1000 \<le> 16 \<and>
                     5 \<le> a_current sdiv 1000 \<and> a_current sdiv 1000 \<le> 16 \<and> 99 \<le> v_capacity, s3))))"

definition max17050_battery_level_eoc_worker :: "'h gauge_env \<Rightarrow> 'h battery \<Rightarrow> 'h battery option" where
  "max17050_battery_level_eoc_worker E s =
     (let (eoc, s1) = max17050_battery_level_eoc_conditions E s;
          s2 = (if eoc
                then (let s2 = s1\<lparr>eoc_counter := eoc_counter s1 + 1\<rparr>
                      in if eoc_counter s2 = 15 then snd (max17050_battery_level_charge_complete E s2) else s2)
                else s1\<lparr>eoc_counter := 0\<rparr>)
      in do { s3 \<leftarrow> (if eoc_counter s2 > 15 \<and> max_soc_alrt s2 then max17050_do_level_limits_cb E False s2 else Some s2);
              Some (s3\<lparr>eoc_work := True\<rparr>) })"

definition max17050_battery_level_state_changed_worker :: "'h battery \<Rightarrow> 'h battery" where
  "max17050_battery_level_state_changed_worker s =
     (if g_status_charging s then (if eoc_work s then s else s\<lparr>eoc_counter := 0, eoc_work := True\<rparr>)
      else s\<lparr>eoc_work := False\<rparr>)"

definition battery_set_status :: "bool \<Rightarrow> 'h battery \<Rightarrow> 'h battery option" where
  "battery_set_status charging s =
     (if g_status_charging s = charging then Some s
      else if \<not> gauge_present s then None
      else Some (s\<lparr>g_status_charging := charging, state_changed_work := True\<rparr>))"

text \<open>Power management: no standby (state 2) while charging.\<close>

definition max17050_pm_prepare :: "int \<Rightarrow> 'h battery \<Rightarrow> int" where
  "max17050_pm_prepare state s = (if state \<ge> 2 \<and> g_status_charging s then - EBUSY else 0)"

section \<open>Starting\<close>

text \<open>\<open>found\<close>: \<^verbatim>\<open>device_open\<close> finds the driver; it then calls its \<^verbatim>\<open>open\<close>.\<close>

definition battery_level_start :: "'h gauge_env \<Rightarrow> bool \<Rightarrow> bool \<Rightarrow> 'h battery \<Rightarrow> (int \<times> 'h battery) option" where
  "battery_level_start E zalloc_ok found s0 =
     do { s \<leftarrow> battery_state_set_level BATTERY_LEVEL_EMPTY s0;
          if \<not> zalloc_ok then Some (- ENOMEM, s)
          else if \<not> (found \<and> gauge_present s) then Some (EIO, s)
          else
            (let info = \<lparr>level_available = False, level_now = BATTERY_LEVEL_EMPTY\<rparr>;
                 (ret, s1) = max17050_battery_level_register_limits_cb s
             in if ret \<noteq> 0 then Some (ret, max17050_battery_level_close E s1)
                else
                  do { (ret, s2) \<leftarrow> max17050_battery_level_register_available_cb E (s1\<lparr>level_info := Some info\<rparr>);
                       if ret \<noteq> 0 then Some (ret, (max17050_battery_level_close E s2)\<lparr>level_info := None\<rparr>)
                       else Some (0, s2) }) }"

definition battery_level_stop :: "'h gauge_env \<Rightarrow> 'h battery \<Rightarrow> 'h battery" where
  "battery_level_stop E s = (max17050_battery_level_close E s)\<lparr>level_info := None\<rparr>"

definition battery_temp_start :: "'h gauge_env \<Rightarrow> bool \<Rightarrow> bool \<Rightarrow> 'h battery \<Rightarrow> (int \<times> 'h battery) option" where
  "battery_temp_start E zalloc_ok found s0 =
     do { s \<leftarrow> battery_state_set_temp BATTERY_TEMP_UNAVAILABLE s0;
          if \<not> zalloc_ok then Some (- ENOMEM, s)
          else if \<not> (found \<and> gauge_present s) then Some (EIO, s)
          else
            (let info = \<lparr>temp_available = False, temp_zone = BATTERY_COLD\<rparr>;
                 (ret, s1) = max17050_battery_temp_register_limits_cb s
             in if ret \<noteq> 0 then Some (ret, max17050_battery_temp_close E s1)
                else
                  do { (ret, s2) \<leftarrow> max17050_battery_temp_register_available_cb E (s1\<lparr>temp_info := Some info\<rparr>);
                       if ret \<noteq> 0 then Some (ret, (max17050_battery_temp_close E s2)\<lparr>temp_info := None\<rparr>)
                       else Some (0, s2) }) }"

definition battery_temp_stop :: "'h gauge_env \<Rightarrow> 'h battery \<Rightarrow> 'h battery" where
  "battery_temp_stop E s = (max17050_battery_temp_close E s)\<lparr>temp_info := None\<rparr>"

text \<open>The allocations of the three structures; without a voltage device the voltage is always quick charge.\<close>

definition battery_state_init ::
    "'h gauge_env \<Rightarrow> bool \<times> bool \<times> bool \<Rightarrow> bool \<times> bool \<Rightarrow> 'h battery \<Rightarrow> (int \<times> 'h battery) option" where
  "battery_state_init E zalloc_ok found s0 =
     (if \<not> fst zalloc_ok then Some (- ENOMEM, s0\<lparr>batt_info := None\<rparr>)
      else
        (let s = s0\<lparr>batt_info := Some \<lparr>batt_temp = BATTERY_TEMP_NORMAL, batt_level = BATTERY_LEVEL_EMPTY,
                                       batt_voltage = BATTERY_QUICK_CHARGE\<rparr>, batt_clients := 0\<rparr> in
         do { (ret, s1) \<leftarrow> battery_level_start E (fst (snd zalloc_ok)) (fst found) s;
              if ret \<noteq> 0 then Some (ret, s1\<lparr>batt_info := None\<rparr>)
              else
                do { (ret, s2) \<leftarrow> battery_temp_start E (snd (snd zalloc_ok)) (snd found) s1;
                     if ret \<noteq> 0 then Some (ret, (battery_level_stop E s2)\<lparr>batt_info := None\<rparr>)
                     else do { s3 \<leftarrow> battery_state_set_voltage BATTERY_QUICK_CHARGE s2; Some (0, s3) } } }))"

end
