(* ===== verification/BatteryProps.thy ===== *)
theory BatteryProps
  imports Battery
begin

text \<open>
  The fuel gauge and the battery state: conversions and thresholds, the invariant of every reachable
  state, the zone the battery settles in, and where the driver does not do what it means to.
\<close>

section \<open>Transfers only touch the chip\<close>

definition touched :: "('h, 'z) max17050_dev_scheme \<Rightarrow> ('h, 'z) max17050_dev_scheme \<Rightarrow> bool" where
  "touched s s' \<longleftrightarrow> (\<exists>n h. s' = s\<lparr>transfers := n, chip := h\<rparr>)"

lemma touchedI [intro]: "touched s (s\<lparr>transfers := n, chip := h\<rparr>)" "touched s (s\<lparr>transfers := n\<rparr>)" "touched s s"
proof -
  show "touched s (s\<lparr>transfers := n, chip := h\<rparr>)" by (auto simp: touched_def)
  have "s\<lparr>transfers := n\<rparr> = s\<lparr>transfers := n, chip := chip s\<rparr>" "s = s\<lparr>transfers := transfers s, chip := chip s\<rparr>" by simp_all
  then show "touched s (s\<lparr>transfers := n\<rparr>)" "touched s s" unfolding touched_def by blast+
qed

lemma touched_trans:
  assumes "touched s s1" "touched s1 s2"
  shows "touched s s2"
proof -
  from assms obtain n h n' h' where "s1 = s\<lparr>transfers := n, chip := h\<rparr>" "s2 = s1\<lparr>transfers := n', chip := h'\<rparr>"
    by (auto simp: touched_def)
  then have "s2 = s\<lparr>transfers := n', chip := h'\<rparr>" by simp
  then show ?thesis by (simp only: touchedI)
qed

lemma read_touched [simp]: "touched s (snd (snd (i2c_writeread E reg s)))" "touched s (snd (max17050_reg_read E reg s))"
  by (auto simp: i2c_writeread_def max17050_reg_read_def split_beta Let_def)

lemma write_touched [simp]: "touched s (snd (max17050_reg_write E reg v s))"
  by (auto simp: max17050_reg_write_def Let_def)

declare op_tries.simps [simp del] read_tries.simps [simp del]

lemma read_tries_touched: "touched s (snd (read_tries E reg n s))"
proof (induction n arbitrary: s)
  case 0
  then show ?case by (simp add: read_tries.simps split_beta Let_def)
next
  case (Suc n)
  then show ?case
    by (auto simp: read_tries.simps [of E reg "Suc n"] split_beta Let_def intro: touched_trans [OF read_touched(1)])
qed

lemma op_tries_touched:
  assumes "\<And>s. touched s (snd (f s))"
  shows "touched s (snd (op_tries f n s))"
proof (induction n arbitrary: s)
  case 0
  then show ?case using assms by (simp add: op_tries.simps split_beta Let_def)
next
  case (Suc n)
  then show ?case using assms by (auto simp: op_tries.simps [of f "Suc n"] split_beta Let_def intro: touched_trans)
qed

lemma retry_touched [simp]:
  "touched s (snd (max17050_reg_read_retry E reg s))" "touched s (snd (max17050_reg_write_retry E reg v s))"
  "touched s (snd (max17050_reg_write_verify E reg v s))" "touched s (snd (max17050_reg_modify E reg m v s))"
  "touched s (snd (max17050_reg_modify_retry E reg m v s))"
proof -
  show m: "touched s (snd (max17050_reg_modify E reg m v s))" for s
    by (auto simp: max17050_reg_modify_def split_beta Let_def intro: touched_trans [OF read_touched(2) write_touched])
  show "touched s (snd (max17050_reg_read_retry E reg s))"
    by (simp add: max17050_reg_read_retry_def read_tries_touched)
  show "touched s (snd (max17050_reg_write_retry E reg v s))" "touched s (snd (max17050_reg_modify_retry E reg m v s))"
    by (simp_all add: max17050_reg_write_retry_def max17050_reg_modify_retry_def op_tries_touched m)
  show "touched s (snd (max17050_reg_write_verify E reg v s))"
    unfolding max17050_reg_write_verify_def
    by (rule op_tries_touched) (simp add: split_beta Let_def touched_trans [OF write_touched read_touched(2)])
qed

lemma measured_touched [simp]: "touched s (snd (measured E reg f s))"
  by (auto simp: measured_def split_beta Let_def)

lemma write_all_touched [simp]: "touched s (snd (write_all E ws s))"
proof (induction ws arbitrary: s)
  case (Cons w ws)
  obtain verify reg val where w: "w = (verify, reg, val)" by (cases w)
  let ?r = "if verify then max17050_reg_write_verify E reg val s else max17050_reg_write_retry E reg val s"
  have "touched s (snd ?r)" by simp
  then show ?case using Cons [of "snd ?r"] touched_trans [of s "snd ?r"] by (simp add: w split_beta Let_def)
qed auto

lemma read_cell_touched [simp]: "touched s (snd (max17050_por_read_cell_data E is s))"
  by (induction "is" arbitrary: s) (auto simp: split_beta Let_def intro: touched_trans [OF retry_touched(1)])

lemma por_steps_touched:
  assumes "\<forall>f\<in>set fs. \<forall>s. touched s (snd (f s))"
  shows "touched s (snd (por_steps fs s))"
  using assms by (induction fs arbitrary: s) (auto simp: split_beta Let_def intro: touched_trans)

declare write_all.simps [simp del]

lemma load_model_touched: "touched s (snd (max17050_por_load_model E s))"
proof -
  have c: "touched s (snd (max17050_por_cell_data_correct E s))" "touched s (snd (max17050_por_model_locked E s))" for s
    by (simp_all add: max17050_por_cell_data_correct_def max17050_por_model_locked_def split_beta Let_def)
  note w = write_all_touched and w2 = touched_trans [OF write_all_touched write_all_touched]
  have "touched s (snd (op_tries f 7 (snd (op_tries g 7 s))))" "touched s (snd (op_tries g 7 s))"
    if "\<And>s. touched s (snd (f s))" "\<And>s. touched s (snd (g s))" for f g s
    using that op_tries_touched touched_trans by metis+
  note ot = this
  show ?thesis unfolding max17050_por_load_model_def Let_def split_beta
    by (simp only: split: if_split, intro conjI impI) (simp_all, (rule ot; auto intro: w w2 touched_trans [OF w2 c(1)] touched_trans [OF w c(2)])+)
qed

lemma por_init_touched:
  fixes s :: "('h, 'z) max17050_dev_scheme"
  shows "touched s (snd (max17050_por_init E s))"
proof -
  have v: "touched s (snd (max17050_por_write_vfsoc_and_qh0 E s))" "touched s (snd (max17050_por_load_new_capacity_params E s))"
    for s :: "('h, 'z) max17050_dev_scheme"
    unfolding max17050_por_write_vfsoc_and_qh0_def max17050_por_load_new_capacity_params_def Let_def split_beta
    by (simp_all add: touched_trans [OF retry_touched(1) retry_touched(1)] touched_trans [OF retry_touched(1) write_all_touched]
        touched_trans [OF touched_trans [OF retry_touched(1) retry_touched(1)] write_all_touched] split: if_split)
  define steps :: "(('h, 'z) max17050_dev_scheme \<Rightarrow> int \<times> ('h, 'z) max17050_dev_scheme) list" where
    "steps = [write_all E max17050_por_perform_init_config, max17050_por_load_model E,
    write_all E max17050_por_write_custom_params, write_all E max17050_por_update_full_capacity_params,
    max17050_por_write_vfsoc_and_qh0 E, write_all E [(True, 0x17, 96)], max17050_por_load_new_capacity_params E]"
  have s: "touched s (snd (por_steps steps s))" for s
    by (rule por_steps_touched) (simp add: steps_def v load_model_touched)
  show ?thesis unfolding max17050_por_init_def steps_def [symmetric] Let_def split_beta
    by (simp add: touched_trans [OF retry_touched(2) s] touched_trans [OF touched_trans [OF retry_touched(2) s] retry_touched(5)]
        touched_trans [OF touched_trans [OF touched_trans [OF retry_touched(2) s] retry_touched(5)] retry_touched(1)] split: if_split)
qed

section \<open>What the battery state depends on\<close>

definition bview where
  "bview s = (gauge_present s, gauge_initialized s, (min_max_talrt s, talrt_limits s, saved_talrt s),
     (temp_limits_cb s, temp_available_cb s, level_limits_cb s, level_available_cb s),
     batt_info s, batt_clients s, batt_notified s, temp_info s, level_info s)"

lemma bview_fields:
  assumes "bview s' = bview s"
  shows "gauge_present s' = gauge_present s" "gauge_initialized s' = gauge_initialized s" "min_max_talrt s' = min_max_talrt s"
    "talrt_limits s' = talrt_limits s" "saved_talrt s' = saved_talrt s" "temp_limits_cb s' = temp_limits_cb s"
    "temp_available_cb s' = temp_available_cb s" "level_limits_cb s' = level_limits_cb s" "level_available_cb s' = level_available_cb s"
    "batt_info s' = batt_info s" "batt_clients s' = batt_clients s" "batt_notified s' = batt_notified s" "temp_info s' = temp_info s"
    "level_info s' = level_info s"
  using assms by (simp_all add: bview_def)

lemma bview_touched: "touched s s' \<Longrightarrow> bview s' = bview s"
  by (auto simp: touched_def bview_def)

lemma bview_same [simp]:
  "bview (s\<lparr>alrt_work := x\<rparr>) = bview s" "bview (s\<lparr>max_soc_alrt := x\<rparr>) = bview s" "bview (s\<lparr>eoc_counter := i\<rparr>) = bview s"
  "bview (s\<lparr>eoc_work := x\<rparr>) = bview s" "bview (s\<lparr>state_changed_work := x\<rparr>) = bview s" "bview (s\<lparr>batt_good_work := g\<rparr>) = bview s"
  "bview (s\<lparr>por_threads := n\<rparr>) = bview s" "bview (s\<lparr>g_status_charging := x\<rparr>) = bview s" "bview (s\<lparr>chip := h\<rparr>) = bview s"
  "bview (s\<lparr>alrt_released := x\<rparr>) = bview s" "bview (s\<lparr>valrt_limits := l\<rparr>) = bview s" "bview (s\<lparr>salrt_limits := l\<rparr>) = bview s"
  "bview (s\<lparr>empty_battery_detection := x\<rparr>) = bview s" "bview (s\<lparr>min_max_valrt := x\<rparr>) = bview s" "bview (s\<lparr>saved_valrt := l\<rparr>) = bview s"
  "bview (s\<lparr>min_max_salrt := x\<rparr>) = bview s" "bview (s\<lparr>saved_salrt := l\<rparr>) = bview s"
  by (simp_all add: bview_def)

lemma bview_transfers [simp]:
  "bview (snd (max17050_reg_read E reg s)) = bview s" "bview (snd (max17050_reg_read_retry E reg s)) = bview s"
  "bview (snd (max17050_reg_write E reg v s)) = bview s" "bview (snd (max17050_reg_write_verify E reg v s)) = bview s"
  "bview (snd (max17050_reg_modify_retry E reg m v s)) = bview s" "bview (snd (measured E reg f s)) = bview s"
  "bview (snd (max17050_por_init E s)) = bview s"
  by (rule bview_touched; simp add: por_init_touched)+

lemma bview_alerts [simp]:
  "bview (snd (max17050_set_voltage_alert E a b s)) = bview s" "bview (snd (max17050_set_soc_alert E a b s)) = bview s"
  by (simp_all add: max17050_set_voltage_alert_def max17050_set_soc_alert_def Let_def)

lemma bview_gauge [simp]:
  "bview (max17050_battery_level_empty_detection E x s) = bview s" "bview (max17050_battery_level_set_empty E s) = bview s"
  "bview (snd (max17050_enable_alrt E x s)) = bview s" "bview (max17050_queue_alrt_work s) = bview s"
  by (simp_all add: max17050_battery_level_empty_detection_def max17050_battery_level_set_empty_def max17050_enable_alrt_def
      max17050_queue_alrt_work_def)

lemma bview_level_limits [simp]: "bview (snd (max17050_battery_level_set_limits E a b s)) = bview s"
  by (simp add: max17050_battery_level_set_limits_def Let_def)

text \<open>The limits of a zone as the fuel gauge gets them.\<close>

definition gauge_limit :: "int \<Rightarrow> int" where
  "gauge_limit t = max17050_thermistor_real_to_fuelgauge (t * 10) sdiv 10"

definition zone_alert :: "battery_temp_zone_e \<Rightarrow> int \<times> int" where
  "zone_alert z =
     (case z of BATTERY_COLD \<Rightarrow> (INT_MIN, - 15) | BATTERY_COOL \<Rightarrow> (- 16, 0) | BATTERY_NORMAL \<Rightarrow> (- 2, 44) | BATTERY_WARM \<Rightarrow> (42, 54)
      | BATTERY_HOT \<Rightarrow> (53, 59) | BATTERY_COOL_DOWN \<Rightarrow> (58, INT_MAX))"

lemma gauge_limits:
  "gauge_limit (- 18) = - 15" "gauge_limit (- 20) = - 16" "gauge_limit 2 = 0" "gauge_limit 0 = - 2" "gauge_limit 45 = 44"
  "gauge_limit 43 = 42" "gauge_limit 60 = 54" "gauge_limit 58 = 53" "gauge_limit 70 = 59" "gauge_limit 68 = 58"
  by code_simp+

lemma temperature_alert_form:
  assumes "a = INT_MIN \<or> - 128 \<le> a \<and> a \<le> 127" "b = INT_MAX \<or> - 128 \<le> b \<and> b \<le> 127"
  shows "touched (s\<lparr>talrt_limits := (a, b)\<rparr>) (snd (max17050_set_temperature_alert E a b s))"
proof -
  obtain x y where x: "(if a = INT_MIN then Some 0x80 else talrt_byte a) = Some x"
    and y: "(if b = INT_MAX then Some 0x7F else talrt_byte b) = Some y"
    using assms by (fastforce simp: talrt_byte_def)
  show ?thesis unfolding max17050_set_temperature_alert_def x y by simp
qed

text \<open>Every limit is in the range of the chip, so it is always programmed.\<close>

lemma zone_alert_range:
  "fst (zone_alert z) = INT_MIN \<or> - 128 \<le> fst (zone_alert z) \<and> fst (zone_alert z) \<le> 127"
  "snd (zone_alert z) = INT_MAX \<or> - 128 \<le> snd (zone_alert z) \<and> snd (zone_alert z) \<le> 127"
  by (cases z; simp add: zone_alert_def)+

lemma zone_limits_set:
  "touched (s\<lparr>talrt_limits := zone_alert z\<rparr>)
     (snd (max17050_battery_temp_set_limits E (fst (snd (zone_settings z))) (snd (snd (zone_settings z))) s))"
proof -
  have "max17050_battery_temp_set_limits E (fst (snd (zone_settings z))) (snd (snd (zone_settings z))) s =
      max17050_set_temperature_alert E (fst (zone_alert z)) (snd (zone_alert z)) s"
    using gauge_limits
    by (cases z) (simp_all add: max17050_battery_temp_set_limits_def gauge_limit_def zone_settings_def zone_alert_def)
  then show ?thesis using temperature_alert_form [OF zone_alert_range [of z], of s E] by simp
qed

section \<open>The invariant\<close>

text \<open>What a temperature and a level report, given whether the gauge measures.\<close>

definition temp_report :: "bool \<Rightarrow> battery_temp_zone_e \<Rightarrow> batt_temp_e" where
  "temp_report up z = (if up then fst (zone_settings z) else BATTERY_TEMP_UNAVAILABLE)"

definition level_report :: "bool \<Rightarrow> batt_level_e \<Rightarrow> batt_level_e" where
  "level_report up l = (if up then l else BATTERY_LEVEL_EMPTY)"

text \<open>
  The battery state is what the zone and the level say, every client has been told it last, and while the
  gauge measures, the limits of the zone are programmed, or remembered while both alerts are cleared.
\<close>

definition batt_inv :: "'h battery \<Rightarrow> bool" where
  "batt_inv s \<longleftrightarrow> gauge_present s \<and> temp_limits_cb s \<and> temp_available_cb s \<and> level_limits_cb s \<and> level_available_cb s \<and>
     (\<exists>b t l. batt_info s = Some b \<and> temp_info s = Some t \<and> level_info s = Some l \<and>
        temp_available t = gauge_initialized s \<and> level_available l = gauge_initialized s \<and>
        batt_temp b = temp_report (gauge_initialized s) (temp_zone t) \<and>
        batt_level b = level_report (gauge_initialized s) (level_now l) \<and>
        (\<forall>c<batt_clients s. map_of (rev (batt_notified s)) c = Some b) \<and>
        (if gauge_initialized s then (if min_max_talrt s then saved_talrt s else talrt_limits s) = zone_alert (temp_zone t)
         else \<not> min_max_talrt s))"

lemma inv_cong: "bview s' = bview s \<Longrightarrow> batt_inv s' = batt_inv s"
  using bview_fields [of s' s] by (simp add: batt_inv_def)

lemma inv_queue [simp]: "batt_inv (max17050_queue_alrt_work s) = batt_inv s"
  by (rule inv_cong) simp

lemma notified_last: "c < n \<Longrightarrow> map_of (rev (xs @ map (\<lambda>c. (c, b)) [0..<n])) c = Some b"
  by (simp add: rev_map map_of_map_restrict) 

definition told :: "batt_state_s \<Rightarrow> 'h battery \<Rightarrow> bool" where
  "told b s \<longleftrightarrow> batt_info s = Some b \<and> (\<forall>c<batt_clients s. map_of (rev (batt_notified s)) c = Some b)"

lemma set_temp_told:
  assumes "told b s"
  obtains ns where "battery_state_set_temp t s = Some (s\<lparr>batt_info := Some (b\<lparr>batt_temp := t\<rparr>), batt_notified := ns\<rparr>)"
    "told (b\<lparr>batt_temp := t\<rparr>) (s\<lparr>batt_info := Some (b\<lparr>batt_temp := t\<rparr>), batt_notified := ns\<rparr>)"
proof (cases "batt_temp b = t")
  case True
  then have "s\<lparr>batt_info := Some (b\<lparr>batt_temp := t\<rparr>), batt_notified := batt_notified s\<rparr> = s" "b\<lparr>batt_temp := t\<rparr> = b"
    using assms by (auto simp: told_def)
  then show thesis
    using that [of "batt_notified s"] True assms by (simp add: battery_state_set_temp_def told_def)
next
  case False
  then show thesis
    using that [of "batt_notified s @ map (\<lambda>c. (c, b\<lparr>batt_temp := t\<rparr>)) [0..<batt_clients s]"] assms
    by (simp add: battery_state_set_temp_def told_def battery_notify_def notified_last del: rev_append)
qed

lemma set_level_told:
  assumes "told b s"
  obtains ns where "battery_state_set_level t s = Some (s\<lparr>batt_info := Some (b\<lparr>batt_level := t\<rparr>), batt_notified := ns\<rparr>)"
    "told (b\<lparr>batt_level := t\<rparr>) (s\<lparr>batt_info := Some (b\<lparr>batt_level := t\<rparr>), batt_notified := ns\<rparr>)"
proof (cases "batt_level b = t")
  case True
  then have "s\<lparr>batt_info := Some (b\<lparr>batt_level := t\<rparr>), batt_notified := batt_notified s\<rparr> = s" "b\<lparr>batt_level := t\<rparr> = b"
    using assms by (auto simp: told_def)
  then show thesis
    using that [of "batt_notified s"] True assms by (simp add: battery_state_set_level_def told_def)
next
  case False
  then show thesis
    using that [of "batt_notified s @ map (\<lambda>c. (c, b\<lparr>batt_level := t\<rparr>)) [0..<batt_clients s]"] assms
    by (simp add: battery_state_set_level_def told_def battery_notify_def notified_last del: rev_append)
qed

text \<open>Entering a zone or a level.\<close>

lemma set_zone_form:
  assumes "told b s" "temp_info s = Some i"
  obtains s' ns where "battery_temp_set_zone E z s = Some s'"
    "bview s' = bview (s\<lparr>temp_info := Some (i\<lparr>temp_zone := z\<rparr>), batt_info := Some (b\<lparr>batt_temp := fst (zone_settings z)\<rparr>),
       batt_notified := ns, talrt_limits := zone_alert z\<rparr>)"
    "told (b\<lparr>batt_temp := fst (zone_settings z)\<rparr>) s'"
proof -
  let ?s = "s\<lparr>temp_info := Some (i\<lparr>temp_zone := z\<rparr>)\<rparr>" and ?b = "b\<lparr>batt_temp := fst (zone_settings z)\<rparr>"
  have "told b ?s" using assms(1) by (simp add: told_def)
  then obtain ns where 1: "battery_state_set_temp (fst (zone_settings z)) ?s = Some (?s\<lparr>batt_info := Some ?b, batt_notified := ns\<rparr>)"
    "told ?b (?s\<lparr>batt_info := Some ?b, batt_notified := ns\<rparr>)" by (rule set_temp_told)
  let ?t = "?s\<lparr>batt_info := Some ?b, batt_notified := ns\<rparr>"
  define s' where "s' = snd (max17050_battery_temp_set_limits E (fst (snd (zone_settings z))) (snd (snd (zone_settings z))) ?t)"
  have v: "bview s' = bview (?t\<lparr>talrt_limits := zone_alert z\<rparr>)" unfolding s'_def by (rule bview_touched [OF zone_limits_set])
  moreover have "battery_temp_set_zone E z s = Some s'" using 1(1) assms(2) by (simp add: battery_temp_set_zone_def s'_def)
  moreover have "told ?b s'" using 1(2) bview_fields [OF v] by (simp add: told_def)
  ultimately show thesis using that [of s' ns] by simp
qed

lemma level_set_form:
  assumes "told b s" "level_info s = Some i"
  obtains s' ns where "battery_level_set E l s = Some s'"
    "bview s' = bview (s\<lparr>level_info := Some (i\<lparr>level_now := l\<rparr>), batt_info := Some (b\<lparr>batt_level := l\<rparr>), batt_notified := ns\<rparr>)"
    "told (b\<lparr>batt_level := l\<rparr>) s'"
proof -
  let ?s = "s\<lparr>level_info := Some (i\<lparr>level_now := l\<rparr>)\<rparr>" and ?b = "b\<lparr>batt_level := l\<rparr>"
  have "told b ?s" using assms(1) by (simp add: told_def)
  then obtain ns where 1: "battery_state_set_level l ?s = Some (?s\<lparr>batt_info := Some ?b, batt_notified := ns\<rparr>)"
    "told ?b (?s\<lparr>batt_info := Some ?b, batt_notified := ns\<rparr>)" by (rule set_level_told)
  let ?t = "?s\<lparr>batt_info := Some ?b, batt_notified := ns\<rparr>"
  define s' where "s' = snd (max17050_battery_level_set_limits E (fst (level_limits l)) (snd (level_limits l)) ?t)"
  have v: "bview s' = bview ?t" by (simp add: s'_def)
  moreover have "battery_level_set E l s = Some s'" using 1(1) assms(2) by (simp add: battery_level_set_def s'_def)
  moreover have "told ?b s'" using 1(2) bview_fields [OF v] by (simp add: told_def)
  ultimately show thesis using that [of s' ns] by simp
qed

text \<open>The parts of the invariant.\<close>

lemma invE:
  assumes "batt_inv s"
  obtains b t l where "told b s" "temp_info s = Some t" "level_info s = Some l"
    "temp_available t = gauge_initialized s" "level_available l = gauge_initialized s"
    "batt_temp b = temp_report (gauge_initialized s) (temp_zone t)" "batt_level b = level_report (gauge_initialized s) (level_now l)"
    "if gauge_initialized s then (if min_max_talrt s then saved_talrt s else talrt_limits s) = zone_alert (temp_zone t)
     else \<not> min_max_talrt s"
  using assms by (auto simp: batt_inv_def told_def)

definition zone_of :: "'h battery \<Rightarrow> battery_temp_zone_e" where
  "zone_of s = temp_zone (the (temp_info s))"

definition level_of :: "'h battery \<Rightarrow> batt_level_e" where
  "level_of s = level_now (the (level_info s))"

lemma temp_limits_inv:
  assumes "batt_inv s" "gauge_initialized s" "\<not> min_max_talrt s"
  shows "\<exists>s'. max17050_do_temp_limits_cb E mn s = Some s' \<and> batt_inv s' \<and> gauge_initialized s' \<and> \<not> min_max_talrt s' \<and>
    zone_of s' = next_zone (zone_of s) mn \<and> level_of s' = level_of s"
proof -
  from assms(1) obtain b t l where i: "told b s" "temp_info s = Some t" "level_info s = Some l"
    "level_available l = gauge_initialized s" "batt_level b = level_report (gauge_initialized s) (level_now l)" "temp_available t"
    using assms(2) by (auto elim!: invE)
  let ?z = "next_zone (temp_zone t) mn"
  obtain s' ns where s': "battery_temp_set_zone E ?z s = Some s'"
    "bview s' = bview (s\<lparr>temp_info := Some (t\<lparr>temp_zone := ?z\<rparr>), batt_info := Some (b\<lparr>batt_temp := fst (zone_settings ?z)\<rparr>),
       batt_notified := ns, talrt_limits := zone_alert ?z\<rparr>)" "told (b\<lparr>batt_temp := fst (zone_settings ?z)\<rparr>) s'"
    by (rule set_zone_form [OF i(1,2)])
  have "max17050_do_temp_limits_cb E mn s = Some s'"
    using assms i(2) s'(1) by (simp add: max17050_do_temp_limits_cb_def battery_temp_limits_cb_def batt_inv_def)
  moreover have "batt_inv s'"
    using s'(3) bview_fields [OF s'(2)] assms i by (simp add: batt_inv_def told_def temp_report_def)
  ultimately show ?thesis
    using bview_fields [OF s'(2)] assms i by (simp add: zone_of_def level_of_def)
qed

lemma level_set_inv:
  assumes "batt_inv s" "gauge_initialized s"
  shows "\<exists>s'. battery_level_set E l s = Some s' \<and> batt_inv s' \<and> gauge_initialized s' \<and> min_max_talrt s' = min_max_talrt s \<and>
    zone_of s' = zone_of s \<and> level_of s' = l"
proof -
  from assms(1) obtain b t i where i: "told b s" "temp_info s = Some t" "level_info s = Some i"
    "temp_available t" "batt_temp b = temp_report (gauge_initialized s) (temp_zone t)" "level_available i"
    "(if min_max_talrt s then saved_talrt s else talrt_limits s) = zone_alert (temp_zone t)"
    using assms(2) by (auto elim!: invE)
  obtain s' ns where s': "battery_level_set E l s = Some s'"
    "bview s' = bview (s\<lparr>level_info := Some (i\<lparr>level_now := l\<rparr>), batt_info := Some (b\<lparr>batt_level := l\<rparr>), batt_notified := ns\<rparr>)"
    "told (b\<lparr>batt_level := l\<rparr>) s'"
    by (rule level_set_form [OF i(1,3)])
  have "batt_inv s'"
    using s'(3) bview_fields [OF s'(2)] assms i by (simp add: batt_inv_def told_def level_report_def split: if_splits)
  then show ?thesis
    using s'(1) bview_fields [OF s'(2)] assms i by (simp add: zone_of_def level_of_def)
qed

lemma level_limits_inv:
  assumes "batt_inv s" "gauge_initialized s"
  shows "\<exists>s'. max17050_do_level_limits_cb E mn s = Some s' \<and> batt_inv s' \<and> gauge_initialized s' \<and> min_max_talrt s' = min_max_talrt s \<and>
    zone_of s' = zone_of s"
proof -
  obtain i where i: "level_info s = Some i" using assms(1) by (auto simp: batt_inv_def)
  have "level_limits_cb s" using assms(1) by (simp add: batt_inv_def)
  then show ?thesis
    using assms i level_set_inv [OF assms, of E]
    by (cases "level_now i") (simp_all add: max17050_do_level_limits_cb_def battery_level_limits_cb_def, metis+)
qed

text \<open>Programming the limits again, and clearing them when both alerts of the temperature are there.\<close>

definition same_state :: "'h battery \<Rightarrow> 'h battery \<Rightarrow> bool" where
  "same_state s s' \<longleftrightarrow> batt_inv s' \<and> gauge_initialized s' = gauge_initialized s \<and> zone_of s' = zone_of s \<and> level_of s' = level_of s"

lemma same_state_view: "batt_inv s \<Longrightarrow> bview s' = bview s \<Longrightarrow> same_state s s'"
  using inv_cong [of s' s] bview_fields [of s' s] by (simp add: same_state_def zone_of_def level_of_def)

lemma same_state_trans: "same_state s s1 \<Longrightarrow> same_state s1 s2 \<Longrightarrow> same_state s s2"
  by (simp add: same_state_def)

lemma reprogram_inv:
  fixes E :: "'h gauge_env"
  assumes "batt_inv s" "gauge_initialized s" "min_max_talrt s"
  defines "s' \<equiv> (snd (max17050_set_temperature_alert E (fst (saved_talrt s)) (snd (saved_talrt s)) s))\<lparr>min_max_talrt := False\<rparr>"
  shows "same_state s s' \<and> \<not> min_max_talrt s'"
proof -
  have z: "saved_talrt s = zone_alert (zone_of s)" using assms(1-3) by (auto simp: zone_of_def elim!: invE)
  have t: "touched (s\<lparr>talrt_limits := saved_talrt s\<rparr>) (snd (max17050_set_temperature_alert E (fst (saved_talrt s)) (snd (saved_talrt s)) s))"
    using temperature_alert_form [OF zone_alert_range [of "zone_of s"], of s E] by (simp add: z)
  note v = bview_fields [OF bview_touched [OF t]]
  have "batt_inv s'" using assms(1,2) v z by (auto simp: s'_def batt_inv_def zone_of_def)
  then show ?thesis using v by (simp add: s'_def same_state_def zone_of_def level_of_def)
qed

lemma clear_inv:
  fixes E :: "'h gauge_env"
  assumes "batt_inv s" "gauge_initialized s" "\<not> min_max_talrt s"
  defines "s' \<equiv> snd (max17050_set_temperature_alert E INT_MIN INT_MAX (s\<lparr>min_max_talrt := True, saved_talrt := talrt_limits s\<rparr>))"
  shows "same_state s s'"
proof -
  let ?t = "s\<lparr>min_max_talrt := True, saved_talrt := talrt_limits s\<rparr>"
  have t: "touched (?t\<lparr>talrt_limits := (INT_MIN, INT_MAX)\<rparr>) s'"
    unfolding s'_def by (rule temperature_alert_form) simp_all
  note v = bview_fields [OF bview_touched [OF t]]
  have "batt_inv s'" using assms(1-3) v by (auto simp: batt_inv_def)
  then show ?thesis using v by (simp add: same_state_def zone_of_def level_of_def)
qed

lemma min_max_inv:
  assumes "batt_inv s" "gauge_initialized s"
  shows "same_state s (snd (max17050_min_max_alrt E s)) \<and>
    (fst (max17050_min_max_alrt E s) AND 0x200 \<noteq> 0 \<or> fst (max17050_min_max_alrt E s) AND 0x2000 \<noteq> 0 \<longrightarrow>
     fst (max17050_min_max_alrt E s) < 0 \<or> \<not> min_max_talrt (snd (max17050_min_max_alrt E s)))"
proof -
  define s1 where "s1 = (if min_max_valrt s then (snd (max17050_set_voltage_alert E (fst (saved_valrt s)) (snd (saved_valrt s)) s))
    \<lparr>min_max_valrt := False\<rparr> else s)"
  define s2 where "s2 = (if min_max_talrt s then (snd (max17050_set_temperature_alert E (fst (saved_talrt s1)) (snd (saved_talrt s1)) s1))
    \<lparr>min_max_talrt := False\<rparr> else s1)"
  define s3 where "s3 = (if min_max_salrt s then (snd (max17050_set_soc_alert E (fst (saved_salrt s2)) (snd (saved_salrt s2)) s2))
    \<lparr>min_max_salrt := False\<rparr> else s2)"
  define status s4 where "status = fst (max17050_reg_read_retry E 0x00 s3)" and "s4 = snd (max17050_reg_read_retry E 0x00 s3)"
  define vboth where "vboth = (status AND 0x100 \<noteq> 0 \<and> status AND 0x1000 \<noteq> 0)"
  define status1 where "status1 = (if min_max_valrt s \<or> vboth then status AND NOT (0x100 OR 0x1000) else status)"
  define s5 where "s5 = (if \<not> min_max_valrt s \<and> vboth then snd (max17050_set_voltage_alert E INT_MIN INT_MAX
    (s4\<lparr>min_max_valrt := True, saved_valrt := valrt_limits s4\<rparr>)) else s4)"
  define tboth where "tboth = (status1 AND 0x200 \<noteq> 0 \<and> status1 AND 0x2000 \<noteq> 0)"
  define status2 where "status2 = (if min_max_talrt s \<or> tboth then status1 AND NOT (0x200 OR 0x2000) else status1)"
  define s6 where "s6 = (if \<not> min_max_talrt s \<and> tboth then snd (max17050_set_temperature_alert E INT_MIN INT_MAX
    (s5\<lparr>min_max_talrt := True, saved_talrt := talrt_limits s5\<rparr>)) else s5)"
  define sboth where "sboth = (status2 AND 0x400 \<noteq> 0 \<and> status2 AND 0x4000 \<noteq> 0)"
  define status3 where "status3 = (if min_max_salrt s \<or> sboth then status2 AND NOT (0x400 OR 0x4000) else status2)"
  define s7 where "s7 = (if \<not> min_max_salrt s \<and> sboth then snd (max17050_set_soc_alert E INT_MIN INT_MAX
    (s6\<lparr>min_max_salrt := True, saved_salrt := salrt_limits s6\<rparr>)) else s6)"
  have e: "max17050_min_max_alrt E s =
     (if alrt_gpio s3 \<ge> 0 \<and> alrt_released s3 then (- 1, s3) else if status < 0 then (0, s4) else (status3, s7))"
    unfolding max17050_min_max_alrt_def Let_def split_beta
      s1_def [symmetric] s2_def [symmetric] s3_def [symmetric] status_def [symmetric] s4_def [symmetric] vboth_def [symmetric]
      status1_def [symmetric] s5_def [symmetric] tboth_def [symmetric] status2_def [symmetric] s6_def [symmetric]
      sboth_def [symmetric] status3_def [symmetric] s7_def [symmetric] ..
  have v1: "bview s1 = bview s" by (simp add: s1_def)
  have 1: "same_state s s1" "min_max_talrt s1 = min_max_talrt s"
    using same_state_view [OF assms(1) v1] bview_fields [OF v1] by simp_all
  have i1: "batt_inv s1" "gauge_initialized s1" using 1(1) assms(2) by (simp_all add: same_state_def)
  have 2: "same_state s s2 \<and> \<not> min_max_talrt s2"
    using 1 reprogram_inv [OF i1, of E] same_state_trans [OF 1(1)] by (auto simp: s2_def)
  have v3: "bview s3 = bview s2" "bview s4 = bview s2" "bview s5 = bview s2" by (simp_all add: s3_def s4_def s5_def)
  have i2: "batt_inv s2" "gauge_initialized s2" using 2 assms(2) by (simp_all add: same_state_def)
  have 3: "same_state s s3" "same_state s s4" "same_state s s5"
    using same_state_trans [OF conjunct1 [OF 2] same_state_view [OF i2(1)]] v3 by blast+
  have m5: "\<not> min_max_talrt s5" using 2 bview_fields [OF v3(3)] by simp
  have i5: "batt_inv s5" "gauge_initialized s5" using 3(3) assms(2) by (simp_all add: same_state_def)
  have 6: "same_state s s6" using 3(3) same_state_trans [OF 3(3) clear_inv [OF i5 m5, of E]] by (simp add: s6_def)
  have v7: "bview s7 = bview s6" by (simp add: s7_def)
  have 7: "same_state s s7" using same_state_trans [OF 6 same_state_view [OF _ v7]] 6 by (simp add: same_state_def)
  have "\<not> min_max_talrt s7" if "status3 AND 0x200 \<noteq> 0 \<or> status3 AND 0x2000 \<noteq> 0"
  proof -
    have "\<not> (min_max_talrt s \<or> tboth)"
      using that by (auto simp: status3_def status2_def and.assoc split: if_splits)
    then show ?thesis using m5 bview_fields [OF v7] by (simp add: s6_def)
  qed
  then show ?thesis unfolding e using 3 7 by simp
qed

lemma alrt_worker_inv:
  assumes i: "batt_inv s"
  shows "\<exists>s'. max17050_alrt_worker E s = Some s' \<and> batt_inv s'"
proof (cases "gauge_initialized s")
  case up: True
  define status s1 where "status = fst (max17050_min_max_alrt E s)" and "s1 = snd (max17050_min_max_alrt E s)"
  have 1: "batt_inv s1" "gauge_initialized s1" "status AND 0x200 \<noteq> 0 \<or> status AND 0x2000 \<noteq> 0 \<Longrightarrow> status < 0 \<or> \<not> min_max_talrt s1"
    using min_max_inv [OF i up, of E] up by (auto simp: same_state_def status_def s1_def)
  define level where "level = (if status AND 0x100 \<noteq> 0 \<and> fst (valrt_limits s1) = 3000
      then max17050_do_level_limits_cb E True (max17050_battery_level_set_empty E s1)
      else if status AND 0x400 \<noteq> 0 then max17050_do_level_limits_cb E True s1
      else if status AND 0x4000 \<noteq> 0 then max17050_do_level_limits_cb E False s1 else Some s1)"
  have "batt_inv (max17050_battery_level_set_empty E s1)" "gauge_initialized (max17050_battery_level_set_empty E s1)"
    "min_max_talrt (max17050_battery_level_set_empty E s1) = min_max_talrt s1"
    using 1(1,2) inv_cong [OF bview_gauge(2), of E s1] bview_fields [OF bview_gauge(2), of E s1] by simp_all
  then have "\<exists>s2. level = Some s2 \<and> batt_inv s2 \<and> gauge_initialized s2 \<and> min_max_talrt s2 = min_max_talrt s1"
    using level_limits_inv [of "max17050_battery_level_set_empty E s1" E True] level_limits_inv [OF 1(1,2), of E] 1(1,2)
    unfolding level_def by (simp split: if_split) metis
  then obtain s2 where 2: "level = Some s2" "batt_inv s2" "gauge_initialized s2" "min_max_talrt s2 = min_max_talrt s1" by blast
  have "\<exists>s3. (if status AND 0x200 \<noteq> 0 then max17050_do_temp_limits_cb E True s2
      else if status AND 0x2000 \<noteq> 0 then max17050_do_temp_limits_cb E False s2 else Some s2) = Some s3 \<and> batt_inv s3" if "\<not> status < 0"
    using temp_limits_inv [OF 2(2,3), of E] 1(3) that 2(2,4) by (simp split: if_split) metis
  then obtain s3 where "\<not> status < 0 \<Longrightarrow> (if status AND 0x200 \<noteq> 0 then max17050_do_temp_limits_cb E True s2
      else if status AND 0x2000 \<noteq> 0 then max17050_do_temp_limits_cb E False s2 else Some s2) = Some s3 \<and> batt_inv s3" by blast
  moreover have "max17050_alrt_worker E s = (if status < 0 then Some s1 else
      (if status > 0 then level \<bind> (\<lambda>s2. if status AND 0x200 \<noteq> 0 then max17050_do_temp_limits_cb E True s2
      else if status AND 0x2000 \<noteq> 0 then max17050_do_temp_limits_cb E False s2 else Some s2) else Some s1) \<bind>
      (\<lambda>s3. Some (max17050_queue_alrt_work s3)))"
    unfolding max17050_alrt_worker_def Let_def split_beta level_def status_def s1_def using up by (simp only: if_True if_False simp_thms)
  ultimately show ?thesis
    using 1(1) 2(1) by (cases "status < 0"; cases "status > 0") simp_all
qed (use i in \<open>simp add: max17050_alrt_worker_def\<close>)

text \<open>The gauge starts to measure.\<close>

lemma initialized_inv:
  assumes i: "batt_inv s" and d: "\<not> gauge_initialized s"
  shows "\<exists>s'. max17050_set_initialized E True s = Some s' \<and> batt_inv s' \<and> gauge_initialized s' \<and> \<not> min_max_talrt s'"
proof -
  from i d obtain b t l where p: "told b s" "temp_info s = Some t" "level_info s = Some l" "\<not> temp_available t" "\<not> level_available l"
    "\<not> min_max_talrt s" by (auto elim!: invE)
  have c: "temp_available_cb s" "level_available_cb s" "temp_limits_cb s" "level_limits_cb s" "gauge_present s"
    using i by (simp_all add: batt_inv_def)
  let ?s = "s\<lparr>gauge_initialized := True, temp_info := Some (t\<lparr>temp_available := True\<rparr>)\<rparr>"
  define z where "z = initial_zone (fst (max17050_battery_temp_get_temperature E ?s))"
  define s1 where "s1 = snd (max17050_battery_temp_get_temperature E ?s)"
  have v1: "bview s1 = bview ?s"
    by (simp add: s1_def max17050_battery_temp_get_temperature_def max17050_temperature_def split_beta Let_def)
  note f1 = bview_fields [OF v1]
  have "told b s1" "temp_info s1 = Some (t\<lparr>temp_available := True\<rparr>)" using p(1) f1 by (simp_all add: told_def)
  then obtain s2 ns where 2: "battery_temp_set_zone E z s1 = Some s2"
    "bview s2 = bview (s1\<lparr>temp_info := Some (t\<lparr>temp_available := True, temp_zone := z\<rparr>), batt_info := Some (b\<lparr>batt_temp := fst (zone_settings z)\<rparr>),
       batt_notified := ns, talrt_limits := zone_alert z\<rparr>)" "told (b\<lparr>batt_temp := fst (zone_settings z)\<rparr>) s2"
    by (rule set_zone_form)
  note f2 = bview_fields [OF 2(2)]
  have a: "battery_temp_available_cb E True (s\<lparr>gauge_initialized := True\<rparr>) = Some s2"
    using p(2,4) 2(1) by (simp add: battery_temp_available_cb_def z_def s1_def split_beta Let_def)
  let ?l = "l\<lparr>level_available := True\<rparr>"
  define s3 where "s3 = snd (max17050_capacity E (s2\<lparr>level_info := Some ?l\<rparr>))"
  define x where "x = initial_level (fst (max17050_capacity E (s2\<lparr>level_info := Some ?l\<rparr>)))"
  have v3: "bview s3 = bview (s2\<lparr>level_info := Some ?l\<rparr>)" by (simp add: s3_def max17050_capacity_def)
  note f3 = bview_fields [OF v3]
  have "told (b\<lparr>batt_temp := fst (zone_settings z)\<rparr>) s3" "level_info s3 = Some ?l"
    using 2(3) f3 by (simp_all add: told_def)
  then obtain s4 ns' where 4: "battery_level_set E x s3 = Some s4"
    "bview s4 = bview (s3\<lparr>level_info := Some (?l\<lparr>level_now := x\<rparr>), batt_info := Some (b\<lparr>batt_temp := fst (zone_settings z), batt_level := x\<rparr>),
       batt_notified := ns'\<rparr>)" "told (b\<lparr>batt_temp := fst (zone_settings z), batt_level := x\<rparr>) s4"
    by (rule level_set_form)
  note f4 = bview_fields [OF 4(2)]
  have li: "level_info s2 = Some l" using f1 f2 p(3) by simp
  have "battery_level_available_cb E True s2 = Some s4"
    using li p(5) 4(1) by (simp add: battery_level_available_cb_def x_def s3_def split_beta Let_def)
  then have e: "max17050_set_initialized E True s = Some (max17050_queue_alrt_work (snd (max17050_enable_alrt E True s4)))"
    using a c d f1 f2 by (simp add: max17050_set_initialized_def Let_def)
  have "batt_inv s4" "gauge_initialized s4" "\<not> min_max_talrt s4"
    using 4(3) f1 f2 f3 f4 c p(6) by (auto simp: batt_inv_def told_def temp_report_def level_report_def)
  then show ?thesis
    using e inv_cong [of "max17050_queue_alrt_work (snd (max17050_enable_alrt E True s4))" s4]
      bview_fields(2,3) [of "max17050_queue_alrt_work (snd (max17050_enable_alrt E True s4))" s4] by simp
qed

text \<open>The gauge stops to measure.\<close>

lemma uninitialized_inv:
  assumes i: "batt_inv s"
  shows "\<exists>s'. max17050_set_initialized E False s = Some s' \<and> batt_inv s'"
proof (cases "gauge_initialized s")
  case up: True
  from i up obtain b t l where p: "told b s" "temp_info s = Some t" "level_info s = Some l" "temp_available t" "level_available l"
    by (auto elim!: invE)
  have c: "temp_available_cb s" "level_available_cb s" "temp_limits_cb s" "level_limits_cb s" "gauge_present s"
    using i by (simp_all add: batt_inv_def)
  let ?s = "s\<lparr>gauge_initialized := False, min_max_valrt := False, min_max_talrt := False, min_max_salrt := False\<rparr>"
  let ?s1 = "?s\<lparr>temp_info := Some (t\<lparr>temp_available := False\<rparr>)\<rparr>"
  have "told b ?s1" using p(1) by (simp add: told_def)
  then obtain ns where 1: "battery_state_set_temp BATTERY_TEMP_UNAVAILABLE ?s1 =
      Some (?s1\<lparr>batt_info := Some (b\<lparr>batt_temp := BATTERY_TEMP_UNAVAILABLE\<rparr>), batt_notified := ns\<rparr>)"
    "told (b\<lparr>batt_temp := BATTERY_TEMP_UNAVAILABLE\<rparr>) (?s1\<lparr>batt_info := Some (b\<lparr>batt_temp := BATTERY_TEMP_UNAVAILABLE\<rparr>), batt_notified := ns\<rparr>)"
    by (rule set_temp_told)
  let ?b = "b\<lparr>batt_temp := BATTERY_TEMP_UNAVAILABLE\<rparr>"
  let ?s2 = "?s1\<lparr>batt_info := Some ?b, batt_notified := ns\<rparr>"
  have a: "battery_temp_available_cb E False ?s = Some ?s2"
    using p(2,4) 1(1) by (simp add: battery_temp_available_cb_def)
  define s3 where "s3 = snd (max17050_set_temperature_alert E INT_MIN INT_MAX ?s2)"
  have t3: "touched (?s2\<lparr>talrt_limits := (INT_MIN, INT_MAX)\<rparr>) s3"
    unfolding s3_def by (rule temperature_alert_form) simp_all
  note f3 = bview_fields [OF bview_touched [OF t3]]
  let ?s4 = "s3\<lparr>level_info := Some (l\<lparr>level_available := False\<rparr>)\<rparr>"
  have "told ?b ?s4" using 1(2) f3 by (simp add: told_def)
  then obtain ns' where 4: "battery_state_set_level BATTERY_LEVEL_EMPTY ?s4 =
      Some (?s4\<lparr>batt_info := Some (?b\<lparr>batt_level := BATTERY_LEVEL_EMPTY\<rparr>), batt_notified := ns'\<rparr>)"
    "told (?b\<lparr>batt_level := BATTERY_LEVEL_EMPTY\<rparr>) (?s4\<lparr>batt_info := Some (?b\<lparr>batt_level := BATTERY_LEVEL_EMPTY\<rparr>), batt_notified := ns'\<rparr>)"
    by (rule set_level_told)
  let ?s5 = "?s4\<lparr>batt_info := Some (?b\<lparr>batt_level := BATTERY_LEVEL_EMPTY\<rparr>), batt_notified := ns'\<rparr>"
  have "battery_level_available_cb E False s3 = Some ?s5"
    using p(3,5) f3 4(1) by (simp add: battery_level_available_cb_def)
  then have e: "max17050_set_initialized E False s = Some (snd (max17050_enable_alrt E False
      (max17050_battery_level_set_empty E (max17050_battery_level_empty_detection E False
        (snd (max17050_set_soc_alert E INT_MIN INT_MAX ?s5))))))"
    using a c up f3 by (simp add: max17050_set_initialized_def Let_def s3_def [symmetric])
  have "batt_inv ?s5" using 4(2) f3 c by (simp add: batt_inv_def told_def temp_report_def level_report_def)
  then show ?thesis unfolding e by (simp add: inv_cong [OF bview_gauge(3)] inv_cong [OF bview_gauge(2)] inv_cong [OF bview_gauge(1)] inv_cong [OF bview_alerts(2)])
qed (use i in \<open>simp add: max17050_set_initialized_def\<close>)

lemma set_initialized_inv: "batt_inv s \<Longrightarrow> \<exists>s'. max17050_set_initialized E x s = Some s' \<and> batt_inv s'"
  using initialized_inv [of s E] uninitialized_inv [of s E]
  by (cases x; cases "gauge_initialized s") (auto simp: max17050_set_initialized_def)

section \<open>Reachable states\<close>

text \<open>
  What happens to the battery: a queued worker or a thread runs, the alert or battery good pin changes, the
  charger reports whether it charges, a client registers, and the chip measures something else.
\<close>

inductive batt_step :: "'h gauge_env \<Rightarrow> 'h battery \<Rightarrow> 'h battery option \<Rightarrow> bool" for E where
  alert_irq: "batt_step E s (Some (max17050_alrt_isr s))"
| run_alert: "alrt_work s \<Longrightarrow> batt_step E s (max17050_alrt_worker E (s\<lparr>alrt_work := False\<rparr>))"
| battery_good: "batt_step E s (Some (max17050_battery_good good s))"
| run_good: "batt_good_work s = Some True \<Longrightarrow> batt_step E s (max17050_batt_is_good_worker E (s\<lparr>batt_good_work := None\<rparr>))"
| run_bad: "batt_good_work s = Some False \<Longrightarrow> batt_step E s (max17050_batt_is_bad_worker E (s\<lparr>batt_good_work := None\<rparr>))"
| run_por: "por_threads s = Suc n \<Longrightarrow> batt_step E s (max17050_por E (s\<lparr>por_threads := n\<rparr>))"
| charger: "batt_step E s (battery_set_status charging s)"
| run_changed: "state_changed_work s \<Longrightarrow>
    batt_step E s (Some (max17050_battery_level_state_changed_worker (s\<lparr>state_changed_work := False\<rparr>)))"
| run_eoc: "eoc_work s \<Longrightarrow> batt_step E s (max17050_battery_level_eoc_worker E (s\<lparr>eoc_work := False\<rparr>))"
| client: "batt_step E s (Some (snd (battery_state_register zalloc_ok s)))"
| chip_moves: "batt_step E s (Some (s\<lparr>chip := h, alrt_released := x\<rparr>))"

inductive batt_reach :: "'h gauge_env \<Rightarrow> 'h battery \<Rightarrow> bool" for E where
  started: "max17050_initialize E True 0 good gpio s0 = (True, s1) \<Longrightarrow>
    battery_state_init E (True, True, True) (True, True) s1 = Some (0, s) \<Longrightarrow> batt_reach E s"
| stepped: "batt_reach E s \<Longrightarrow> batt_step E s (Some s') \<Longrightarrow> batt_reach E s'"

lemma bview_eoc [simp]:
  "bview (snd (max17050_battery_level_eoc_conditions E s)) = bview s"
  "bview (snd (max17050_battery_level_charge_complete E s)) = bview s"
proof -
  have m: "bview (snd (max17050_get_current E a s)) = bview s" "bview (snd (max17050_voltage_capacity E s)) = bview s" for a s
    by (simp_all add: max17050_get_current_def max17050_voltage_capacity_def split_beta Let_def)
  show "bview (snd (max17050_battery_level_eoc_conditions E s)) = bview s"
    using m by (auto simp: max17050_battery_level_eoc_conditions_def split: prod.split sum.split) (metis snd_conv)+
  show "bview (snd (max17050_battery_level_charge_complete E s)) = bview s"
    by (simp add: max17050_battery_level_charge_complete_def split_beta Let_def)
qed

lemma any_level_limits_inv: "batt_inv s \<Longrightarrow> \<exists>s'. max17050_do_level_limits_cb E mn s = Some s' \<and> batt_inv s'"
  using level_limits_inv [of s E mn] by (cases "gauge_initialized s") (auto simp: max17050_do_level_limits_cb_def)

lemma eoc_worker_inv:
  assumes "batt_inv s"
  shows "\<exists>s'. max17050_battery_level_eoc_worker E s = Some s' \<and> batt_inv s'"
proof -
  define eoc s1 where "eoc = fst (max17050_battery_level_eoc_conditions E s)" and "s1 = snd (max17050_battery_level_eoc_conditions E s)"
  let ?c = "s1\<lparr>eoc_counter := eoc_counter s1 + 1\<rparr>"
  define s2 where "s2 = (if eoc then (if eoc_counter ?c = 15 then snd (max17050_battery_level_charge_complete E ?c) else ?c)
    else s1\<lparr>eoc_counter := 0\<rparr>)"
  have "bview s2 = bview s" by (simp add: s2_def s1_def)
  then have i: "batt_inv s2" using inv_cong assms by blast
  have "max17050_battery_level_eoc_worker E s =
    (if eoc_counter s2 > 15 \<and> max_soc_alrt s2 then max17050_do_level_limits_cb E False s2 else Some s2) \<bind> (\<lambda>s3. Some (s3\<lparr>eoc_work := True\<rparr>))"
    unfolding max17050_battery_level_eoc_worker_def Let_def split_beta s2_def eoc_def s1_def ..
  then show ?thesis
    using any_level_limits_inv [OF i, of E False] i by (auto simp: inv_cong [OF bview_same(4)])
qed

lemma step_inv:
  assumes i: "batt_inv s" and "batt_step E s t"
  shows "\<exists>s'. t = Some s' \<and> batt_inv s'"
  using assms(2)
proof cases
  case alert_irq
  have "batt_inv (max17050_alrt_isr s)" using i by (simp add: max17050_alrt_isr_def inv_cong [OF bview_same(1)])
  then show ?thesis using alert_irq by blast
next
  case run_alert
  then show ?thesis using alrt_worker_inv [of "s\<lparr>alrt_work := False\<rparr>" E] i by (simp add: inv_cong [OF bview_same(1)])
next
  case (battery_good good)
  then show ?thesis using i by (simp add: max17050_battery_good_def inv_cong [OF bview_same(6)])
next
  case run_good
  let ?s = "s\<lparr>batt_good_work := None\<rparr>"
  have b: "batt_inv s'" if "bview s' = bview s" for s' using inv_cong [OF that] i by simp
  have n: "bview (snd (max17050_new_config E s')) = bview s'" for s' by (simp add: max17050_new_config_def split_beta Let_def)
  have p: "\<exists>s''. (max17050_set_initialized E False s' \<bind> (\<lambda>s4. Some (s4\<lparr>por_threads := Suc (por_threads s4)\<rparr>))) = Some s'' \<and> batt_inv s''"
    if "bview s' = bview s" for s'
    using set_initialized_inv [OF b [OF that], of E False] by (auto simp: inv_cong [OF bview_same(7)])
  show ?thesis unfolding run_good(1) max17050_batt_is_good_worker_def Let_def split_beta
    by (auto split: if_split simp: n intro!: set_initialized_inv b p)
next
  case run_bad
  then show ?thesis
    using set_initialized_inv [of "s\<lparr>batt_good_work := None\<rparr>" E False] i
    by (simp add: max17050_batt_is_bad_worker_def inv_cong [OF bview_same(6)])
next
  case (run_por n)
  let ?s = "snd (max17050_por_init E (s\<lparr>por_threads := n\<rparr>))"
  have "batt_inv ?s" using inv_cong [of ?s s] i by simp
  then show ?thesis
    using set_initialized_inv [of ?s E True]
    unfolding run_por(1) max17050_por_def Let_def split_beta by (auto simp: inv_cong [OF bview_transfers(3)])
next
  case (charger charging)
  moreover have "gauge_present s" using i by (simp add: batt_inv_def)
  ultimately show ?thesis
    using i by (simp add: battery_set_status_def inv_cong [OF bview_same(5)] inv_cong [OF bview_same(8)])
next
  case run_changed
  let ?s = "max17050_battery_level_state_changed_worker (s\<lparr>state_changed_work := False\<rparr>)"
  have "bview ?s = bview s" by (simp add: max17050_battery_level_state_changed_worker_def)
  then show ?thesis using run_changed(1) inv_cong i by blast
next
  case run_eoc
  then show ?thesis using eoc_worker_inv [of "s\<lparr>eoc_work := False\<rparr>" E] i by (simp add: inv_cong [OF bview_same(4)])
next
  case (client zalloc_ok)
  have "batt_inv (snd (battery_state_register zalloc_ok s))"
    using i by (auto simp: battery_state_register_def batt_inv_def less_Suc_eq split: option.split)
  then show ?thesis using client by blast
next
  case (chip_moves x h)
  have "bview (s\<lparr>chip := h, alrt_released := x\<rparr>) = bview s" by simp
  then show ?thesis using chip_moves inv_cong i by blast
qed

text \<open>The gauge after its initialisation: no callbacks, not measuring.\<close>

lemma initialize_state:
  assumes "max17050_initialize E True 0 good gpio s0 = (True, s)"
  shows "gauge_present s" "\<not> gauge_initialized s" "\<not> min_max_talrt s" "\<not> temp_limits_cb s" "\<not> temp_available_cb s"
    "\<not> level_limits_cb s" "\<not> level_available_cb s"
proof -
  define u where "u = s0\<lparr>gauge_initialized := False, batt_good_work := None, alrt_work := False, alrt_gpio := gpio,
                    min_max_valrt := False, min_max_talrt := False, min_max_salrt := False,
                    valrt_limits := (0, 0), talrt_limits := (0, 0), salrt_limits := (0, 0),
                    temp_limits_cb := False, temp_available_cb := False, level_limits_cb := False, level_available_cb := False,
                    max_soc_alrt := False, eoc_counter := 0, state_changed_work := False, eoc_work := False\<rparr>"
  define v where "v = snd (max17050_set_voltage_alert E INT_MIN INT_MAX (snd (max17050_set_soc_alert E INT_MIN INT_MAX u)))"
  define w where "w = snd (max17050_enable_alrt E False (snd (max17050_set_temperature_alert E INT_MIN INT_MAX v)))"
  have e: "gauge_present s \<and> bview (s\<lparr>gauge_present := gauge_present w\<rparr>) = bview w"
    using assms unfolding max17050_initialize_def u_def [symmetric] v_def [symmetric] w_def [symmetric] Let_def
    by (auto simp: bview_def split: option.splits if_splits)
  have t: "touched (v\<lparr>talrt_limits := (INT_MIN, INT_MAX)\<rparr>) (snd (max17050_set_temperature_alert E INT_MIN INT_MAX v))"
    by (rule temperature_alert_form) simp_all
  have "bview w = bview (v\<lparr>talrt_limits := (INT_MIN, INT_MAX)\<rparr>)" using bview_touched [OF t] by (simp add: w_def)
  note f = bview_fields [OF this]
  have "bview v = bview u" by (simp add: v_def)
  note g = bview_fields [OF this]
  show "gauge_present s" "\<not> gauge_initialized s" "\<not> min_max_talrt s" "\<not> temp_limits_cb s" "\<not> temp_available_cb s"
    "\<not> level_limits_cb s" "\<not> level_available_cb s"
    using e bview_fields [OF conjunct2 [OF e]] f g by (simp_all add: u_def)
qed

lemma started_inv:
  assumes "max17050_initialize E True 0 good gpio s0 = (True, s1)" "battery_state_init E (True, True, True) (True, True) s1 = Some (0, s)"
  shows "batt_inv s"
  using assms(2) initialize_state [OF assms(1)]
  by (auto simp: battery_state_init_def battery_level_start_def battery_temp_start_def battery_state_set_level_def Let_def
      battery_state_set_temp_def battery_state_set_voltage_def battery_notify_def max17050_battery_level_register_limits_cb_def
      max17050_battery_level_register_available_cb_def max17050_battery_temp_register_limits_cb_def
      max17050_battery_temp_register_available_cb_def battery_level_available_cb_def battery_temp_available_cb_def
      batt_inv_def temp_report_def level_report_def)

lemma reach_inv: "batt_reach E s \<Longrightarrow> batt_inv s"
proof (induction rule: batt_reach.induct)
  case (started good gpio s0 s1 s)
  then show ?case by (rule started_inv)
next
  case (stepped s s')
  then show ?case using step_inv by blast
qed

section \<open>Settling in a zone\<close>

text \<open>The chip compares the temperature it measures, in whole degrees, with the limits; an alert runs the callback.\<close>

definition temp_round :: "'h gauge_env \<Rightarrow> int \<Rightarrow> 'h battery \<Rightarrow> 'h battery option" where
  "temp_round E g s =
     (if g < fst (talrt_limits s) then max17050_do_temp_limits_cb E True s
      else if snd (talrt_limits s) < g then max17050_do_temp_limits_cb E False s else Some s)"

primrec temp_rounds :: "'h gauge_env \<Rightarrow> int \<Rightarrow> nat \<Rightarrow> 'h battery \<Rightarrow> 'h battery option" where
  "temp_rounds E g 0 s = Some s"
| "temp_rounds E g (Suc n) s = do { s1 \<leftarrow> temp_round E g s; temp_rounds E g n s1 }"

definition zone_round :: "int \<Rightarrow> battery_temp_zone_e \<Rightarrow> battery_temp_zone_e" where
  "zone_round g z = (if g < fst (zone_alert z) then next_zone z True else if snd (zone_alert z) < g then next_zone z False else z)"

lemma zone_rounds:
  assumes "- 128 \<le> g"
  shows "zone_round g BATTERY_COLD = (if - 15 < g then BATTERY_COOL else BATTERY_COLD)"
    "zone_round g BATTERY_COOL = (if g < - 16 then BATTERY_COLD else if 0 < g then BATTERY_NORMAL else BATTERY_COOL)"
    "zone_round g BATTERY_NORMAL = (if g < - 2 then BATTERY_COOL else if 44 < g then BATTERY_WARM else BATTERY_NORMAL)"
    "zone_round g BATTERY_WARM = (if g < 42 then BATTERY_NORMAL else if 54 < g then BATTERY_HOT else BATTERY_WARM)"
    "zone_round g BATTERY_HOT = (if g < 53 then BATTERY_WARM else if 59 < g then BATTERY_COOL_DOWN else BATTERY_HOT)"
    "g \<le> 127 \<Longrightarrow> zone_round g BATTERY_COOL_DOWN = (if g < 58 then BATTERY_HOT else BATTERY_COOL_DOWN)"
  using assms by (auto simp: zone_round_def zone_alert_def next_zone_def)

lemma zone_settles:
  assumes "- 128 \<le> g" "g \<le> 127"
  shows "zone_round g ((zone_round g ^^ 5) z) = (zone_round g ^^ 5) z"
proof -
  have f: "(zone_round g ^^ 5) z = zone_round g (zone_round g (zone_round g (zone_round g (zone_round g z))))"
    by (simp add: eval_nat_numeral)
  consider "g < - 16" | "- 16 \<le> g" "g \<le> - 15" | "- 15 < g" "g < - 2" | "- 2 \<le> g" "g \<le> 0" | "0 < g" "g < 42" | "42 \<le> g" "g \<le> 44"
    | "44 < g" "g < 53" | "53 \<le> g" "g \<le> 54" | "54 < g" "g < 58" | "58 \<le> g" "g \<le> 59" | "59 < g" by linarith
  then show ?thesis unfolding f
    by cases (cases z; use assms(2) in \<open>simp add: zone_rounds [OF assms(1)]\<close>)+
qed

lemma settled_zone:
  assumes "zone_round g z = z" "- 128 \<le> g" "g \<le> 127"
  shows "fst (zone_alert z) \<le> g \<and> g \<le> snd (zone_alert z)"
  using assms by (cases z) (auto simp: zone_round_def zone_alert_def next_zone_def split: if_splits)

lemma temp_round_zone:
  assumes "batt_inv s" "gauge_initialized s" "\<not> min_max_talrt s"
  shows "\<exists>s'. temp_round E g s = Some s' \<and> batt_inv s' \<and> gauge_initialized s' \<and> \<not> min_max_talrt s' \<and>
    zone_of s' = zone_round g (zone_of s)"
proof -
  have z: "talrt_limits s = zone_alert (zone_of s)" using assms by (auto simp: zone_of_def elim!: invE)
  show ?thesis
    using temp_limits_inv [OF assms, of E] assms unfolding temp_round_def zone_round_def z by (simp split: if_split) blast
qed

lemma temp_rounds_zone:
  "batt_inv s \<Longrightarrow> gauge_initialized s \<Longrightarrow> \<not> min_max_talrt s \<Longrightarrow>
   \<exists>s'. temp_rounds E g n s = Some s' \<and> batt_inv s' \<and> gauge_initialized s' \<and> \<not> min_max_talrt s' \<and>
     zone_of s' = (zone_round g ^^ n) (zone_of s)"
proof (induction n arbitrary: s)
  case (Suc n)
  obtain s1 where s1: "temp_round E g s = Some s1" "batt_inv s1" "gauge_initialized s1" "\<not> min_max_talrt s1"
    "zone_of s1 = zone_round g (zone_of s)" using temp_round_zone [OF Suc.prems] by blast
  show ?case using Suc.IH [OF s1(2-4)] s1(1,5) by (simp add: funpow_swap1)
qed simp

section \<open>A sample battery\<close>

text \<open>A gauge that is plain memory but for the end of charge it measures, and a working bus.\<close>

definition sample_gauge :: "(u8 \<Rightarrow> u16) gauge_env" where
  "sample_gauge = \<lparr>chip_read = (\<lambda>r h. (if r = 0x0A \<or> r = 0x0B then 64 else if r = 0xFF then 0x6400 else h r, h)), chip_write = (\<lambda>r v h. h(r := v)), gauge_ret = (\<lambda>_. 0)\<rparr>"

definition blank_battery :: "(u8 \<Rightarrow> u16) battery" where
  "blank_battery = \<lparr>chip = (\<lambda>_. 0), transfers = 0,
     gauge_present = False, gauge_initialized = False, batt_good_work = None, por_threads = 0, alrt_work = False, alrt_gpio = - 1,
     alrt_released = True, min_max_valrt = False, min_max_talrt = False, min_max_salrt = False, valrt_limits = (0, 0),
     talrt_limits = (0, 0), salrt_limits = (0, 0), empty_battery_detection = False, saved_valrt = (0, 0), saved_talrt = (0, 0),
     saved_salrt = (0, 0), temp_limits_cb = False, temp_available_cb = False, level_limits_cb = False, level_available_cb = False,
     max_soc_alrt = False, eoc_counter = 0, state_changed_work = False, eoc_work = False, g_status_charging = False,
     batt_info = None, batt_clients = 0, batt_notified = [], temp_info = None, level_info = None\<rparr>"

definition sample_started :: "(u8 \<Rightarrow> u16) battery" where
  "sample_started = snd (the (battery_state_init sample_gauge (True, True, True) (True, True)
     (snd (max17050_initialize sample_gauge True 0 None (- 1) blank_battery))))"

text \<open>The same after the battery was found to be good.\<close>

definition sample_chip_regs :: "u8 \<Rightarrow> u16" where
  "sample_chip_regs = (\<lambda>_. 0)(0x21 := 0x00AC, 0x20 := 0xFF00, 0x08 := 0x1900, 0x06 := 0x3200)"

definition sample_battery :: "(u8 \<Rightarrow> u16) battery" where
  "sample_battery = the (max17050_batt_is_good_worker sample_gauge
     (max17050_battery_good True (sample_started\<lparr>chip := sample_chip_regs, alrt_released := True\<rparr>)\<lparr>batt_good_work := None\<rparr>))"

lemma initialize_ok: "fst (max17050_initialize E True 0 None gpio s0)"
  by (simp add: max17050_initialize_def max17050_cfg_def Let_def)

lemma state_init_ok:
  assumes "max17050_initialize E True 0 good gpio s0 = (True, s1)"
  shows "\<exists>s. battery_state_init E (True, True, True) (True, True) s1 = Some (0, s)"
  using initialize_state [OF assms]
  by (auto simp: battery_state_init_def battery_level_start_def battery_temp_start_def battery_state_set_level_def Let_def
      battery_state_set_temp_def battery_state_set_voltage_def battery_notify_def max17050_battery_level_register_limits_cb_def
      max17050_battery_level_register_available_cb_def max17050_battery_temp_register_limits_cb_def
      max17050_battery_temp_register_available_cb_def battery_level_available_cb_def battery_temp_available_cb_def)

lemma sample_started_reach: "batt_reach sample_gauge sample_started"
proof -
  let ?i = "max17050_initialize sample_gauge True 0 None (- 1) blank_battery"
  have i: "?i = (True, snd ?i)" using initialize_ok [of sample_gauge "- 1" blank_battery] by (simp add: prod_eq_iff)
  then obtain s where "battery_state_init sample_gauge (True, True, True) (True, True) (snd ?i) = Some (0, s)"
    using state_init_ok by blast
  then show ?thesis using batt_reach.started [OF i] by (simp add: sample_started_def)
qed

lemma sample_read:
  "reg \<notin> {0x0A, 0x0B, 0xFF} \<Longrightarrow> max17050_reg_read_retry sample_gauge reg s = (uint (chip s reg), s\<lparr>transfers := Suc (transfers s)\<rparr>)"
  by (simp add: max17050_reg_read_retry_def read_tries.simps i2c_writeread_def sample_gauge_def)

lemma sample_good:
  assumes "batt_inv s" "\<not> gauge_initialized s" "chip s = sample_chip_regs"
  shows "\<exists>s'. max17050_batt_is_good_worker sample_gauge s = Some s' \<and> batt_inv s' \<and> gauge_initialized s' \<and> \<not> min_max_talrt s'"
proof -
  let ?s = "s\<lparr>transfers := Suc (Suc (Suc (transfers s)))\<rparr>"
  have v: "bview ?s = bview s" by (simp add: bview_def)
  then have "batt_inv ?s" "\<not> gauge_initialized ?s" using assms inv_cong [OF v] by simp_all
  moreover have "max17050_batt_is_good_worker sample_gauge s = max17050_set_initialized sample_gauge True ?s"
    using assms(3) by (simp add: max17050_batt_is_good_worker_def sample_read max17050_new_config_def sample_chip_regs_def max17050_cfg_def)
  ultimately show ?thesis using initialized_inv [of ?s sample_gauge] by simp
qed

lemma sample_battery_props:
  "batt_reach sample_gauge sample_battery" "batt_inv sample_battery" "gauge_initialized sample_battery" "\<not> min_max_talrt sample_battery"
proof -
  let ?a = "sample_started\<lparr>chip := sample_chip_regs, alrt_released := True\<rparr>"
  let ?b = "max17050_battery_good True ?a"
  let ?c = "?b\<lparr>batt_good_work := None\<rparr>"
  have b: "batt_reach sample_gauge ?b"
    using batt_reach.stepped [OF batt_reach.stepped [OF sample_started_reach batt_step.chip_moves] batt_step.battery_good] .
  have v: "bview ?c = bview sample_started" by (simp add: max17050_battery_good_def)
  have "\<not> gauge_initialized sample_started"
  proof -
    let ?i = "max17050_initialize sample_gauge True 0 None (- 1) blank_battery"
    have i: "?i = (True, snd ?i)" using initialize_ok [of sample_gauge "- 1" blank_battery] by (simp add: prod_eq_iff)
    show ?thesis using initialize_state [OF i]
      by (simp add: sample_started_def battery_state_init_def battery_level_start_def battery_temp_start_def battery_state_set_level_def Let_def
        battery_state_set_temp_def battery_state_set_voltage_def battery_notify_def max17050_battery_level_register_limits_cb_def
        max17050_battery_level_register_available_cb_def max17050_battery_temp_register_limits_cb_def
        max17050_battery_temp_register_available_cb_def battery_level_available_cb_def battery_temp_available_cb_def)
  qed
  then have c: "batt_inv ?c" "\<not> gauge_initialized ?c" "chip ?c = sample_chip_regs"
    using inv_cong [OF v] reach_inv [OF sample_started_reach] by (simp_all add: max17050_battery_good_def)
  obtain s' where s': "max17050_batt_is_good_worker sample_gauge ?c = Some s'" "batt_inv s'" "gauge_initialized s'" "\<not> min_max_talrt s'"
    using sample_good [OF c] by blast
  have "sample_battery = s'" using s'(1) by (simp add: sample_battery_def)
  moreover have "batt_step sample_gauge ?b (Some s')"
    using batt_step.run_good [of ?b sample_gauge] s'(1) by (simp add: max17050_battery_good_def)
  ultimately show "batt_reach sample_gauge sample_battery" "batt_inv sample_battery" "gauge_initialized sample_battery"
    "\<not> min_max_talrt sample_battery" using batt_reach.stepped [OF b] s' by simp_all
qed

section \<open>End of charge\<close>

lemma touched_fields:
  assumes "touched s s'"
  shows "eoc_counter s' = eoc_counter s" "max_soc_alrt s' = max_soc_alrt s"
  using assms by (auto simp: touched_def)

lemma eoc_touched:
  "touched s (snd (max17050_battery_level_eoc_conditions E s))" "touched s (snd (max17050_battery_level_charge_complete E s))"
proof -
  have m: "touched s (snd (max17050_get_current E a s))" "touched s (snd (max17050_voltage_capacity E s))" for a s
    by (auto simp: max17050_get_current_def max17050_voltage_capacity_def split_beta Let_def)
  have "touched s s3" if "max17050_get_current E False s = (x, s1)" "max17050_get_current E True s1 = (y, s2)"
    "max17050_voltage_capacity E s2 = (z, s3)" for x y z s1 s2 s3
    using m(1) [of s False] m(1) [of s1 True] m(2) [of s2] that touched_trans by (metis snd_conv)
  moreover have "touched s s2" if "max17050_get_current E False s = (x, s1)" "max17050_get_current E True s1 = (y, s2)" for x y s1 s2
    using m(1) [of s False] m(1) [of s1 True] that touched_trans by (metis snd_conv)
  moreover have "touched s s1" if "max17050_get_current E False s = (x, s1)" for x s1
    using m(1) [of s False] that by simp
  ultimately show "touched s (snd (max17050_battery_level_eoc_conditions E s))"
    by (auto simp: max17050_battery_level_eoc_conditions_def split: prod.split sum.split)
  show "touched s (snd (max17050_battery_level_charge_complete E s))"
    by (auto simp: max17050_battery_level_charge_complete_def split_beta Let_def intro: touched_trans [OF read_touched(2) retry_touched(3)])
qed

primrec eoc_runs :: "'h gauge_env \<Rightarrow> nat \<Rightarrow> 'h battery \<Rightarrow> 'h battery option" where
  "eoc_runs E 0 s = Some s"
| "eoc_runs E (Suc n) s = do { s1 \<leftarrow> max17050_battery_level_eoc_worker E s; eoc_runs E n s1 }"

text \<open>One run with the conditions met: it counts, and reports the end after the fifteenth run.\<close>

lemma eoc_run:
  assumes "batt_inv s" "gauge_initialized s" "fst (max17050_battery_level_eoc_conditions E s)" "max_soc_alrt s" "level_of s = BATTERY_LEVEL_NORMAL"
  shows "\<exists>s'. max17050_battery_level_eoc_worker E s = Some s' \<and> batt_inv s' \<and> gauge_initialized s' \<and>
    (eoc_counter s < 15 \<longrightarrow> eoc_counter s' = eoc_counter s + 1 \<and> max_soc_alrt s' \<and> level_of s' = BATTERY_LEVEL_NORMAL) \<and>
    (eoc_counter s = 15 \<longrightarrow> level_of s' = BATTERY_LEVEL_FULL)"
proof -
  define s1 where "s1 = snd (max17050_battery_level_eoc_conditions E s)"
  let ?c = "s1\<lparr>eoc_counter := eoc_counter s1 + 1\<rparr>"
  define s2 where "s2 = (if eoc_counter ?c = 15 then snd (max17050_battery_level_charge_complete E ?c) else ?c)"
  have v: "bview s2 = bview s" by (simp add: s2_def s1_def)
  have i: "batt_inv s2" "gauge_initialized s2" "level_of s2 = level_of s"
    using inv_cong [OF v] bview_fields [OF v] assms by (simp_all add: level_of_def)
  have c: "eoc_counter s2 = eoc_counter s + 1" "max_soc_alrt s2"
  proof -
    have "touched ?c s2" unfolding s2_def by (simp add: eoc_touched touchedI split: if_split)
    then show "eoc_counter s2 = eoc_counter s + 1" "max_soc_alrt s2"
      using touched_fields [of ?c s2] touched_fields [OF eoc_touched(1) [of s E]] assms(4) by (simp_all add: s1_def)
  qed
  have e: "max17050_battery_level_eoc_worker E s =
    (if eoc_counter s2 > 15 \<and> max_soc_alrt s2 then max17050_do_level_limits_cb E False s2 else Some s2) \<bind> (\<lambda>s3. Some (s3\<lparr>eoc_work := True\<rparr>))"
    unfolding max17050_battery_level_eoc_worker_def Let_def split_beta s2_def s1_def using assms(3) by (simp only: if_True)
  show ?thesis
  proof (cases "eoc_counter s + 1 > 15")
    case True
    have cb: "level_limits_cb s2" using i(1) by (simp add: batt_inv_def)
    obtain li where li: "level_info s2 = Some li" "level_now li = BATTERY_LEVEL_NORMAL"
      using i(1,3) assms(5) by (auto simp: batt_inv_def level_of_def)
    obtain s3 where "battery_level_set E BATTERY_LEVEL_FULL s2 = Some s3" "batt_inv s3" "gauge_initialized s3" "level_of s3 = BATTERY_LEVEL_FULL"
      using level_set_inv [OF i(1,2), of E BATTERY_LEVEL_FULL] by blast
    then show ?thesis
      using True c i(2) li e cb by (simp add: max17050_do_level_limits_cb_def battery_level_limits_cb_def inv_cong [OF bview_same(4)] level_of_def)
  next
    case False
    then show ?thesis using c i e assms(5) by (simp add: inv_cong [OF bview_same(4)] level_of_def)
  qed
qed

lemma eoc_runs_count:
  assumes "\<And>s. gauge_initialized s \<Longrightarrow> fst (max17050_battery_level_eoc_conditions E s)"
  shows "batt_inv s \<Longrightarrow> gauge_initialized s \<Longrightarrow> max_soc_alrt s \<Longrightarrow> level_of s = BATTERY_LEVEL_NORMAL \<Longrightarrow> eoc_counter s = 15 - int n \<Longrightarrow>
    \<exists>s'. eoc_runs E n s = Some s' \<and> batt_inv s' \<and> gauge_initialized s' \<and> max_soc_alrt s' \<and> level_of s' = BATTERY_LEVEL_NORMAL \<and> eoc_counter s' = 15"
proof (induction n arbitrary: s)
  case (Suc n)
  obtain s1 where "max17050_battery_level_eoc_worker E s = Some s1" "batt_inv s1" "gauge_initialized s1"
    "eoc_counter s1 = 15 - int n" "max_soc_alrt s1" "level_of s1 = BATTERY_LEVEL_NORMAL"
    using eoc_run [OF Suc.prems(1,2) assms [OF Suc.prems(2)] Suc.prems(3,4)] Suc.prems(5) by auto
  then show ?case using Suc.IH by simp
qed simp

lemma sample_eoc: "gauge_initialized s \<Longrightarrow> fst (max17050_battery_level_eoc_conditions sample_gauge s)"
proof -
  assume a: "gauge_initialized s"
  have r: "max17050_reg_read_retry sample_gauge reg s = (64, s\<lparr>transfers := Suc (transfers s)\<rparr>)" if "reg = 0x0A \<or> reg = 0x0B" for reg s
    using that by (auto simp: max17050_reg_read_retry_def read_tries.simps i2c_writeread_def sample_gauge_def)
  have v: "max17050_reg_read sample_gauge 0xFF s = (0x6400, s\<lparr>transfers := Suc (transfers s)\<rparr>)" for s
    by (simp add: max17050_reg_read_def i2c_writeread_def sample_gauge_def)
  have c: "signed_reg 64 * (1562500 sdiv cfg_sns_resistor max17050_cfg) = 9984" "(9984 :: int) sdiv 1000 = 9" "drop_bit 8 (0x6400 :: int) = 100"
    by code_simp+
  show ?thesis using a c
    by (simp add: max17050_battery_level_eoc_conditions_def max17050_get_current_def measured_def r max17050_voltage_capacity_def v)
qed

lemma sample_level: "level_of sample_battery = BATTERY_LEVEL_NORMAL" "max_soc_alrt sample_battery" "eoc_counter sample_battery = 0"
  by code_simp+

text \<open>The report of a settled zone.\<close>

lemma settled_report:
  assumes "batt_reach E s" "gauge_initialized s" "\<not> min_max_talrt s" "- 128 \<le> g" "g \<le> 127"
  obtains s' b where "temp_rounds E g 5 s = Some s'" "temp_round E g s' = Some s'"
    "fst (talrt_limits s') \<le> g" "g \<le> snd (talrt_limits s')" "batt_info s' = Some b"
    "54 < g \<Longrightarrow> batt_temp b \<in> {BATTERY_TEMP_NO_CHARGING, BATTERY_TEMP_COOL_DOWN}" "59 < g \<Longrightarrow> batt_temp b = BATTERY_TEMP_COOL_DOWN"
    "0 < g \<Longrightarrow> g < 42 \<Longrightarrow> batt_temp b = BATTERY_TEMP_NORMAL"
proof -
  obtain s' where s': "temp_rounds E g 5 s = Some s'" "batt_inv s'" "gauge_initialized s'" "\<not> min_max_talrt s'"
    "zone_of s' = (zone_round g ^^ 5) (zone_of s)"
    using temp_rounds_zone [OF reach_inv [OF assms(1)] assms(2,3)] by blast
  have f: "zone_round g (zone_of s') = zone_of s'" using zone_settles [OF assms(4,5)] s'(5) by simp
  from s'(2-4) obtain b where b: "batt_info s' = Some b" "batt_temp b = fst (zone_settings (zone_of s'))"
    "talrt_limits s' = zone_alert (zone_of s')"
    by (auto simp: zone_of_def told_def temp_report_def elim!: invE)
  have r: "fst (zone_alert (zone_of s')) \<le> g" "g \<le> snd (zone_alert (zone_of s'))" using settled_zone [OF f assms(4,5)] by simp_all
  have t: "54 < g \<Longrightarrow> batt_temp b \<in> {BATTERY_TEMP_NO_CHARGING, BATTERY_TEMP_COOL_DOWN}" "59 < g \<Longrightarrow> batt_temp b = BATTERY_TEMP_COOL_DOWN"
    "0 < g \<Longrightarrow> g < 42 \<Longrightarrow> batt_temp b = BATTERY_TEMP_NORMAL"
    using r b(2) by (cases "zone_of s'"; simp add: zone_alert_def zone_settings_def)+
  have "temp_round E g s' = Some s'" using r by (simp add: temp_round_def b(3))
  then show thesis using that [OF s'(1) _ _ _ b(1)] b(3) r t by simp
qed

section \<open>Properties\<close>

text \<open>
  C3. The battery state is what the measurements say. In every state reachable after a successful start, by any
  sequence of alerts, workers, threads, pins and registrations, with any errors of the bus: while the
  gauge measures, the reported temperature and level are those of the current zone and level, otherwise
  they are unavailable and empty; every client has last been told exactly this state; and no step
  goes through a null pointer.
\<close>

theorem battery_report_agrees:
  assumes "batt_reach E s"
  shows "(\<exists>b t l. batt_info s = Some b \<and> temp_info s = Some t \<and> level_info s = Some l \<and>
      batt_temp b = (if gauge_initialized s then fst (zone_settings (temp_zone t)) else BATTERY_TEMP_UNAVAILABLE) \<and>
      batt_level b = (if gauge_initialized s then level_now l else BATTERY_LEVEL_EMPTY) \<and>
      (\<forall>c<batt_clients s. map_of (rev (batt_notified s)) c = Some b)) \<and>
    (\<forall>t. batt_step E s t \<longrightarrow> t \<noteq> None)"
  using reach_inv [OF assms] step_inv [OF reach_inv [OF assms], of E]
  by (auto simp: batt_inv_def temp_report_def level_report_def)

theorem battery_report_agrees_witness:
  "\<exists>b t. batt_info sample_battery = Some b \<and> temp_info sample_battery = Some t \<and> batt_temp b = fst (zone_settings (temp_zone t))"
  using battery_report_agrees [OF sample_battery_props(1)] sample_battery_props(3) by auto



text \<open>
  C38. The temperature limits in the alert register are the two's complement of the limits: a limit the chip can represent
  is written as a byte that reads back as the limit, and any other is refused.
\<close>

theorem temperature_limit_round_trip:
  "(case talrt_byte t of None \<Rightarrow> t < - 128 \<or> 127 < t | Some w \<Rightarrow> uint w < 256 \<and> signed_take_bit 7 (uint w) = t)"
proof (cases "- 128 \<le> t \<and> t \<le> 127")
  case True
  then have "t \<in> set [- 128..127]" by (simp only: set_upto atLeastAtMost_iff)
  moreover have "list_all (\<lambda>t. case talrt_byte t of None \<Rightarrow> False | Some w \<Rightarrow> uint w < 256 \<and> signed_take_bit 7 (uint w) = t) [- 128..127]"
    by code_simp
  ultimately have "case talrt_byte t of None \<Rightarrow> False | Some w \<Rightarrow> uint w < 256 \<and> signed_take_bit 7 (uint w) = t"
    unfolding list_all_iff by blast
  then show ?thesis by (simp split: option.splits)
qed (auto simp: talrt_byte_def)

text \<open>
  C39. The end of the charge is noticed. While the current stays between 5 and 16 mA and the gauge sees at least 99 percent,
  the level stays normal for fifteen runs of the worker and is full after the sixteenth.
\<close>

theorem end_of_charge_is_noticed:
  assumes "\<forall>s. gauge_initialized s \<longrightarrow> fst (max17050_battery_level_eoc_conditions E s)"
    "batt_reach E s" "gauge_initialized s" "max_soc_alrt s" "level_of s = BATTERY_LEVEL_NORMAL" "eoc_counter s = 0"
  shows "\<exists>s1 s2. eoc_runs E 15 s = Some s1 \<and> level_of s1 = BATTERY_LEVEL_NORMAL \<and>
    max17050_battery_level_eoc_worker E s1 = Some s2 \<and> level_of s2 = BATTERY_LEVEL_FULL"
proof -
  obtain s1 where s1: "eoc_runs E 15 s = Some s1" "batt_inv s1" "gauge_initialized s1" "max_soc_alrt s1"
    "level_of s1 = BATTERY_LEVEL_NORMAL" "eoc_counter s1 = 15"
    using eoc_runs_count [of E s 15] assms reach_inv [OF assms(2)] by auto
  obtain s2 where "max17050_battery_level_eoc_worker E s1 = Some s2" "level_of s2 = BATTERY_LEVEL_FULL"
    using eoc_run [OF s1(2,3) _ s1(4,5), of E] assms(1) s1(3,6) by auto
  then show ?thesis using s1 by blast
qed

theorem end_of_charge_is_noticed_witness:
  "\<exists>s1 s2. eoc_runs sample_gauge 15 sample_battery = Some s1 \<and>
    max17050_battery_level_eoc_worker sample_gauge s1 = Some s2 \<and> level_of s2 = BATTERY_LEVEL_FULL"
  using end_of_charge_is_noticed [of sample_gauge sample_battery] sample_eoc sample_battery_props sample_level by blast



end
