(* ===== verification/Spec2Isabelle.thy ===== *)
theory Spec2Isabelle
  imports Network Si4713CtrlProps Attach Bq25896Props BatteryProps
begin

text \<open>
  Verification library of the firmware of the FM transmitter module, for the build configured by
  \<^verbatim>\<open>src/nuttx/nuttx/configs/hdk/muc/fm_xmitter/defconfig\<close>.

  \<^bold>\<open>The program.\<close> The module is a NuttX image that talks to a base, the phone. The base is detected by
  \<^verbatim>\<open>drivers/greybus/mods/attach.c\<close>, which tells its clients over a notifier chain. Bytes travel over
  SPI in packets (\<^verbatim>\<open>datalink-spi.c\<close>, on ring buffers). The network layer (\<^verbatim>\<open>network.c\<close>) puts the number
  of a cport in front of each greybus message and is the transport of the greybus core
  (\<^verbatim>\<open>greybus-core.c\<close>), which keeps the queues and drivers of the cports in a radix table
  (\<^verbatim>\<open>rtr.c\<close>). Power between base, battery and external sources is directed by \<^verbatim>\<open>mods-ptp.c\<close> over
  switches (\<^verbatim>\<open>switch-ptp-chg.c\<close>) and the charger chip (\<^verbatim>\<open>bq25896.c\<close>, \<^verbatim>\<open>bq25896_charger.c\<close>). The fuel gauge
  (\<^verbatim>\<open>max17050.c\<close>) measures the battery, \<^verbatim>\<open>battery_temp.c\<close> and \<^verbatim>\<open>battery_level.c\<close> turn its alerts into zones
  and levels, and \<^verbatim>\<open>battery_state.c\<close> tells them to the power transfer protocol. The radio itself is driven by \<^verbatim>\<open>src/SI4713.c\<close>. Paths
  without a leading \<^verbatim>\<open>src/\<close> are relative to \<^verbatim>\<open>src/nuttx/nuttx/\<close>.

  \<^bold>\<open>Theories.\<close>
  \<^item> \<^verbatim>\<open>Prelude\<close>: error numbers, state of the base, little-endian fields, copying into buffers.
  \<^item> \<^verbatim>\<open>LibList\<close> (\<^verbatim>\<open>libc/misc/lib_list.c\<close>): intrusive lists on a store of links. They are sequences:
    adding appends, deleting removes, and counting returns.
  \<^item> \<^verbatim>\<open>RingBuf\<close> (\<^verbatim>\<open>libc/misc/lib_ring_buf.c\<close>): rings on a store of buffers. They refine a bounded
    queue, and allocation and release leave nothing behind.
  \<^item> \<^verbatim>\<open>Notifier\<close> (\<^verbatim>\<open>libc/misc/lib_notifier.c\<close>) and \<^verbatim>\<open>Attach\<close> (\<^verbatim>\<open>attach.c\<close>): callbacks run once
    each in order of registration, and changes of the base are announced once.
  \<^item> \<^verbatim>\<open>Datalink\<close> holds the model of \<^verbatim>\<open>datalink-spi.c\<close>, the record \<^typ>\<open>mods_spi_dl_s\<close> and one
    definition per handler. \<^verbatim>\<open>DatalinkTx\<close> shows that queueing appends the packets of a message,
    \<^verbatim>\<open>DatalinkRx\<close> that packets carry messages, \<^verbatim>\<open>DatalinkAck\<close> treats acknowledgements, and
    \<^verbatim>\<open>DatalinkInv\<close> has the invariant of all reachable states and the samples.
  \<^item> \<^verbatim>\<open>Rtr\<close> (\<^verbatim>\<open>drivers/greybus/rtr.c\<close>): the radix table is a map, walking through it ends and visits
    the numbers in order, removing drops more than it should. The locale \<^verbatim>\<open>cport_index\<close> is what the
    core relies on.
  \<^item> \<^verbatim>\<open>GbCore\<close> (\<^verbatim>\<open>drivers/greybus/greybus-core.c\<close>): the record \<^typ>\<open>('cb, 'w) gb\<close> and one definition
    per operation. \<^verbatim>\<open>GbCoreProps\<close>: well-formed states, safety of receiving, the search for a handler,
    completion of requests, identifiers, registration and shutdown.
  \<^item> \<^verbatim>\<open>Network\<close> (\<^verbatim>\<open>network.c\<close>): core and data link together carry a message unchanged.
  \<^item> \<^verbatim>\<open>SwitchChg\<close>, \<^verbatim>\<open>ExtPower\<close> (\<^verbatim>\<open>drivers/power/ext_power.c\<close>), \<^verbatim>\<open>Ptp\<close> (\<^verbatim>\<open>mods-ptp.c\<close>): the power
    path. \<^verbatim>\<open>PtpInv\<close> and \<^verbatim>\<open>PtpProps\<close>: what is reported to the base agrees with the switches, power
    flows only where it was asked for, and charging follows the battery. The locale \<^verbatim>\<open>ptp_charger\<close> is
    the contract between the protocol and the charger, interpreted once for any charger chip behind
    the switches and once for the one of the board.
  \<^item> \<^verbatim>\<open>Bq25896\<close> (\<^verbatim>\<open>drivers/power/bq25896.c\<close>, \<^verbatim>\<open>bq25896_charger.c\<close> and the initial registers of
    \<^verbatim>\<open>configs/hdk/muc/src/stm32_boot.c\<close>): the record \<^typ>\<open>bq25896\<close> has the registers of the chip and the
    structures of both files. \<^verbatim>\<open>Bq25896Props\<close>: mode and limits in the registers are those asked for, also
    after the chip lost power, so that the guarantees of the protocol reach the registers; what happens
    when a limit cannot be represented, no transfer works or the driver is removed.
  \<^item> \<^verbatim>\<open>Max17050\<close>, \<^verbatim>\<open>Battery\<close> (\<^verbatim>\<open>drivers/power/max17050.c\<close>, \<^verbatim>\<open>battery_state.c\<close>, \<^verbatim>\<open>battery_temp.c\<close>,
    \<^verbatim>\<open>battery_level.c\<close>, \<^verbatim>\<open>configs/hdk/muc/src/stm32_thermistor.c\<close>): the record \<^typ>\<open>'h battery\<close> extends the gauge
    \<^typ>\<open>'h max17050_dev\<close>, whose chip \<open>'h\<close> is arbitrary. \<^verbatim>\<open>BatteryProps\<close>: what is reported agrees with zone
    and level in every reachable state, zones settle, the end of a charge is noticed.
  \<^item> \<^verbatim>\<open>Si4713\<close>, \<^verbatim>\<open>Si4713Ctrl\<close> model the radio driver, \<^verbatim>\<open>Si4713Bus\<close>, \<^verbatim>\<open>Si4713Props\<close> and
    \<^verbatim>\<open>Si4713CtrlProps\<close> prove that supplies and power state agree, that tuning stays in the band and
    returns, and what each control does to the chip.
  \<^item> This theory joins data link, power transfer and attach driver: a base that goes away leaves both idle.
    And it joins gauge, battery state, power transfer and charger chip: what a hot battery does to the
    registers of the charger.

  \<^bold>\<open>Conventions.\<close> Structures are records, memory with aliasing is a store indexed by addresses, 0 is the
  null pointer. \<open>None\<close> is a fault (an access outside memory that is allocated, a failed assertion) or a
  call that does not return; return codes are integers. Loops that may not end are
  \<^theory_text>\<open>partial_function (option)\<close>, so no fuel is used, and where a result claims that they return it says so.
  Loops with a bound in the code have that bound: 8 tries of a transfer to the gauge and of loading its
  model. Five alerts are enough to settle a temperature zone because there are six zones.
  Chips, memory, clocks, drivers above the core and the transport below it are parameters, and what is
  assumed of them is a named predicate with an instance among the samples.

  \<^bold>\<open>Limits of the models.\<close> Handlers that run under the semaphore of their driver, or with interrupts
  disabled, are single steps. The worker of the data link reads two fields before it takes the semaphore, and
  \<^verbatim>\<open>mods_ptp_ext_power_changed\<close> reads its sources before; races in these windows are not
  covered. Delays of queued work are left out, so workers may run at any time. The chip of the gauge may change
  at any time. Of the charger chip only status and faults change by themselves in the reachable states; a chip
  that lost power is the subject of a theorem on its callback. In the core, the invariant is proved for
  starting, making entries, time-outs and receiving. Of the worker the theorems cover the completion of a
  synchronous request, of sending the
  identifiers; that a handler or a callback leaves the queues intact is not claimed. The contract of
  \<^verbatim>\<open>qsort\<close> is used in place of \<^verbatim>\<open>lib_qsort.c\<close>. Products in \<^verbatim>\<open>do_calculate_power\<close> are taken to fit
  an \<^verbatim>\<open>int\<close>.

  \<^bold>\<open>Not modelled.\<close> The NuttX kernel, memory, file systems and network stack, processor and board support
  and the device core are the platform below the models, whose documented effects the models use.
  The greybus protocol drivers (\<^verbatim>\<open>ptp.c\<close>, \<^verbatim>\<open>battery.c\<close>, \<^verbatim>\<open>i2c.c\<close>, \<^verbatim>\<open>vendor-moto.c\<close>, audio),
  \<^verbatim>\<open>mods-control.c\<close> (but for its check of a cport) and \<^verbatim>\<open>bootmode.c\<close> mostly unpack a message, call an
  operation of a driver or of the platform and pack the answer; they are the parameters of the core and
  the events of the drivers modelled here. Drivers outside the configuration, the I2C
  data link, applications, host tools and the other images of the repository are not part of this
  firmware.
\<close>

section \<open>The module and its base\<close>

text \<open>
  The part of the module that hears of the base: the data link and the power transfer protocol,
  both clients of the attach driver. They register in this order, the link when the network starts,
  the protocol when its device is opened.
\<close>

record ('w, 'x) module =
  link :: mods_spi_dl_s
  ptp :: "('w switch_ptp_chg_info, 'x) ptp_info"

definition link_client :: "dl_env \<Rightarrow> (base_attached_e, ('w, 'x) module) notifier_fn" where
  "link_client e st w = map_option (\<lambda>s. (OK, w\<lparr>link := s\<rparr>)) (attach_cb e st (link w))"

definition ptp_client :: "'w charger_ops \<Rightarrow> 'x ext_ops \<Rightarrow> (base_attached_e, ('w, 'x) module) notifier_fn" where
  "ptp_client E X st w =
     (let (r, s) = mods_ptp_attach_changed (switch_ptp_chg_type_ops E) X st (ptp w) in Some (r, w\<lparr>ptp := s\<rparr>))"

lemma detach_stops_power:
  assumes "chip_ok E" "ptp_reach (switch_ptp_chg_type_ops E) X (probed E) s"
  defines "s' \<equiv> snd (mods_ptp_attach_changed (switch_ptp_chg_type_ops E) X BASE_DETACHED s)"
  shows "attached s' = BASE_DETACHED" "source (report s') = PTP_POWER_SOURCE_NONE" "ic (chg_dev s') \<noteq> Ic_send"
proof -
  note g = switch_reach [OF assms(1,2)]
  have r: "ptp_reach (switch_ptp_chg_type_ops E) X (probed E) s'"
    unfolding s'_def by (rule ptp_reach.stepped [OF assms(2)]) (rule ptp_step.attach_event, simp)
  note g' = switch_reach [OF assms(1) r]
  show a: "attached s' = BASE_DETACHED"
    using g(5) by (simp add: s'_def mods_ptp_attach_changed_def Let_def ready_def process_attached)
  show n: "source (report s') = PTP_POWER_SOURCE_NONE"
    using g'(3) a by (auto simp: sanctioned_def)
  show "ic (chg_dev s') \<noteq> Ic_send"
    using g'(2) n by (simp add: view_def)
qed


definition sample_pins :: "('w, 'x) module attach_env" where
  "sample_pins = \<lparr>gpio_base_attach = (\<lambda>_. False), gpio_spi_cs_n = (\<lambda>_. True), gb_notify_disconnected = (\<lambda>w. w),
     spi_cs_isr = None\<rparr>"

text \<open>A module that feeds its base from the wired source, at the moment the base is gone.\<close>

definition sample_module :: "mods_spi_dl_s \<Rightarrow> (nat, (unit, int) module) attach" where
  "sample_module l = \<lparr>g_notify = register_all 0 [(1, link_client quiet_env), (2, ptp_client sample_chip sample_sources)]
       \<lparr>nlinks = list_init 0 \<lparr>prev = \<lambda>p. p, next = \<lambda>p. p\<rparr>, node_fn = (\<lambda>_. None)\<rparr>,
     g_base_state = BASE_ATTACHED, g_attach_work = None, aworld = \<lparr>link = l, ptp = sample_sending 1000\<rparr>\<rparr>"


section \<open>The battery and its charger\<close>

text \<open>What the charger chip does after a battery event that forbids charging.\<close>

lemma forbidden_charge:
  assumes "good_bus E" "chg_sem_ok E" "hw_reach E X s" "batt_last s \<noteq> b"
    and "batt_temp b \<in> {BATTERY_TEMP_NO_CHARGING, BATTERY_TEMP_COOL_DOWN}"
  defines "s' \<equiv> mods_ptp_battery_changed (hw_ops E) X b s"
  shows "attached s = BASE_ATTACHED \<Longrightarrow> direction (commands s) = PTP_CURRENT_TO_MOD \<Longrightarrow> hw_mode (chg_world (chg_dev s')) = Ic_off"
    "attached s = BASE_DETACHED \<Longrightarrow> hw_mode (chg_world (chg_dev s')) = Ic_receive None"
    "hw_mode (chg_world (chg_dev s')) \<noteq> Ic_receive (Some cfg)"
proof -
  have g: "hw.good E s" "ready s" using hw_reach_inv [OF assms(1-3)] by simp_all
  then have k: "hw_ok E (chg_dev s)" "sanctioned s" "\<not> batt_first s" by (simp_all add: hw.good_def ready_def)
  from k(3) assms(4) obtain t where t: "s' = snd (mods_ptp_process (hw_ops E) X t)" "core t = core s"
    "battery t = mods_ptp_set_battery_state b (battery s)"
    and d: "source (report s) \<noteq> PTP_POWER_SOURCE_BATTERY \<Longrightarrow> direction (commands t) = direction (commands s)"
    unfolding s'_def by (rule battery_event_acts [where Q = "hw_ops E" and X = X]) simp
  have n: "\<not> chg_allowed (battery t)" using assms(5) t(3) by (auto simp: mods_ptp_set_battery_state_def Let_def)
  have kt: "hw_ok E (chg_dev t)" "attached t = attached s" using core_eqD [OF t(2)] k(1) by simp_all
  note m = hw.chip_modes(4,6) [OF assms(2), unfolded hw_view_def snd_conv]
  show "hw_mode (chg_world (chg_dev s')) = Ic_off" if "attached s = BASE_ATTACHED" "direction (commands s) = PTP_CURRENT_TO_MOD"
  proof -
    have "direction (commands t) = PTP_CURRENT_TO_MOD"
      using d k(2) that by (auto simp: sanctioned_def config_simps)
    then show ?thesis
      using that n kt m(1) by (simp add: t(1) mods_ptp_process_def do_charge_battery_with_base_power_def Let_def config_simps)
  qed
  show "hw_mode (chg_world (chg_dev s')) = Ic_receive None" if "attached s = BASE_DETACHED"
    using that n kt m(2) [of "chg_dev t" None]
    by (auto simp: t(1) mods_ptp_process_def do_charge_battery_with_external_power_def Let_def split: option.split)
  have "hw_reach E X s'" unfolding s'_def by (rule hw_reach.stepped [OF assms(3)]) (rule ptp_step.battery_event)
  then have "hw.charging s'" using hw_reach_inv [OF assms(1,2)] by blast
  moreover have "\<not> chg_allowed (battery s')" using n by (simp add: t(1) process_consent)
  ultimately show "hw_mode (chg_world (chg_dev s')) \<noteq> Ic_receive (Some cfg)"
    by (auto simp: hw.charging_def charging_allowed_def hw_view_def)
qed



end
